(* ===== verification/Prelude.thy ===== *)
theory Prelude
  imports Main "HOL-Library.Word"
begin

text \<open>
  The prelude of the development: the byte and string types every component uses, the
  slice operations of Rust arrays and vectors, the little- and big-endian encodings of
  machine words, the result type of fallible code, and the collections of simplification
  rules the component proofs share.

  A Rust \<open>Vec<u8>\<close>, \<open>&[u8]\<close>, \<open>Bytes\<close> or \<open>[u8; N]\<close> is a list of 8-bit words; the length of
  an array type is a fact \<open>length x = N\<close>.  A \<open>Result<T, E>\<close> is \<open>E + T\<close> with \<open>Inl\<close> the error.
\<close>

unbundle bit_operations_syntax

type_synonym byte = "8 word"
type_synonym bytes = "byte list"
type_synonym u16 = "16 word"
type_synonym u64 = "64 word"

named_theorems codec \<open>length and round-trip equations of the byte codecs\<close>

section \<open>Results\<close>

text \<open>The \<open>?\<close> operator on \<open>Result\<close>, \<open>ok_or\<close> on \<open>Option\<close> and \<open>map_err\<close>.\<close>

fun try_bind :: "'e + 'a \<Rightarrow> ('a \<Rightarrow> 'e + 'b) \<Rightarrow> 'e + 'b" where
  "try_bind (Inl e) f = Inl e"
| "try_bind (Inr a) f = f a"

fun ok_or :: "'a option \<Rightarrow> 'e \<Rightarrow> 'e + 'a" where
  "ok_or None e = Inl e"
| "ok_or (Some a) e = Inr a"

fun map_err :: "('e \<Rightarrow> 'f) \<Rightarrow> 'e + 'a \<Rightarrow> 'f + 'a" where
  "map_err f (Inl e) = Inl (f e)"
| "map_err f (Inr a) = Inr a"

fun ok :: "'e + 'a \<Rightarrow> 'a option" where
  "ok (Inl e) = None"
| "ok (Inr a) = Some a"

lemma try_bind_Inr_iff: "try_bind r f = Inr b \<longleftrightarrow> (\<exists>a. r = Inr a \<and> f a = Inr b)"
  by (cases r) auto

lemma try_bind_Inl_iff:
  "try_bind r f = Inl e \<longleftrightarrow> r = Inl e \<or> (\<exists>a. r = Inr a \<and> f a = Inl e)"
  by (cases r) auto

lemma ok_or_Inr_iff [simp]: "ok_or x e = Inr a \<longleftrightarrow> x = Some a"
  by (cases x) auto

lemma ok_or_Inl_iff [simp]: "ok_or x e = Inl e' \<longleftrightarrow> x = None \<and> e' = e"
  by (cases x) auto

lemma map_err_Inr_iff [simp]: "map_err f r = Inr a \<longleftrightarrow> r = Inr a"
  by (cases r) auto

lemma map_err_Inl_iff: "map_err f r = Inl e \<longleftrightarrow> (\<exists>e'. r = Inl e' \<and> e = f e')"
  by (cases r) auto

lemma ok_Some_iff [simp]: "ok r = Some a \<longleftrightarrow> r = Inr a"
  by (cases r) auto

lemma ok_None_iff: "ok r = None \<longleftrightarrow> (\<exists>e. r = Inl e)"
  by (cases r) auto

lemmas result_iffs = try_bind_Inr_iff try_bind_Inl_iff map_err_Inl_iff

section \<open>Slices\<close>

text \<open>
  \<open>slice a b xs\<close> is \<open>&xs[a..b]\<close>.  \<open>overwrite buf a src\<close> is \<open>buf\<close> after
  \<open>buf[a..a + src.len()].copy_from_slice(src)\<close>; Rust panics unless the range has the length
  of the source and lies inside the buffer, which is \<open>copy_ok\<close>.
\<close>

definition slice :: "nat \<Rightarrow> nat \<Rightarrow> 'a list \<Rightarrow> 'a list" where
  "slice a b xs = take (b - a) (drop a xs)"

definition overwrite :: "'a list \<Rightarrow> nat \<Rightarrow> 'a list \<Rightarrow> 'a list" where
  "overwrite buf a src = take a buf @ src @ drop (a + length src) buf"

definition copy_ok :: "'a list \<Rightarrow> nat \<Rightarrow> nat \<Rightarrow> 'a list \<Rightarrow> bool" where
  "copy_ok buf a b src \<longleftrightarrow> a \<le> b \<and> b \<le> length buf \<and> length src = b - a"

lemma length_overwrite [codec]:
  "a + length src \<le> length buf \<Longrightarrow> length (overwrite buf a src) = length buf"
  by (simp add: overwrite_def)

lemma length_slice: "b \<le> length xs \<Longrightarrow> length (slice a b xs) = b - a"
  by (simp add: slice_def)

lemma slice_append_left: "b \<le> length xs \<Longrightarrow> slice a b (xs @ ys) = slice a b xs"
  by (simp add: slice_def)

lemma slice_append_right:
  "length xs \<le> a \<Longrightarrow> slice a b (xs @ ys) = slice (a - length xs) (b - length xs) ys"
  by (simp add: slice_def)

lemma slice_all: "a = 0 \<Longrightarrow> b = length xs \<Longrightarrow> slice a b xs = xs"
  by (simp add: slice_def)

text \<open>Filling a zeroed buffer from the left, one segment after the other.\<close>

lemma overwrite_fill:
  assumes "length pre = a" and "length src \<le> n"
  shows "overwrite (pre @ replicate n x) a src = (pre @ src) @ replicate (n - length src) x"
  using assms by (simp add: overwrite_def)

lemma append_eq_parts:
  assumes "length a = length b"
  shows "a @ x = b @ y \<longleftrightarrow> a = b \<and> x = y"
  using assms by simp

section \<open>Words as bytes\<close>

text \<open>\<open>to_le_bytes\<close> and \<open>to_be_bytes\<close> of an unsigned integer of \<open>n\<close> bytes.\<close>

definition to_le_bytes :: "nat \<Rightarrow> 'a::len word \<Rightarrow> bytes" where
  "to_le_bytes n w = map (\<lambda>i. ucast (drop_bit (8 * i) w)) [0..<n]"

definition to_be_bytes :: "nat \<Rightarrow> 'a::len word \<Rightarrow> bytes" where
  "to_be_bytes n w = rev (to_le_bytes n w)"

lemma length_to_le_bytes [simp, codec]: "length (to_le_bytes n w) = n"
  by (simp add: to_le_bytes_def)

lemma length_to_be_bytes [simp, codec]: "length (to_be_bytes n w) = n"
  by (simp add: to_be_bytes_def)

lemma bit_to_le_bytes:
  assumes "k < 8 * n" and "k < LENGTH('a)"
  shows "bit (to_le_bytes n (w :: 'a::len word) ! (k div 8)) (k mod 8) = bit w k"
proof -
  have "k div 8 < n" using assms(1) by (simp add: less_mult_imp_div_less mult.commute)
  moreover have "8 * (k div 8) + k mod 8 = k" by simp
  ultimately show ?thesis
    by (simp add: to_le_bytes_def bit_simps)
qed

lemma to_le_bytes_inj:
  fixes v w :: "'a::len word"
  assumes "LENGTH('a) \<le> 8 * n" and "to_le_bytes n v = to_le_bytes n w"
  shows "v = w"
proof (rule bit_word_eqI)
  fix k assume k: "k < LENGTH('a)"
  then have "k < 8 * n" using assms(1) by simp
  then show "bit v k = bit w k"
    using assms(2) bit_to_le_bytes[OF _ k, of n] by metis
qed

section \<open>Fixed layouts\<close>

text \<open>
  What a component that signs or quotes an encoded record relies on: every well-formed record
  is encoded in the same number of bytes, and different records are encoded differently.
\<close>

locale fixed_layout =
  fixes enc :: "'a \<Rightarrow> bytes" and wf :: "'a \<Rightarrow> bool" and width :: nat
  assumes enc_length: "wf a \<Longrightarrow> length (enc a) = width"
    and enc_inj: "wf a \<Longrightarrow> wf b \<Longrightarrow> enc a = enc b \<Longrightarrow> a = b"
begin

lemma enc_prefix_free:
  assumes "wf a" and "wf b" and "enc a @ x = enc b @ y"
  shows "a = b \<and> x = y"
proof -
  have "enc a = enc b \<and> x = y"
    using assms by (simp add: append_eq_parts enc_length)
  then show ?thesis using assms enc_inj by blast
qed

text \<open>A verifier that accepts a tag made for one encoding under another encoding only if they are
  equal accepts it for the same record only.\<close>

lemma tag_binds:
  assumes "wf a" and "wf b" and "accepts (enc b) (tag (enc a))"
    and "accepts (enc b) (tag (enc a)) \<longrightarrow> enc b = enc a"
  shows "b = a"
  using assms enc_inj by blast

end

section \<open>ASCII byte strings\<close>

text \<open>A byte-string literal \<open>b"..."\<close> and \<open>str::as_bytes\<close> on ASCII text.\<close>

definition ascii :: "string \<Rightarrow> bytes" where
  "ascii s = map (\<lambda>c. of_nat (of_char c)) s"

lemma length_ascii [simp, codec]: "length (ascii s) = length s"
  by (simp add: ascii_def)

lemma ascii_append [simp]: "ascii (s @ t) = ascii s @ ascii t"
  by (simp add: ascii_def)

lemma byte_of_char_inj: "(of_nat (of_char c) :: byte) = of_nat (of_char d) \<longleftrightarrow> c = d"
proof
  assume "(of_nat (of_char c) :: byte) = of_nat (of_char d)"
  then have "(of_char c :: nat) mod 256 = of_char d mod 256"
    by (simp add: word_of_nat_eq_iff take_bit_eq_mod)
  then show "c = d"
    by (metis of_char_mod_256 char_of_char)
qed simp

lemma ascii_inj [simp]: "ascii s = ascii t \<longleftrightarrow> s = t"
  by (auto simp: ascii_def inj_def byte_of_char_inj)

end
