(* ===== verification/Rust_Std.thy ===== *)
theory Rust_Std
  imports Prelude
begin

text \<open>
  The parts of the Rust language and its standard library the sidecar uses: \<open>usize\<close>
  arithmetic on a 64-bit target, \<open>str\<close> as a sequence of Unicode scalar values with its
  UTF-8 encoding, trimming, ASCII classification and case folding, decimal rendering and
  parsing of \<open>u64\<close>, and the completion time of a future.
\<close>

section \<open>\<open>usize\<close> arithmetic\<close>

definition usize_max :: nat where
  "usize_max = 2 ^ 64 - 1"

text \<open>\<open>+\<close> on \<open>usize\<close> in a release build wraps around.\<close>

definition wrapping_add :: "nat \<Rightarrow> nat \<Rightarrow> nat" where
  "wrapping_add a b = (a + b) mod (usize_max + 1)"

definition saturating_add :: "nat \<Rightarrow> nat \<Rightarrow> nat" where
  "saturating_add a b = min usize_max (a + b)"

definition checked_add :: "nat \<Rightarrow> nat \<Rightarrow> nat option" where
  "checked_add a b = (if a + b \<le> usize_max then Some (a + b) else None)"

text \<open>\<open>u64::try_from(d.as_millis())\<close>: a \<open>u128\<close> millisecond count that may not fit.\<close>

definition u64_try_from :: "nat \<Rightarrow> u64 option" where
  "u64_try_from n = (if n < 2 ^ 64 then Some (of_nat n) else None)"

lemma saturating_add_le: "cap < usize_max \<Longrightarrow> saturating_add a b \<le> cap \<longleftrightarrow> a + b \<le> cap"
  by (auto simp: saturating_add_def)

lemma checked_add_Some: "checked_add a b = Some c \<longleftrightarrow> c = a + b \<and> a + b \<le> usize_max"
  by (auto simp: checked_add_def)

lemma u64_try_from_Some: "u64_try_from n = Some w \<Longrightarrow> unat w = n"
  by (auto simp: u64_try_from_def unat_of_nat take_bit_eq_mod split: if_splits)

section \<open>\<open>str\<close>\<close>

text \<open>A \<open>String\<close> or \<open>&str\<close> is the list of its \<open>char\<close>s, each a Unicode scalar value.\<close>

type_synonym ustr = "nat list"

definition is_scalar :: "nat \<Rightarrow> bool" where
  "is_scalar c \<longleftrightarrow> c < 0xD800 \<or> (0xE000 \<le> c \<and> c < 0x110000)"

definition utf8_char :: "nat \<Rightarrow> bytes" where
  "utf8_char c =
     (if c < 0x80 then [of_nat c]
      else if c < 0x800 then [of_nat (0xC0 + c div 64), of_nat (0x80 + c mod 64)]
      else if c < 0x10000 then
        [of_nat (0xE0 + c div 4096), of_nat (0x80 + c div 64 mod 64), of_nat (0x80 + c mod 64)]
      else
        [of_nat (0xF0 + c div 262144), of_nat (0x80 + c div 4096 mod 64),
         of_nat (0x80 + c div 64 mod 64), of_nat (0x80 + c mod 64)])"

definition utf8 :: "ustr \<Rightarrow> bytes" where
  "utf8 s = concat (map utf8_char s)"

definition chars :: "string \<Rightarrow> ustr" where
  "chars s = map of_char s"

text \<open>\<open>char::is_whitespace\<close>: the Unicode property \<open>White_Space\<close>.\<close>

definition is_whitespace :: "nat \<Rightarrow> bool" where
  "is_whitespace c \<longleftrightarrow>
     (9 \<le> c \<and> c \<le> 13) \<or> c = 0x20 \<or> c = 0x85 \<or> c = 0xA0 \<or> c = 0x1680 \<or>
     (0x2000 \<le> c \<and> c \<le> 0x200A) \<or> c = 0x2028 \<or> c = 0x2029 \<or> c = 0x202F \<or> c = 0x205F \<or> c = 0x3000"

definition is_ascii_graphic :: "nat \<Rightarrow> bool" where
  "is_ascii_graphic c \<longleftrightarrow> 0x21 \<le> c \<and> c \<le> 0x7E"

definition trim :: "ustr \<Rightarrow> ustr" where
  "trim s = rev (dropWhile is_whitespace (rev (dropWhile is_whitespace s)))"

text \<open>\<open>str::trim_start_matches\<close> with a string pattern removes the prefix as often as it occurs.\<close>

function trim_start_matches :: "ustr \<Rightarrow> ustr \<Rightarrow> ustr" where
  "trim_start_matches pat s =
     (if pat \<noteq> [] \<and> take (length pat) s = pat
      then trim_start_matches pat (drop (length pat) s) else s)"
  by pat_completeness auto
termination
proof (relation "measure (\<lambda>(pat, s). length s)")
  fix pat s :: ustr
  assume a: "pat \<noteq> [] \<and> take (length pat) s = pat"
  then have "s \<noteq> []" by auto
  with a show "((pat, drop (length pat) s), pat, s) \<in> measure (\<lambda>(pat, s). length s)"
    by simp
qed simp

declare trim_start_matches.simps [simp del]

text \<open>\<open>str::trim_end_matches\<close> with a single character, on path bytes.\<close>

definition trim_end_matches :: "byte \<Rightarrow> bytes \<Rightarrow> bytes" where
  "trim_end_matches c s = rev (dropWhile (\<lambda>b. b = c) (rev s))"

lemma graphic_not_whitespace: "is_ascii_graphic c \<Longrightarrow> \<not> is_whitespace c"
  by (auto simp: is_ascii_graphic_def is_whitespace_def)

lemma utf8_char_graphic [simp]: "is_ascii_graphic c \<Longrightarrow> utf8_char c = [of_nat c]"
  by (simp add: is_ascii_graphic_def utf8_char_def)

lemma utf8_graphic: "list_all is_ascii_graphic s \<Longrightarrow> utf8 s = map of_nat s"
  by (induction s) (simp_all add: utf8_def)

lemma dropWhile_none: "\<forall>c \<in> set s. \<not> P c \<Longrightarrow> dropWhile P s = s"
  by (cases s) auto

lemma trim_no_whitespace: "list_all (\<lambda>c. \<not> is_whitespace c) s \<Longrightarrow> trim s = s"
  by (simp add: trim_def dropWhile_none list_all_iff)

lemma trim_idem [simp]: "trim (trim s) = trim s"
proof -
  have ends: "dropWhile P (rev (dropWhile P (rev (dropWhile P s)))) = rev (dropWhile P (rev (dropWhile P s)))"
    for P :: "nat \<Rightarrow> bool" and s
  proof (cases "rev (dropWhile P (rev (dropWhile P s)))")
    case Nil
    show ?thesis unfolding Nil by simp
  next
    case (Cons x xs)
    define u where "u = dropWhile P s"
    have "takeWhile P (rev u) @ dropWhile P (rev u) = rev u" by (rule takeWhile_dropWhile_id)
    then have "rev (dropWhile P (rev u)) @ rev (takeWhile P (rev u)) = u"
      by (metis rev_append rev_rev_ident)
    then have "u = x # (xs @ rev (takeWhile P (rev u)))"
      using Cons u_def by simp
    then have "\<not> P x" using hd_dropWhile[of P s] u_def by (metis list.distinct(1) list.sel(1))
    then show ?thesis using Cons by simp
  qed
  show ?thesis by (simp add: trim_def ends)
qed

lemma utf8_nat_inj:
  assumes "list_all is_ascii_graphic s" and "list_all is_ascii_graphic t" and "utf8 s = utf8 t"
  shows "s = t"
proof -
  have "map (of_nat :: nat \<Rightarrow> byte) s = map of_nat t"
    using assms by (simp add: utf8_graphic)
  then show ?thesis using assms(1,2)
  proof (induction s arbitrary: t)
    case (Cons x s)
    then obtain y t' where "t = y # t'" by (cases t) auto
    moreover have "(of_nat x :: byte) = of_nat y \<Longrightarrow> is_ascii_graphic x \<Longrightarrow> is_ascii_graphic y \<Longrightarrow> x = y"
      if "t = y # t'"
      by (simp add: word_of_nat_eq_iff take_bit_eq_mod is_ascii_graphic_def)
    ultimately show ?case using Cons by auto
  qed simp
qed

section \<open>ASCII bytes\<close>

definition to_ascii_lowercase :: "byte \<Rightarrow> byte" where
  "to_ascii_lowercase b = (if 65 \<le> b \<and> b \<le> 90 then b + 32 else b)"

definition eq_ignore_ascii_case :: "bytes \<Rightarrow> bytes \<Rightarrow> bool" where
  "eq_ignore_ascii_case x y \<longleftrightarrow> map to_ascii_lowercase x = map to_ascii_lowercase y"

lemma eq_ignore_ascii_case_refl [simp]: "eq_ignore_ascii_case x x"
  by (simp add: eq_ignore_ascii_case_def)

section \<open>Decimal numbers\<close>

definition digit :: "nat \<Rightarrow> char" where
  "digit d = char_of (48 + d)"

fun dec :: "nat \<Rightarrow> string" where
  "dec n = (if n < 10 then [digit n] else dec (n div 10) @ [digit (n mod 10)])"

declare dec.simps [simp del]

definition is_digit :: "char \<Rightarrow> bool" where
  "is_digit c \<longleftrightarrow> 48 \<le> (of_char c :: nat) \<and> (of_char c :: nat) \<le> 57"

definition dec_value :: "string \<Rightarrow> nat" where
  "dec_value s = foldl (\<lambda>a c. 10 * a + (of_char c - 48)) 0 s"

text \<open>\<open>str::parse::<u64>\<close>: an optional \<open>+\<close>, at least one digit, digits only, and no overflow.\<close>

definition parse_u64 :: "string \<Rightarrow> u64 option" where
  "parse_u64 s =
     (let ds = (case s of [] \<Rightarrow> [] | c # cs \<Rightarrow> if c = CHR ''+'' then cs else s)
      in if ds = [] \<or> \<not> list_all is_digit ds then None else u64_try_from (dec_value ds))"

lemma of_char_digit [simp]: "d < 10 \<Longrightarrow> (of_char (digit d) :: nat) = 48 + d"
  by (simp add: digit_def)

lemma dec_correct: "list_all is_digit (dec n) \<and> dec_value (dec n) = n \<and> dec n \<noteq> []"
proof (induction n rule: dec.induct)
  case (1 n)
  show ?case
  proof (cases "n < 10")
    case True
    then show ?thesis by (subst (1 2 3) dec.simps) (simp add: is_digit_def dec_value_def)
  next
    case False
    then have "list_all is_digit (dec (n div 10)) \<and> dec_value (dec (n div 10)) = n div 10"
      using 1 by simp
    with False show ?thesis
      by (subst (1 2 3) dec.simps) (simp add: is_digit_def dec_value_def)
  qed
qed

lemma dec_head: "dec n = c # cs \<Longrightarrow> c \<noteq> CHR ''+''"
  using dec_correct[of n] by (auto simp: is_digit_def)

theorem parse_u64_dec: "parse_u64 (dec (unat w)) = Some w"
proof -
  have "parse_u64 (dec (unat w)) = u64_try_from (unat w)"
    using dec_correct[of "unat w"] dec_head[of "unat w"]
    by (auto simp: parse_u64_def split: list.split)
  then show ?thesis
    using unsigned_less[of w] by (simp add: u64_try_from_def)
qed

lemma dec_inj [simp]: "dec m = dec n \<longleftrightarrow> m = n"
  using dec_correct by metis

section \<open>Futures\<close>

text \<open>
  The completion of an \<open>async\<close> computation: ready after some nanoseconds with a value, or
  never.  \<open>await\<close> runs the continuation when the future is ready, and its time adds up.
\<close>

datatype 'a fut = Ready nat 'a | Never

fun await :: "'a fut \<Rightarrow> ('a \<Rightarrow> 'b fut) \<Rightarrow> 'b fut" where
  "await Never f = Never"
| "await (Ready t x) f = (case f x of Never \<Rightarrow> Never | Ready t' y \<Rightarrow> Ready (t + t') y)"

fun_cases await_ReadyE: "await x f = Ready t y"

lemma await_Ready_iff:
  "await x f = Ready t y \<longleftrightarrow>
     (\<exists>t1 a t2. x = Ready t1 a \<and> f a = Ready t2 y \<and> t = t1 + t2)"
  by (cases x) (auto split: fut.splits)

text \<open>\<open>fut_map\<close> changes the value of a future; \<open>fut_try\<close> is \<open>.await?\<close>, which goes on only with an \<open>Ok\<close>.\<close>

definition fut_map :: "('a \<Rightarrow> 'b) \<Rightarrow> 'a fut \<Rightarrow> 'b fut" where
  "fut_map g x = await x (\<lambda>a. Ready 0 (g a))"

definition fut_try :: "('e + 'a) fut \<Rightarrow> ('a \<Rightarrow> ('e + 'b) fut) \<Rightarrow> ('e + 'b) fut" where
  "fut_try x f = await x (\<lambda>r. case r of Inl e \<Rightarrow> Ready 0 (Inl e) | Inr a \<Rightarrow> f a)"

lemma fut_map_simps [simp]: "fut_map g Never = Never" "fut_map g (Ready t a) = Ready t (g a)"
  by (simp_all add: fut_map_def)

lemma fut_map_iff:
  "fut_map g x = Ready t y \<longleftrightarrow> (\<exists>a. x = Ready t a \<and> y = g a)" "fut_map g x = Never \<longleftrightarrow> x = Never"
  by (cases x; auto)+

lemma fut_try_simps [simp]:
  "fut_try Never f = Never" "fut_try (Ready t (Inl e)) f = Ready t (Inl e)"
  "fut_try (Ready t (Inr a)) f = (case f a of Never \<Rightarrow> Never | Ready t' y \<Rightarrow> Ready (t + t') y)"
  by (simp_all add: fut_try_def)

lemma fut_try_Inr_iff:
  "fut_try x f = Ready t (Inr b) \<longleftrightarrow> (\<exists>t1 a t2. x = Ready t1 (Inr a) \<and> f a = Ready t2 (Inr b) \<and> t = t1 + t2)"
proof (cases x)
  case (Ready t1 r)
  then show ?thesis by (cases r) (auto split: fut.splits)
qed simp

end
