(* ===== verification/Externals.thy ===== *)
theory Externals
  imports Rust_Std "HOL-Library.Countable"
begin

text \<open>
  The interfaces of the code that is not part of the repository: the crates and services
  the sidecar calls.  Each is a record of functions, a parameter of every definition that
  uses it; nothing is assumed about a field unless a theorem names the assumption.  The
  named assumptions below (\<open>sha256_len\<close>, \<open>ed_correct\<close>, \<open>hpke_correct\<close>, ...) state documented
  behaviour of those crates and are used as hypotheses only.
\<close>

section \<open>HTTP values\<close>

text \<open>
  A header name is its normalised (lowercase) text, a header value its bytes, a header map
  the list of its entries in the order they were appended; \<open>get_all\<close> gives the values of one name.
\<close>

type_synonym headers = "(string \<times> bytes) list"

definition get_all :: "string \<Rightarrow> headers \<Rightarrow> bytes list" where
  "get_all n hs = map snd (filter (\<lambda>h. fst h = n) hs)"

lemma get_all_simps [simp]:
  "get_all n [] = []"
  "get_all n ((m, v) # hs) = (if m = n then v # get_all n hs else get_all n hs)"
  "get_all n (hs @ hs') = get_all n hs @ get_all n hs'"
  by (simp_all add: get_all_def)

text \<open>A header name literal such as \<open>"vRPC-Signature"\<close> is normalised to lowercase.\<close>

definition header_name :: "string \<Rightarrow> string" where
  "header_name s = map (\<lambda>c. let n = of_char c :: nat in if 65 \<le> n \<and> n \<le> 90 then char_of (n + 32) else c) s"

lemma header_names [simp]:
  "header_name ''vRPC-Signature'' = ''vrpc-signature''"
  "header_name ''vRPC-Timestamp'' = ''vrpc-timestamp''"
  "header_name ''vRPC-Pubkey'' = ''vrpc-pubkey''"
  "header_name ''vRPC-Batch-Size'' = ''vrpc-batch-size''"
  by code_simp+

text \<open>\<open>http::Uri\<close> by its accessors.\<close>

record uri =
  u_scheme :: "bytes option"
  u_authority :: "bytes option"
  u_path :: bytes
  u_path_and_query :: "bytes option"

text \<open>A body is a stream of frames, each after a delay, that ends, breaks or stalls for ever.\<close>

datatype frame = Data bytes | Trailers headers | Broken

datatype body = Eof nat | Stalled | Next nat frame body

record request =
  rq_method :: bytes
  rq_uri :: uri
  rq_headers :: headers
  rq_body :: body

record response =
  rs_status :: nat
  rs_headers :: headers
  rs_body :: bytes

record up_request =
  up_method :: bytes
  up_uri :: uri
  up_headers :: headers
  up_body :: bytes

text \<open>An upstream response: status, headers, the body's size hint and its frames.\<close>

record up_response =
  ur_status :: nat
  ur_headers :: headers
  ur_size_lower :: nat
  ur_body :: body

text \<open>\<open>StatusCode::into_response\<close>: the status with no body.\<close>

definition bare :: "nat \<Rightarrow> response" where
  "bare s = \<lparr>rs_status = s, rs_headers = [], rs_body = []\<rparr>"

section \<open>The \<open>http\<close> crate\<close>

record http_api =
  method_from_bytes :: "bytes \<Rightarrow> bytes option"
  header_value_from_bytes :: "bytes \<Rightarrow> bytes option"
  header_to_str :: "bytes \<Rightarrow> ustr option"
  path_and_query_try_from :: "bytes \<Rightarrow> bytes option"
  uri_parse :: "ustr \<Rightarrow> uri option"
  uri_from_parts :: "bytes option \<Rightarrow> bytes option \<Rightarrow> bytes option \<Rightarrow> uri option"
  request_build_ok :: "bytes \<Rightarrow> uri \<Rightarrow> headers \<Rightarrow> bool"
  response_build_ok :: "nat \<Rightarrow> headers \<Rightarrow> bool"

text \<open>\<open>HeaderValue::to_str\<close> gives back text of printable ASCII characters.\<close>

definition header_text :: "http_api \<Rightarrow> bool" where
  "header_text P \<longleftrightarrow>
     (\<forall>s. (\<forall>c \<in> set s. 32 \<le> (of_char c :: nat) \<and> (of_char c :: nat) < 127) \<longrightarrow>
        header_to_str P (ascii s) = Some (chars s))"

text \<open>
  What the builders accept: header names of at most 65535 token characters, values without control
  characters, and a map that does not outgrow its size limit (\<open>HeaderMap\<close> holds 24576 names; 1024
  is far below).  A status has three digits, and a \<open>Uri\<close> value, once made, is valid.
\<close>

definition token_char :: "char \<Rightarrow> bool" where
  "token_char c \<longleftrightarrow>
     (let n = of_char c :: nat in
      48 \<le> n \<and> n \<le> 57 \<or> 97 \<le> n \<and> n \<le> 122 \<or>
      n \<in> {33, 35, 36, 37, 38, 39, 42, 43, 45, 46, 94, 95, 96, 124, 126})"

definition header_ok :: "string \<times> bytes \<Rightarrow> bool" where
  "header_ok h \<longleftrightarrow>
     fst h \<noteq> [] \<and> length (fst h) < 65536 \<and> list_all token_char (fst h) \<and>
     list_all (\<lambda>b. 32 \<le> b \<and> b \<noteq> 127) (snd h)"

definition headers_fit :: "headers \<Rightarrow> bool" where
  "headers_fit hs \<longleftrightarrow> list_all header_ok hs \<and> length hs \<le> 1024"

definition response_builds :: "http_api \<Rightarrow> bool" where
  "response_builds P \<longleftrightarrow>
     (\<forall>s hs. 100 \<le> s \<longrightarrow> s \<le> 999 \<longrightarrow> headers_fit hs \<longrightarrow> response_build_ok P s hs)"

text \<open>Text of printable characters is a header value.\<close>

lemma ascii_header_ok:
  assumes "\<forall>c \<in> set s. 32 \<le> (of_char c :: nat) \<and> (of_char c :: nat) < 127"
    and "n \<noteq> []" and "length n < 65536" and "list_all token_char n"
  shows "header_ok (n, ascii s)"
proof -
  have "32 \<le> (of_nat (of_char c) :: byte) \<and> (of_nat (of_char c) :: byte) \<noteq> 127" if "c \<in> set s" for c
  proof -
    have "unat (of_nat (of_char c) :: byte) = of_char c"
      using assms(1) that by (auto simp: unat_of_nat)
    then show ?thesis using assms(1) that
      by (auto simp: word_le_nat_alt dest: arg_cong[of _ "127 :: byte" unat])
  qed
  then show ?thesis using assms by (auto simp: header_ok_def ascii_def list_all_iff)
qed

section \<open>\<open>hex\<close>\<close>

record hex_crate =
  hex_encode :: "bytes \<Rightarrow> string"
  hex_decode :: "bytes \<Rightarrow> bytes option"
  hex_decode_to_slice :: "bytes \<Rightarrow> nat \<Rightarrow> bytes option"

text \<open>Decoding inverts encoding, and the text has two hexadecimal digits for each byte.\<close>

definition hex_digits :: "hex_crate \<Rightarrow> bool" where
  "hex_digits H \<longleftrightarrow> (\<forall>bs. length (hex_encode H bs) = 2 * length bs \<and>
     set (hex_encode H bs) \<subseteq> set ''0123456789abcdef'')"

definition hex_roundtrip :: "hex_crate \<Rightarrow> bool" where
  "hex_roundtrip H \<longleftrightarrow> (\<forall>bs. hex_decode H (ascii (hex_encode H bs)) = Some bs)"

section \<open>Cryptography: \<open>sha2\<close>, \<open>ed25519-dalek\<close>, \<open>hpke\<close>, \<open>hkdf\<close>, \<open>aes-gcm\<close>\<close>

text \<open>
  A signing key is its seed.  \<open>'c\<close> is the HPKE context of either side.  \<open>hkdf_extract\<close> is
  \<open>Hkdf::new\<close>, and an HPKE or HKDF output buffer is given by its length.
\<close>

datatype aead = AesGcm128 | AesGcm256

record sig_api =
  sha256_digest :: "bytes \<Rightarrow> bytes"
  verifying_key :: "bytes \<Rightarrow> bytes"
  to_montgomery :: "bytes \<Rightarrow> bytes"
  to_scalar_bytes :: "bytes \<Rightarrow> bytes"
  ed_sign :: "bytes \<Rightarrow> bytes \<Rightarrow> bytes"
  vk_from_bytes :: "bytes \<Rightarrow> bool"
  ed_verify :: "bytes \<Rightarrow> bytes \<Rightarrow> bytes \<Rightarrow> bool"

record 'c hpke_api =
  hpke_sk_from_bytes :: "bytes \<Rightarrow> bytes option"
  hpke_sk_to_pk :: "bytes \<Rightarrow> bytes"
  hpke_pk_from_bytes :: "bytes \<Rightarrow> bytes option"
  hpke_enc_from_bytes :: "bytes \<Rightarrow> bytes option"
  hpke_setup_receiver :: "aead \<Rightarrow> bytes \<Rightarrow> bytes \<Rightarrow> bytes \<Rightarrow> 'c option"
  hpke_export :: "'c \<Rightarrow> bytes \<Rightarrow> nat \<Rightarrow> bytes option"
  hpke_open :: "'c \<Rightarrow> bytes \<Rightarrow> bytes \<Rightarrow> bytes option"
  hpke_setup_sender :: "aead \<Rightarrow> bytes \<Rightarrow> bytes \<Rightarrow> bytes \<Rightarrow> (bytes \<times> 'c) option"
  hpke_seal :: "'c \<Rightarrow> bytes \<Rightarrow> bytes \<Rightarrow> bytes option"

record aead_api =
  hkdf_extract :: "bytes \<Rightarrow> bytes \<Rightarrow> bytes"
  hkdf_expand :: "bytes \<Rightarrow> bytes \<Rightarrow> nat \<Rightarrow> bytes option"
  gcm_key_size :: "aead \<Rightarrow> nat"
  gcm_new_from_slice :: "aead \<Rightarrow> bytes \<Rightarrow> bytes option"
  gcm_nonce_try_from :: "aead \<Rightarrow> bytes \<Rightarrow> bytes option"
  gcm_encrypt_detached :: "aead \<Rightarrow> bytes \<Rightarrow> bytes \<Rightarrow> bytes \<Rightarrow> bytes \<Rightarrow> (bytes \<times> bytes) option"
  gcm_decrypt :: "aead \<Rightarrow> bytes \<Rightarrow> bytes \<Rightarrow> bytes \<Rightarrow> bytes option"

definition sha256_len :: "sig_api \<Rightarrow> bool" where
  "sha256_len C \<longleftrightarrow> (\<forall>x. length (sha256_digest C x) = 32)"

text \<open>Ed25519: keys and signatures have their sizes, an honest signature verifies.\<close>

definition ed_correct :: "sig_api \<Rightarrow> bool" where
  "ed_correct C \<longleftrightarrow>
     (\<forall>seed. length (verifying_key C seed) = 32 \<and> vk_from_bytes C (verifying_key C seed)) \<and>
     (\<forall>seed m. length (ed_sign C seed m) = 64 \<and>
        ed_verify C (verifying_key C seed) m (ed_sign C seed m))"

text \<open>
  The signature the key makes for \<open>m\<close> does not verify for the other message \<open>m'\<close>, and the
  hash does not collide on two inputs: computational properties, stated for the messages and
  inputs at hand.
\<close>

definition ed_binding :: "sig_api \<Rightarrow> bytes \<Rightarrow> bytes \<Rightarrow> bytes \<Rightarrow> bool" where
  "ed_binding C seed m m' \<longleftrightarrow>
     (ed_verify C (verifying_key C seed) m' (ed_sign C seed m) \<longrightarrow> m' = m)"

definition no_collision :: "sig_api \<Rightarrow> bytes \<Rightarrow> bytes \<Rightarrow> bool" where
  "no_collision C x y \<longleftrightarrow> (sha256_digest C x = sha256_digest C y \<longrightarrow> x = y)"

text \<open>
  HPKE base mode (RFC 9180): an encapsulated key has 32 bytes and is accepted by the
  receiver, whose context opens what the sender's context seals and exports the same
  secrets; a ciphertext carries a 16-byte tag and an export has the requested length.
\<close>

definition hpke_correct :: "'c hpke_api \<Rightarrow> bytes \<Rightarrow> bool" where
  "hpke_correct C sk \<longleftrightarrow>
     hpke_sk_from_bytes C sk = Some sk \<and>
     hpke_pk_from_bytes C (hpke_sk_to_pk C sk) = Some (hpke_sk_to_pk C sk) \<and>
     (\<forall>a rnd info enc s. hpke_setup_sender C a rnd (hpke_sk_to_pk C sk) info = Some (enc, s) \<longrightarrow>
        length enc = 32 \<and> hpke_enc_from_bytes C enc = Some enc \<and>
        (\<exists>r. hpke_setup_receiver C a sk enc info = Some r \<and>
           (\<forall>pt aad ct. hpke_seal C s pt aad = Some ct \<longrightarrow>
              length ct = length pt + 16 \<and> hpke_open C r ct aad = Some pt) \<and>
           (\<forall>l n x. hpke_export C s l n = Some x \<longrightarrow> length x = n \<and> hpke_export C r l n = Some x)))"

text \<open>AES-GCM: the cipher is total on a key and a nonce of its sizes, and decryption inverts it.\<close>

definition gcm_correct :: "aead_api \<Rightarrow> aead \<Rightarrow> bool" where
  "gcm_correct C a \<longleftrightarrow>
     (\<forall>k. length k = gcm_key_size C a \<longrightarrow> gcm_new_from_slice C a k = Some k) \<and>
     (\<forall>n. length n = 12 \<longrightarrow> gcm_nonce_try_from C a n = Some n) \<and>
     (\<forall>k n pt. length k = gcm_key_size C a \<longrightarrow> length n = 12 \<longrightarrow>
        (\<exists>ct tag. gcm_encrypt_detached C a k n [] pt = Some (ct, tag) \<and>
           length ct = length pt \<and> length tag = 16 \<and> gcm_decrypt C a k n (ct @ tag) = Some pt))"

text \<open>HKDF-SHA256 expands to any length up to 255 blocks; the sidecar asks for 32 bytes at most.\<close>

definition hkdf_total :: "aead_api \<Rightarrow> bool" where
  "hkdf_total C \<longleftrightarrow>
     (\<forall>prk info n. n \<le> 32 \<longrightarrow> (\<exists>x. hkdf_expand C prk info n = Some x \<and> length x = n))"

section \<open>\<open>bhttp\<close>\<close>

text \<open>
  \<open>'m\<close> is \<open>bhttp::Message\<close>.  \<open>bh_write\<close> is \<open>write_bhttp(Mode::KnownLength, w)\<close> on an
  \<open>io::Write\<close>: the chunks it writes, and whether it succeeded.
\<close>

record 'm bhttp =
  bh_read :: "bytes \<Rightarrow> 'm option"
  bh_method :: "'m \<Rightarrow> bytes option"
  bh_path :: "'m \<Rightarrow> bytes option"
  bh_status :: "'m \<Rightarrow> nat option"
  bh_fields :: "'m \<Rightarrow> (bytes \<times> bytes) list"
  bh_content :: "'m \<Rightarrow> bytes"
  bh_status_code :: "nat \<Rightarrow> nat option"
  bh_response :: "nat \<Rightarrow> 'm"
  bh_put_header :: "'m \<Rightarrow> bytes \<Rightarrow> bytes \<Rightarrow> 'm"
  bh_write_content :: "'m \<Rightarrow> bytes \<Rightarrow> 'm"
  bh_write :: "'m \<Rightarrow> bytes list \<times> bool"

text \<open>Building a response: what the accessors see afterwards.\<close>

definition bhttp_builder :: "'m bhttp \<Rightarrow> bool" where
  "bhttp_builder B \<longleftrightarrow>
     (\<forall>s. bh_status B (bh_response B s) = Some s \<and> bh_fields B (bh_response B s) = [] \<and>
          bh_content B (bh_response B s) = []) \<and>
     (\<forall>m n v. bh_status B (bh_put_header B m n v) = bh_status B m \<and>
          bh_fields B (bh_put_header B m n v) = bh_fields B m @ [(n, v)] \<and>
          bh_content B (bh_put_header B m n v) = bh_content B m) \<and>
     (\<forall>m d. bh_status B (bh_write_content B m d) = bh_status B m \<and>
          bh_fields B (bh_write_content B m d) = bh_fields B m \<and>
          bh_content B (bh_write_content B m d) = bh_content B m @ d)"

text \<open>Encoding a message and reading it back keeps its status, its fields and its content.\<close>

definition bhttp_roundtrip :: "'m bhttp \<Rightarrow> bool" where
  "bhttp_roundtrip B \<longleftrightarrow>
     (\<forall>m. snd (bh_write B m) \<longrightarrow>
        (\<exists>m'. bh_read B (concat (fst (bh_write B m))) = Some m' \<and>
           bh_status B m' = bh_status B m \<and> bh_fields B m' = bh_fields B m \<and>
           bh_content B m' = bh_content B m))"

section \<open>\<open>serde_json\<close>\<close>

text \<open>
  \<open>deserialize_seq\<close> hands its visitor a \<open>SeqAccess\<close>, given by the answers of its
  \<open>next_element\<close> calls: \<open>Elem\<close> for \<open>Ok(Some(_))\<close>, \<open>Bad\<close> for \<open>Err\<close>, the end of the list for
  \<open>Ok(None)\<close>.  The list is finite because every element takes at least one byte of the
  input.  \<open>None\<close> is an error before the visitor runs, \<open>json_seq_end\<close> says whether the closing
  bracket was found after the visitor returned.
\<close>

datatype json_step = Elem | Bad

record json_api =
  json_seq :: "bytes \<Rightarrow> json_step list option"
  json_seq_end :: "bytes \<Rightarrow> bool"

text \<open>
  An array of \<open>n\<close> elements takes at least \<open>2 n + 1\<close> bytes: the brackets, the elements and the commas between
  them.  (An array whose bracket is missing or whose element is bad is an error of the whole.)
\<close>

definition json_elements :: "json_api \<Rightarrow> bool" where
  "json_elements J \<longleftrightarrow>
     (\<forall>body seq. json_seq J body = Some seq \<longrightarrow> json_seq_end J body \<longrightarrow> Bad \<notin> set seq \<longrightarrow> seq \<noteq> [] \<longrightarrow>
        2 * length seq + 1 \<le> length body)"

section \<open>\<open>http-body-util\<close>, \<open>tokio\<close> and the network\<close>

datatype collect_error = LengthLimit | ReadError

record runtime =
  limited_collect :: "body \<Rightarrow> nat \<Rightarrow> (collect_error + bytes) fut"
  network :: "up_request \<Rightarrow> (unit + up_response) fut"

text \<open>The data frames of a body in order; \<open>None\<close> when it breaks or stalls.\<close>

fun body_data :: "body \<Rightarrow> bytes option" where
  "body_data (Eof d) = Some []"
| "body_data Stalled = None"
| "body_data (Next d (Data x) b) = map_option (\<lambda>y. x @ y) (body_data b)"
| "body_data (Next d (Trailers _) b) = body_data b"
| "body_data (Next d Broken b) = None"

text \<open>
  \<open>Limited\<close> and \<open>collect\<close>: a body that ends within the limit is returned whole, one that
  exceeds it is a \<open>LengthLimitError\<close>, and what is returned never exceeds the limit.
\<close>

definition limited_spec :: "runtime \<Rightarrow> bool" where
  "limited_spec R \<longleftrightarrow>
     (\<forall>b cap t bs. limited_collect R b cap = Ready t (Inr bs) \<longrightarrow>
        body_data b = Some bs \<and> length bs \<le> cap) \<and>
     (\<forall>b cap bs. body_data b = Some bs \<longrightarrow> length bs \<le> cap \<longrightarrow>
        (\<exists>t. limited_collect R b cap = Ready t (Inr bs))) \<and>
     (\<forall>b cap bs. body_data b = Some bs \<longrightarrow> cap < length bs \<longrightarrow>
        (\<exists>t. limited_collect R b cap = Ready t (Inl LengthLimit)))"

text \<open>
  \<open>tokio::time::timeout\<close>: the value of a future that is ready before the deadline, \<open>None\<close>
  when the deadline comes first.
\<close>

record 'r tokio =
  timeout :: "nat \<Rightarrow> 'r fut \<Rightarrow> 'r option fut"

definition timeout_spec :: "'r tokio \<Rightarrow> bool" where
  "timeout_spec T \<longleftrightarrow>
     (\<forall>d t x. t < d \<longrightarrow> timeout T d (Ready t x) = Ready t (Some x)) \<and>
     (\<forall>d t x. d < t \<longrightarrow> timeout T d (Ready t x) = Ready d None) \<and>
     (\<forall>d x. timeout T d (Ready d x) = Ready d (Some x) \<or> timeout T d (Ready d x) = Ready d None) \<and>
     (\<forall>d. timeout T d Never = Ready d None)"

section \<open>Effects\<close>

text \<open>
  A handler is an \<open>async\<close> computation that may send requests to the upstream: the requests sent,
  in order, and its completion.  \<open>io_try\<close> is \<open>.await\<close> followed by \<open>?\<close>: the continuation runs, and
  its requests are sent, only when the first part completes with \<open>Ok\<close>.
\<close>

type_synonym 'a io = "up_request list \<times> 'a fut"

definition io_fut :: "'a fut \<Rightarrow> 'a io" where
  "io_fut f = ([], f)"

definition io_ret :: "'a \<Rightarrow> 'a io" where
  "io_ret x = ([], Ready 0 x)"

fun io_bind :: "'a io \<Rightarrow> ('a \<Rightarrow> 'b io) \<Rightarrow> 'b io" where
  "io_bind (es, Never) f = (es, Never)"
| "io_bind (es, Ready t x) f = (es @ fst (f x), await (Ready t x) (\<lambda>x. snd (f x)))"

definition io_try :: "('e + 'a) io \<Rightarrow> ('a \<Rightarrow> ('e + 'b) io) \<Rightarrow> ('e + 'b) io" where
  "io_try m f = io_bind m (\<lambda>r. case r of Inl e \<Rightarrow> io_ret (Inl e) | Inr a \<Rightarrow> f a)"

definition io_map :: "('a \<Rightarrow> 'b) \<Rightarrow> 'a io \<Rightarrow> 'b io" where
  "io_map g m = io_bind m (\<lambda>x. io_ret (g x))"

definition sends :: "'a io \<Rightarrow> up_request list" where
  "sends m = fst m"

text \<open>The outcome of a computation that completes.\<close>

definition outcome :: "'a io \<Rightarrow> 'a option" where
  "outcome m = (case snd m of Never \<Rightarrow> None | Ready t x \<Rightarrow> Some x)"

lemma outcome_Some: "outcome m = Some x \<longleftrightarrow> (\<exists>t. snd m = Ready t x)"
  by (cases "snd m") (auto simp: outcome_def)

lemma io_simps [simp]:
  "outcome (io_ret x) = Some x" "sends (io_ret x) = []" "sends (io_fut f) = []"
  "outcome (io_fut f) = (case f of Never \<Rightarrow> None | Ready t x \<Rightarrow> Some x)"
  by (simp_all add: outcome_def io_ret_def io_fut_def sends_def split: fut.splits)

lemma outcome_bind: "outcome (io_bind m f) = Option.bind (outcome m) (\<lambda>x. outcome (f x))"
  by (cases "(m, f)" rule: io_bind.cases) (auto simp: outcome_def split: fut.splits)

lemma sends_bind:
  "sends (io_bind m f) = sends m @ (case outcome m of None \<Rightarrow> [] | Some x \<Rightarrow> sends (f x))"
  by (cases "(m, f)" rule: io_bind.cases) (auto simp: outcome_def sends_def)

lemma outcome_try:
  "outcome (io_try m f) =
     (case outcome m of None \<Rightarrow> None | Some (Inl e) \<Rightarrow> Some (Inl e) | Some (Inr a) \<Rightarrow> outcome (f a))"
  by (auto simp: io_try_def outcome_bind split: option.splits sum.splits)

lemma sends_try:
  "sends (io_try m f) = sends m @ (case outcome m of Some (Inr a) \<Rightarrow> sends (f a) | _ \<Rightarrow> [])"
  by (auto simp: io_try_def sends_bind split: option.splits sum.splits)

lemma outcome_map [simp]: "outcome (io_map g m) = map_option g (outcome m)"
  by (cases "outcome m") (simp_all add: io_map_def outcome_bind)

lemma sends_map [simp]: "sends (io_map g m) = sends m"
  by (auto simp: io_map_def sends_bind split: option.splits)

lemmas io_laws = outcome_try sends_try outcome_bind sends_bind

section \<open>JSON values\<close>

text \<open>The values the sidecar serialises, which have strings and objects only.\<close>

datatype json = JString ustr | JObject "(string \<times> json) list"

instance json :: countable
  by countable_datatype

definition json_field :: "string \<Rightarrow> json \<Rightarrow> json option" where
  "json_field name v = (case v of JObject fs \<Rightarrow> map_of fs name | JString _ \<Rightarrow> None)"

section \<open>The dstack guest agent\<close>

text \<open>
  Its calls are awaited without a deadline: each is ready after some time, with \<open>None\<close> for an error, or
  never.  \<open>ds_info_json\<close> and \<open>ds_quote_json\<close> are the \<open>Serialize\<close> instances of the SDK's values.
\<close>

record info_response =
  info_compose_hash :: ustr
  info_app_compose :: ustr

record 'q dstack =
  ds_get_key :: "ustr \<Rightarrow> ustr option \<Rightarrow> ustr option fut"
  ds_info :: "info_response option fut"
  ds_info_json :: "info_response \<Rightarrow> bytes option"
  ds_get_quote :: "bytes \<Rightarrow> 'q option fut"
  ds_quote_json :: "'q \<Rightarrow> json"

end
