(* ===== verification/Envelope.thy ===== *)
theory Envelope
  imports Externals
begin

text \<open>
  \<open>src/src/envelope.rs\<close>: the RFC 9458 request and response encapsulation.  A request body is
  \<open>hdr (7) || enc (32) || ct\<close>; opening it gives the plaintext and a \<open>response_context\<close>, with
  which one response is sealed as \<open>response_nonce || ct || tag\<close>.  The cryptographic crates
  are the parameters \<open>H\<close> (HPKE) and \<open>A\<close> (HKDF and AES-GCM).
\<close>

section \<open>Constants and types\<close>

definition RESPONSE_NONCE_LEN :: nat where "RESPONSE_NONCE_LEN = 32"
definition HDR_LEN :: nat where "HDR_LEN = 7"
definition ENC_LEN :: nat where "ENC_LEN = 32"
definition TAG_LEN :: nat where "TAG_LEN = 16"

definition REQUEST_LABEL :: bytes where "REQUEST_LABEL = ascii ''message/bhttp request''"
definition RESPONSE_LABEL :: bytes where "RESPONSE_LABEL = ascii ''message/bhttp response''"

lemmas envelope_consts = RESPONSE_NONCE_LEN_def HDR_LEN_def ENC_LEN_def TAG_LEN_def

datatype envelope_error = EnvelopeError

record suite =
  hpke_aead :: aead
  gcm :: aead
  hdr :: bytes
  secret_len :: nat

definition ConfidentialSuite :: suite where
  "ConfidentialSuite =
     \<lparr>hpke_aead = AesGcm256, gcm = AesGcm256,
      hdr = [0x00, 0x00, 0x20, 0x00, 0x01, 0x00, 0x02], secret_len = 32\<rparr>"

text \<open>The suite of the RFC 9458 appendix A test.\<close>

definition RfcAppendixA :: suite where
  "RfcAppendixA =
     \<lparr>hpke_aead = AesGcm128, gcm = AesGcm128,
      hdr = [0x01, 0x00, 0x20, 0x00, 0x01, 0x00, 0x01], secret_len = 16\<rparr>"

text \<open>A \<open>SealFn\<close> gets the salt, the secret, the buffer and the offset of the plaintext in it; it
  gives the buffer afterwards and the result.\<close>

type_synonym seal_fn = "bytes \<Rightarrow> bytes \<Rightarrow> bytes \<Rightarrow> nat \<Rightarrow> bytes \<times> (envelope_error + unit)"

record response_context =
  rc_enc :: bytes
  rc_secret :: bytes
  rc_secret_len :: nat
  rc_seal :: seal_fn

section \<open>Operations\<close>

definition public_key :: "'c hpke_api \<Rightarrow> bytes \<Rightarrow> envelope_error + bytes" where
  "public_key H sk_r =
     try_bind (ok_or (hpke_sk_from_bytes H sk_r) EnvelopeError) (\<lambda>sk.
       let pk = hpke_sk_to_pk H sk in if length pk = 32 then Inr pk else Inl EnvelopeError)"

text \<open>\<open>seal_response::<S>\<close>: derive key and nonce, encrypt \<open>buf[offset..]\<close> in place, append the tag.\<close>

definition seal_response :: "aead_api \<Rightarrow> suite \<Rightarrow> seal_fn" where
  "seal_response A S salt secret buf offset =
     (let hk = hkdf_extract A salt secret;
          sealed =
            try_bind (ok_or (hkdf_expand A hk (ascii ''key'') (gcm_key_size A (gcm S))) EnvelopeError) (\<lambda>key.
            try_bind (ok_or (hkdf_expand A hk (ascii ''nonce'') 12) EnvelopeError) (\<lambda>nonce.
            try_bind (ok_or (gcm_new_from_slice A (gcm S) key) EnvelopeError) (\<lambda>cipher.
            try_bind (ok_or (gcm_nonce_try_from A (gcm S) nonce) EnvelopeError) (\<lambda>nonce.
            try_bind (if offset \<le> length buf then Inr (drop offset buf) else Inl EnvelopeError) (\<lambda>plaintext.
            ok_or (gcm_encrypt_detached A (gcm S) cipher nonce [] plaintext) EnvelopeError)))))
      in case sealed of
           Inl e \<Rightarrow> (buf, Inl e)
         | Inr (ct, tag) \<Rightarrow> (take offset buf @ ct @ tag, Inr ()))"

definition seal_buf :: "response_context \<Rightarrow> bytes \<Rightarrow> bytes \<times> (envelope_error + unit)" where
  "seal_buf ctx buf =
     (if length buf < rc_secret_len ctx then (buf, Inl EnvelopeError)
      else
        let response_nonce = take (rc_secret_len ctx) buf;
            salt = replicate (ENC_LEN + 32) 0;
            salt = overwrite salt 0 (rc_enc ctx);
            salt = overwrite salt ENC_LEN response_nonce
        in rc_seal ctx (take (ENC_LEN + rc_secret_len ctx) salt)
             (take (rc_secret_len ctx) (rc_secret ctx)) buf (rc_secret_len ctx))"

text \<open>On error the buffer is wiped: \<open>Vec::zeroize\<close> overwrites it with zeros and empties it.\<close>

definition seal_in_place :: "response_context \<Rightarrow> bytes \<Rightarrow> bytes \<times> (envelope_error + unit)" where
  "seal_in_place ctx buf =
     (case seal_buf ctx buf of
        (buf', Inl e) \<Rightarrow> ([], Inl e)
      | (buf', Inr u) \<Rightarrow> (buf', Inr u))"

definition seal_with_nonce :: "response_context \<Rightarrow> bytes \<Rightarrow> bytes \<Rightarrow> envelope_error + bytes" where
  "seal_with_nonce ctx response_nonce plaintext =
     (if length response_nonce \<noteq> rc_secret_len ctx then Inl EnvelopeError
      else
        case seal_in_place ctx (response_nonce @ plaintext) of
          (out, Inl e) \<Rightarrow> Inl e
        | (out, Inr u) \<Rightarrow> Inr out)"

definition seal :: "response_context \<Rightarrow> bytes \<Rightarrow> bytes \<Rightarrow> envelope_error + bytes" where
  "seal ctx response_nonce plaintext = seal_with_nonce ctx response_nonce plaintext"

definition open_suite ::
  "'c hpke_api \<Rightarrow> aead_api \<Rightarrow> suite \<Rightarrow> bytes \<Rightarrow> bytes \<Rightarrow> envelope_error + bytes \<times> response_context" where
  "open_suite H A S sk_r body =
     (if length body < HDR_LEN + ENC_LEN + TAG_LEN \<or> take HDR_LEN body \<noteq> hdr S
      then Inl EnvelopeError
      else
        let enc_bytes = take ENC_LEN (drop HDR_LEN body);
            ct = drop ENC_LEN (drop HDR_LEN body);
            info = replicate (length REQUEST_LABEL + 1 + HDR_LEN) 0;
            info = overwrite info 0 REQUEST_LABEL;
            info = overwrite info (length REQUEST_LABEL + 1) (hdr S)
        in
          try_bind (ok_or (hpke_sk_from_bytes H sk_r) EnvelopeError) (\<lambda>sk.
          try_bind (ok_or (hpke_enc_from_bytes H enc_bytes) EnvelopeError) (\<lambda>enc.
          try_bind (ok_or (hpke_setup_receiver H (hpke_aead S) sk enc info) EnvelopeError) (\<lambda>ctx.
          try_bind (ok_or (hpke_export H ctx RESPONSE_LABEL (secret_len S)) EnvelopeError) (\<lambda>exported.
          try_bind (ok_or (hpke_open H ctx ct []) EnvelopeError) (\<lambda>plaintext.
          Inr (plaintext,
            \<lparr>rc_enc = overwrite (replicate ENC_LEN 0) 0 enc_bytes,
             rc_secret = overwrite (replicate 32 0) 0 exported,
             rc_secret_len = secret_len S,
             rc_seal = seal_response A S\<rparr>)))))))"

definition open_request ::
  "'c hpke_api \<Rightarrow> aead_api \<Rightarrow> bytes \<Rightarrow> bytes \<Rightarrow> envelope_error + bytes \<times> response_context" where
  "open_request H A sk_r body = open_suite H A ConfidentialSuite sk_r body"

section \<open>Shape of opened requests and sealed responses\<close>

definition hpke_info :: "suite \<Rightarrow> bytes" where
  "hpke_info S = REQUEST_LABEL @ [0] @ hdr S"

lemma info_buffer:
  assumes "length (hdr S) = HDR_LEN"
  shows "overwrite (overwrite (replicate (length REQUEST_LABEL + 1 + HDR_LEN) 0) 0 REQUEST_LABEL)
           (length REQUEST_LABEL + 1) (hdr S) = hpke_info S"
proof -
  have "replicate (length REQUEST_LABEL + 1 + HDR_LEN) (0 :: byte) =
          replicate (length REQUEST_LABEL) 0 @ [0] @ replicate HDR_LEN 0"
    by (simp add: replicate_add replicate_app_Cons_same)
  then show ?thesis using assms by (simp add: overwrite_def hpke_info_def)
qed

text \<open>A response context of a suite: the sizes its fields have by type.\<close>

definition ctx_wf :: "response_context \<Rightarrow> bool" where
  "ctx_wf ctx \<longleftrightarrow> length (rc_enc ctx) = ENC_LEN \<and> length (rc_secret ctx) = 32 \<and> rc_secret_len ctx \<le> 32"

lemma seal_buf_eq:
  assumes "ctx_wf ctx" and "length nonce = rc_secret_len ctx"
  shows "seal_buf ctx (nonce @ pt) =
           rc_seal ctx (rc_enc ctx @ nonce) (take (rc_secret_len ctx) (rc_secret ctx))
             (nonce @ pt) (rc_secret_len ctx)"
  using assms by (simp add: seal_buf_def Let_def ctx_wf_def overwrite_def envelope_consts)

lemma seal_buf_short: "length buf < rc_secret_len ctx \<Longrightarrow> seal_buf ctx buf = (buf, Inl EnvelopeError)"
  by (simp add: seal_buf_def)

lemma seal_in_place_Inr:
  "seal_in_place ctx buf = (out, Inr ()) \<longleftrightarrow> seal_buf ctx buf = (out, Inr ())"
  by (auto simp: seal_in_place_def split: prod.splits sum.splits)

lemma seal_in_place_Inl:
  "seal_in_place ctx buf = (out, Inl e) \<longleftrightarrow> out = [] \<and> (\<exists>b. seal_buf ctx buf = (b, Inl e))"
  by (auto simp: seal_in_place_def split: prod.splits sum.splits)

lemma seal_Inr_iff:
  "seal ctx nonce pt = Inr out \<longleftrightarrow>
     length nonce = rc_secret_len ctx \<and> seal_in_place ctx (nonce @ pt) = (out, Inr ())"
  by (auto simp: seal_def seal_with_nonce_def split: prod.splits sum.splits)

text \<open>The key and the nonce RFC 9458 derives for a response.\<close>

definition response_keys :: "aead_api \<Rightarrow> suite \<Rightarrow> bytes \<Rightarrow> bytes \<Rightarrow> (bytes \<times> bytes) option" where
  "response_keys A S salt secret =
     (case (hkdf_expand A (hkdf_extract A salt secret) (ascii ''key'') (gcm_key_size A (gcm S)),
            hkdf_expand A (hkdf_extract A salt secret) (ascii ''nonce'') 12) of
        (Some k, Some n) \<Rightarrow> Some (k, n) | _ \<Rightarrow> None)"

lemma seal_response_ok:
  assumes "hkdf_total A" and "gcm_correct A (gcm S)" and "gcm_key_size A (gcm S) \<le> 32"
    and "offset \<le> length buf"
  obtains k n ct tag where
    "response_keys A S salt secret = Some (k, n)"
    "seal_response A S salt secret buf offset = (take offset buf @ ct @ tag, Inr ())"
    "length ct = length buf - offset" "length tag = TAG_LEN"
    "gcm_decrypt A (gcm S) k n (ct @ tag) = Some (drop offset buf)"
    "gcm_new_from_slice A (gcm S) k = Some k" "length n = 12"
proof -
  let ?hk = "hkdf_extract A salt secret"
  obtain k where k: "hkdf_expand A ?hk (ascii ''key'') (gcm_key_size A (gcm S)) = Some k"
      "length k = gcm_key_size A (gcm S)"
    using assms(1,3) unfolding hkdf_total_def by blast
  obtain n where n: "hkdf_expand A ?hk (ascii ''nonce'') 12 = Some n" "length n = 12"
    using assms(1) unfolding hkdf_total_def by (meson numeral_le_iff semiring_norm)
  have new: "gcm_new_from_slice A (gcm S) k = Some k" "gcm_nonce_try_from A (gcm S) n = Some n"
    using assms(2) k(2) n(2) unfolding gcm_correct_def by auto
  obtain ct tag where ct: "gcm_encrypt_detached A (gcm S) k n [] (drop offset buf) = Some (ct, tag)"
      "length ct = length (drop offset buf)" "length tag = 16"
      "gcm_decrypt A (gcm S) k n (ct @ tag) = Some (drop offset buf)"
    using assms(2) k(2) n(2) unfolding gcm_correct_def by blast
  show thesis
  proof (rule that)
    show "response_keys A S salt secret = Some (k, n)"
      using k n by (simp add: response_keys_def)
    show "seal_response A S salt secret buf offset = (take offset buf @ ct @ tag, Inr ())"
      using k n new ct assms(4) by (simp add: seal_response_def)
  qed (use ct new n in \<open>simp_all add: envelope_consts\<close>)
qed

lemma open_suite_Inr:
  assumes "open_suite H A S sk body = Inr (pt, ctx)" and "length (hdr S) = HDR_LEN"
  obtains enc ct sk' enc' r x where
    "body = hdr S @ enc @ ct" "length enc = ENC_LEN" "TAG_LEN \<le> length ct"
    "hpke_sk_from_bytes H sk = Some sk'" "hpke_enc_from_bytes H enc = Some enc'"
    "hpke_setup_receiver H (hpke_aead S) sk' enc' (hpke_info S) = Some r"
    "hpke_export H r RESPONSE_LABEL (secret_len S) = Some x"
    "hpke_open H r ct [] = Some pt"
    "ctx = \<lparr>rc_enc = enc, rc_secret = overwrite (replicate 32 0) 0 x,
            rc_secret_len = secret_len S, rc_seal = seal_response A S\<rparr>"
proof -
  let ?enc = "take ENC_LEN (drop HDR_LEN body)" and ?ct = "drop ENC_LEN (drop HDR_LEN body)"
  have len: "HDR_LEN + ENC_LEN + TAG_LEN \<le> length body" and h: "take HDR_LEN body = hdr S"
    using assms(1) by (auto simp: open_suite_def split: if_splits)
  have "body = hdr S @ ?enc @ ?ct" using h by (metis append_take_drop_id)
  moreover have "length ?enc = ENC_LEN" "TAG_LEN \<le> length ?ct" using len by auto
  moreover from this have "overwrite (replicate ENC_LEN 0) 0 ?enc = ?enc"
    by (simp add: overwrite_def)
  ultimately show thesis
    using assms len h info_buffer[OF assms(2)]
    by (auto simp: open_suite_def Let_def try_bind_Inr_iff intro!: that)
qed

lemma hdr_suites [simp]:
  "length (hdr ConfidentialSuite) = HDR_LEN" "length (hdr RfcAppendixA) = HDR_LEN"
  by (simp_all add: ConfidentialSuite_def RfcAppendixA_def envelope_consts)

lemma suite_sel [simp]:
  "hpke_aead ConfidentialSuite = AesGcm256" "gcm ConfidentialSuite = AesGcm256"
  "secret_len ConfidentialSuite = 32"
  by (simp_all add: ConfidentialSuite_def)

end
