(* ===== verification/Instances.thy ===== *)
theory Instances
  imports Externals
begin

text \<open>
  Concrete functions for the parameters of the model, with which the witnesses evaluate it and
  which show that the named assumptions about the external crates can hold.  \<open>demo_hex\<close> is the
  usual hexadecimal codec; the cryptography is a stand-in with the right sizes that satisfies
  the correctness assumptions and has no security.
\<close>

section \<open>Hexadecimal\<close>

definition nibble_char :: "byte \<Rightarrow> char" where
  "nibble_char b = (if b < 10 then char_of (48 + unat b) else char_of (87 + unat b))"

definition nibble_of :: "byte \<Rightarrow> byte option" where
  "nibble_of c =
     (if 48 \<le> c \<and> c \<le> 57 then Some (c - 48)
      else if 97 \<le> c \<and> c \<le> 102 then Some (c - 87)
      else if 65 \<le> c \<and> c \<le> 70 then Some (c - 55)
      else None)"

fun demo_hex_encode :: "bytes \<Rightarrow> string" where
  "demo_hex_encode [] = []"
| "demo_hex_encode (b # bs) = nibble_char (drop_bit 4 b) # nibble_char (b AND 15) # demo_hex_encode bs"

fun demo_hex_decode :: "bytes \<Rightarrow> bytes option" where
  "demo_hex_decode [] = Some []"
| "demo_hex_decode [c] = None"
| "demo_hex_decode (c # d # cs) =
     (case (nibble_of c, nibble_of d) of
        (Some x, Some y) \<Rightarrow> map_option (\<lambda>bs. (push_bit 4 x OR y) # bs) (demo_hex_decode cs)
      | _ \<Rightarrow> None)"

definition demo_hex :: hex_crate where
  "demo_hex =
     \<lparr>hex_encode = demo_hex_encode, hex_decode = demo_hex_decode,
      hex_decode_to_slice = (\<lambda>s n. case demo_hex_decode s of
        Some bs \<Rightarrow> if length bs = n then Some bs else None | None \<Rightarrow> None)\<rparr>"

lemma nibble_roundtrip:
  assumes "b < 16"
  shows "nibble_of (of_nat (of_char (nibble_char b))) = Some b"
proof -
  have b: "unat b < 16" using assms by (simp add: word_less_nat_alt)
  show ?thesis
  proof (cases "b < 10")
    case True
    then have "unat b < 10" by (simp add: word_less_nat_alt)
    then show ?thesis using True
      by (simp add: nibble_char_def nibble_of_def word_le_nat_alt unat_of_nat unat_word_ariths
          word_less_nat_alt take_bit_eq_mod)
  next
    case False
    then have "10 \<le> unat b" by (simp add: word_less_nat_alt)
    then show ?thesis using False b
      by (simp add: nibble_char_def nibble_of_def word_le_nat_alt unat_of_nat unat_word_ariths
          word_less_nat_alt take_bit_eq_mod)
  qed
qed

lemma nibbles_join: "push_bit 4 (drop_bit 4 b) OR (b AND 15) = (b :: byte)"
proof (rule bit_word_eqI)
  fix n assume n: "n < LENGTH(8)"
  have mask: "(15 :: byte) = mask 4" by (simp add: mask_eq_exp_minus_1)
  show "bit (push_bit 4 (drop_bit 4 b) OR (b AND 15)) n = bit b n"
    using n by (simp only: mask) (auto simp: bit_simps)
qed

lemma nibble_lt: "drop_bit 4 b < (16 :: byte)" "b AND 15 < (16 :: byte)"
proof -
  have "unat (drop_bit 4 b) = unat b div 16" by (simp add: drop_bit_eq_div unat_div)
  moreover have "unat b < 256" using unsigned_less[of b] by simp
  ultimately show "drop_bit 4 b < (16 :: byte)" by (simp add: word_less_nat_alt)
  have "b AND 15 \<le> (15 :: byte)" by (rule word_and_le1)
  also have "(15 :: byte) < 16" by simp
  finally show "b AND 15 < (16 :: byte)" .
qed

lemma demo_hex_roundtrip: "hex_roundtrip demo_hex"
proof -
  have "demo_hex_decode (ascii (demo_hex_encode bs)) = Some bs" for bs
    by (induction bs) (simp_all add: ascii_def nibble_roundtrip nibble_lt nibbles_join)
  then show ?thesis by (simp add: hex_roundtrip_def demo_hex_def)
qed

lemma demo_hex_digits: "hex_digits demo_hex"
proof -
  let ?S = "set ''0123456789abcdef''"
  have enum: "list_all (\<lambda>n. char_of (48 + n :: nat) \<in> ?S) [0..<10]"
    "list_all (\<lambda>n. char_of (87 + n :: nat) \<in> ?S) [10..<16]"
    by code_simp+
  have low: "char_of (48 + n :: nat) \<in> ?S" if "n < 10" for n
    using enum(1) that unfolding list_all_iff by (metis atLeastLessThan_iff set_upt zero_le)
  have high: "char_of (87 + n :: nat) \<in> ?S" if "10 \<le> n" "n < 16" for n
    using enum(2) that unfolding list_all_iff by (metis atLeastLessThan_iff set_upt)
  have "nibble_char b \<in> ?S" if "b < 16" for b
    unfolding nibble_char_def using that low[of "unat b"] high[of "unat b"]
    by (cases "b < 10") (simp_all only: if_True if_False word_less_nat_alt unat_numeral not_less simp_thms, simp_all)
  then have "length (demo_hex_encode bs) = 2 * length bs \<and> set (demo_hex_encode bs) \<subseteq> set ''0123456789abcdef''" for bs
    by (induction bs) (simp_all add: nibble_lt)
  then show ?thesis by (simp add: hex_digits_def demo_hex_def)
qed

section \<open>Cryptography\<close>

definition pad :: "nat \<Rightarrow> bytes \<Rightarrow> bytes" where
  "pad n x = take n (x @ replicate n 0)"

lemma length_pad [simp, codec]: "length (pad n x) = n"
  by (simp add: pad_def)

lemma pad_id: "length x = n \<Longrightarrow> pad n x = x"
  by (simp add: pad_def)

definition demo_sig :: sig_api where
  "demo_sig =
     \<lparr>sha256_digest = pad 32, verifying_key = pad 32, to_montgomery = pad 32,
      to_scalar_bytes = pad 32, ed_sign = (\<lambda>seed m. pad 64 m), vk_from_bytes = (\<lambda>_. True),
      ed_verify = (\<lambda>pk m s. s = pad 64 m)\<rparr>"

text \<open>A variant whose signatures determine the message.\<close>

definition demo_sig_binding :: sig_api where
  "demo_sig_binding = demo_sig \<lparr>ed_sign := (\<lambda>seed m. m), ed_verify := (\<lambda>pk m s. s = m)\<rparr>"

lemma demo_sig_laws: "sha256_len demo_sig" "ed_correct demo_sig"
  by (simp_all add: sha256_len_def ed_correct_def demo_sig_def)

lemma demo_sig_binding_laws:
  "sha256_len demo_sig_binding" "ed_binding demo_sig_binding seed m m'"
  by (auto simp: sha256_len_def ed_binding_def demo_sig_def demo_sig_binding_def)

text \<open>HPKE contexts are lists of bytes; sealing appends a constant tag.\<close>

definition demo_hpke :: "bytes hpke_api" where
  "demo_hpke =
     \<lparr>hpke_sk_from_bytes = Some, hpke_sk_to_pk = pad 32, hpke_pk_from_bytes = Some,
      hpke_enc_from_bytes = Some,
      hpke_setup_receiver = (\<lambda>a sk enc info. Some (enc @ info)),
      hpke_export = (\<lambda>c l n. Some (pad n c)),
      hpke_open = (\<lambda>c ct aad. if drop (length ct - 16) ct = replicate 16 7
                              then Some (take (length ct - 16) ct) else None),
      hpke_setup_sender = (\<lambda>a rnd pk info. Some (pad 32 rnd, pad 32 rnd @ info)),
      hpke_seal = (\<lambda>c pt aad. Some (pt @ replicate 16 7))\<rparr>"

lemma demo_hpke_correct: "hpke_correct demo_hpke sk"
  by (simp add: hpke_correct_def demo_hpke_def)

definition demo_aead :: aead_api where
  "demo_aead =
     \<lparr>hkdf_extract = (\<lambda>salt ikm. salt @ ikm), hkdf_expand = (\<lambda>prk info n. Some (pad n (info @ prk))),
      gcm_key_size = (\<lambda>a. case a of AesGcm128 \<Rightarrow> 16 | AesGcm256 \<Rightarrow> 32),
      gcm_new_from_slice = (\<lambda>a. Some), gcm_nonce_try_from = (\<lambda>a. Some),
      gcm_encrypt_detached = (\<lambda>a k n aad pt. Some (pt, replicate 16 9)),
      gcm_decrypt = (\<lambda>a k n ct. if drop (length ct - 16) ct = replicate 16 9
                                then Some (take (length ct - 16) ct) else None)\<rparr>"

lemma demo_aead_laws:
  "hkdf_total demo_aead" "gcm_correct demo_aead a" "gcm_key_size demo_aead a \<le> 32"
  by (auto simp: hkdf_total_def gcm_correct_def demo_aead_def split: aead.splits)

section \<open>HTTP\<close>

text \<open>A URI is assembled without validation beyond a leading slash; \<open>demo_uri\<close> is a parsed base.\<close>

definition demo_uri :: uri where
  "demo_uri = \<lparr>u_scheme = Some (ascii ''http''), u_authority = Some (ascii ''node:8545''),
     u_path = ascii ''/base/'', u_path_and_query = Some (ascii ''/base/'')\<rparr>"

definition demo_http :: http_api where
  "demo_http =
     \<lparr>method_from_bytes = (\<lambda>m. if m = [] then None else Some m),
      header_value_from_bytes = (\<lambda>v. if list_all (\<lambda>b. 32 \<le> b) v then Some v else None),
      header_to_str = (\<lambda>v. if list_all (\<lambda>b. 32 \<le> b \<and> b < 127) v then Some (map unat v) else None),
      path_and_query_try_from = (\<lambda>p. if take 1 p = [0x2F] then Some p else None),
      uri_parse = (\<lambda>s. if s = chars ''http://node:8545/base/'' then Some demo_uri else None),
      uri_from_parts = (\<lambda>s a pq. case pq of
         Some p \<Rightarrow> Some \<lparr>u_scheme = s, u_authority = a, u_path = takeWhile (\<lambda>b. b \<noteq> 0x3F) p,
                         u_path_and_query = Some p\<rparr>
       | None \<Rightarrow> None),
      request_build_ok = (\<lambda>m u hs. True),
      response_build_ok = (\<lambda>s hs. 100 \<le> s \<and> s < 1000)\<rparr>"

lemma demo_http_sel [simp]:
  "request_build_ok demo_http m u hs" "response_build_ok demo_http s hs \<longleftrightarrow> 100 \<le> s \<and> s < 1000"
  by (simp_all add: demo_http_def)

lemma demo_http_builds: "response_builds demo_http"
  by (simp add: response_builds_def)

lemma demo_http_text: "header_text demo_http"
proof -
  have "unat (of_nat (of_char c) :: byte) = of_char c" for c :: char
    by (simp add: unsigned_of_nat take_bit_eq_mod)
  then show ?thesis
    by (auto simp: header_text_def demo_http_def ascii_def chars_def list_all_iff word_le_nat_alt word_less_nat_alt)
qed

fun demo_collect :: "body \<Rightarrow> nat \<Rightarrow> (collect_error + bytes) fut" where
  "demo_collect (Eof d) cap = Ready d (Inr [])"
| "demo_collect Stalled cap = Never"
| "demo_collect (Next d (Data x) b) cap =
     (if cap < length x then Ready d (Inl LengthLimit)
      else await (demo_collect b (cap - length x)) (\<lambda>r. Ready d (map_sum id (append x) r)))"
| "demo_collect (Next d (Trailers _) b) cap = demo_collect b cap"
| "demo_collect (Next d Broken b) cap = Ready d (Inl ReadError)"

text \<open>An upstream that echoes the request body, with headers the sidecar has to handle.\<close>

definition demo_network :: "up_request \<Rightarrow> (unit + up_response) fut" where
  "demo_network r = Ready 5 (Inr
     \<lparr>ur_status = 200,
      ur_headers = [(''content-type'', ascii ''application/json''), (''connection'', ascii ''close''),
                    (''content-encoding'', ascii ''gzip'')],
      ur_size_lower = length (up_body r), ur_body = Next 1 (Data (up_body r)) (Eof 1)\<rparr>)"

definition demo_runtime :: runtime where
  "demo_runtime = \<lparr>limited_collect = demo_collect, network = demo_network\<rparr>"

lemma map_sum_Inr_iff: "map_sum f g r = Inr z \<longleftrightarrow> (\<exists>y. r = Inr y \<and> z = g y)"
  by (cases r) auto

lemma demo_collect_spec:
  "demo_collect b cap = Ready t (Inr bs) \<Longrightarrow> body_data b = Some bs \<and> length bs \<le> cap"
  "body_data b = Some bs \<Longrightarrow> length bs \<le> cap \<Longrightarrow> \<exists>t. demo_collect b cap = Ready t (Inr bs)"
  "body_data b = Some bs \<Longrightarrow> cap < length bs \<Longrightarrow> \<exists>t. demo_collect b cap = Ready t (Inl LengthLimit)"
proof -
  show "demo_collect b cap = Ready t (Inr bs) \<Longrightarrow> body_data b = Some bs \<and> length bs \<le> cap"
    by (induction b cap arbitrary: t bs rule: demo_collect.induct)
       (force simp: await_Ready_iff map_sum_Inr_iff split: if_splits)+
  show "body_data b = Some bs \<Longrightarrow> length bs \<le> cap \<Longrightarrow> \<exists>t. demo_collect b cap = Ready t (Inr bs)"
    by (induction b cap arbitrary: bs rule: demo_collect.induct)
       (force simp: await_Ready_iff split: if_splits)+
  show "body_data b = Some bs \<Longrightarrow> cap < length bs \<Longrightarrow> \<exists>t. demo_collect b cap = Ready t (Inl LengthLimit)"
    by (induction b cap arbitrary: bs rule: demo_collect.induct)
       (force simp: await_Ready_iff split: if_splits)+
qed

lemma demo_runtime_spec: "limited_spec demo_runtime"
  using demo_collect_spec by (simp add: limited_spec_def demo_runtime_def)

fun demo_timeout :: "nat \<Rightarrow> 'r fut \<Rightarrow> 'r option fut" where
  "demo_timeout d Never = Ready d None"
| "demo_timeout d (Ready t x) = (if t \<le> d then Ready t (Some x) else Ready d None)"

lemma demo_timeout_spec: "timeout_spec \<lparr>timeout = demo_timeout\<rparr>"
  by (simp add: timeout_spec_def)

end
