(* ===== verification/Signing.thy ===== *)
theory Signing
  imports Envelope Instances
begin

text \<open>
  \<open>src/src/signing.rs\<close> and \<open>src/src/util.rs\<close>: chain id validation, the signing state with the
  X25519 key derived from the signing key, the canonical 104-byte pre-image and the signature
  over it.  Parameters: \<open>X\<close> the \<open>hex\<close> crate, \<open>G\<close> SHA-256 and Ed25519, \<open>H\<close> HPKE, \<open>A\<close> HKDF and
  AES-GCM.  The system clock is given by its reading in nanoseconds relative to the Unix epoch.
\<close>

section \<open>\<open>util.rs\<close>\<close>

definition prefixed_hex :: "hex_crate \<Rightarrow> bytes \<Rightarrow> string" where
  "prefixed_hex X bs = ''0x'' @ hex_encode X bs"

section \<open>Constants, errors, chain ids\<close>

definition PRE_IMAGE_LEN :: nat where "PRE_IMAGE_LEN = 104"
definition REQ_HASH_OFFSET :: nat where "REQ_HASH_OFFSET = 32"
definition RESP_HASH_OFFSET :: nat where "RESP_HASH_OFFSET = 64"
definition TIMESTAMP_OFFSET :: nat where "TIMESTAMP_OFFSET = 96"
definition CHAIN_ID_MAX_LEN :: nat where "CHAIN_ID_MAX_LEN = 64"
definition SECRET_KEY_LENGTH :: nat where "SECRET_KEY_LENGTH = 32"

lemmas signing_consts = PRE_IMAGE_LEN_def REQ_HASH_OFFSET_def RESP_HASH_OFFSET_def
  TIMESTAMP_OFFSET_def CHAIN_ID_MAX_LEN_def SECRET_KEY_LENGTH_def

datatype signing_error =
  ChainIdEmpty | ChainIdTooLong nat | ChainIdBadChar nat
| KemKeyMismatch | DstackKeyLength nat | ClockBeforeEpoch | ClockOverflow

definition validate_chain_id :: "ustr \<Rightarrow> signing_error + ustr" where
  "validate_chain_id s =
     (let s = trim s in
      if s = [] then Inl ChainIdEmpty
      else if CHAIN_ID_MAX_LEN < length (utf8 s) then Inl (ChainIdTooLong (length (utf8 s)))
      else case find (\<lambda>c. \<not> is_ascii_graphic c) s of
             Some c \<Rightarrow> Inl (ChainIdBadChar c)
           | None \<Rightarrow> Inr s)"

lemma validate_chain_id_iff:
  "validate_chain_id s = Inr t \<longleftrightarrow>
     t = trim s \<and> t \<noteq> [] \<and> length (utf8 t) \<le> 64 \<and> list_all is_ascii_graphic t"
  by (auto simp: validate_chain_id_def Let_def signing_consts find_None_iff find_Some_iff
      list_all_iff split: option.splits if_splits dest: nth_mem)

section \<open>State\<close>

record signing_state =
  signing_key :: bytes
  kem_secret :: bytes
  chain_id :: ustr
  chain_id_hash :: bytes
  pubkey_hex :: string

record signed_response =
  signature :: bytes
  timestamp_ms :: u64
  pubkey :: bytes
  signed_pubkey_hex :: string

definition signature_hex :: "hex_crate \<Rightarrow> signed_response \<Rightarrow> string" where
  "signature_hex X s = prefixed_hex X (signature s)"

section \<open>Operations\<close>

definition sha256 :: "sig_api \<Rightarrow> bytes \<Rightarrow> bytes" where
  "sha256 G bs = sha256_digest G bs"

definition derive_kem_secret :: "sig_api \<Rightarrow> bytes \<Rightarrow> bytes" where
  "derive_kem_secret G key =
     (let sk = to_scalar_bytes G key;
          sk = sk[0 := sk ! 0 AND 248];
          sk = sk[31 := sk ! 31 AND 127];
          sk = sk[31 := sk ! 31 OR 64]
      in sk)"

definition check_kem_key :: "'c hpke_api \<Rightarrow> bytes \<Rightarrow> bytes \<Rightarrow> signing_error + unit" where
  "check_kem_key H kem expected_pk =
     (case public_key H kem of
        Inr pk \<Rightarrow> if pk = expected_pk then Inr () else Inl KemKeyMismatch
      | Inl _ \<Rightarrow> Inl KemKeyMismatch)"

definition from_seed_ref ::
  "hex_crate \<Rightarrow> sig_api \<Rightarrow> 'c hpke_api \<Rightarrow> bytes \<Rightarrow> ustr \<Rightarrow> signing_error + signing_state" where
  "from_seed_ref X G H seed cid =
     (let key = seed;
          kem = derive_kem_secret G key
      in try_bind (check_kem_key H kem (to_montgomery G (verifying_key G key))) (\<lambda>_.
           Inr \<lparr>signing_key = key, kem_secret = kem, chain_id = cid,
                chain_id_hash = sha256 G (utf8 cid),
                pubkey_hex = prefixed_hex X (verifying_key G key)\<rparr>))"

text \<open>\<open>from_seed\<close> also wipes its own copy of the seed, which nothing reads afterwards.\<close>

definition from_seed ::
  "hex_crate \<Rightarrow> sig_api \<Rightarrow> 'c hpke_api \<Rightarrow> bytes \<Rightarrow> ustr \<Rightarrow> signing_error + signing_state" where
  "from_seed X G H seed cid = from_seed_ref X G H seed cid"

definition from_dstack_bytes ::
  "hex_crate \<Rightarrow> sig_api \<Rightarrow> 'c hpke_api \<Rightarrow> bytes \<Rightarrow> ustr \<Rightarrow> signing_error + signing_state" where
  "from_dstack_bytes X G H bs cid =
     (if length bs \<noteq> SECRET_KEY_LENGTH then Inl (DstackKeyLength (length bs))
      else from_seed_ref X G H (overwrite (replicate SECRET_KEY_LENGTH 0) 0 bs) cid)"

definition state_open_request ::
  "'c hpke_api \<Rightarrow> aead_api \<Rightarrow> signing_state \<Rightarrow> bytes \<Rightarrow> envelope_error + bytes \<times> response_context" where
  "state_open_request H A st body = open_request H A (kem_secret st) body"

definition pubkey_bytes :: "sig_api \<Rightarrow> signing_state \<Rightarrow> bytes" where
  "pubkey_bytes G st = verifying_key G (signing_key st)"

definition build_pre_image :: "bytes \<Rightarrow> bytes \<Rightarrow> bytes \<Rightarrow> u64 \<Rightarrow> bytes" where
  "build_pre_image cid_hash request_hash response_hash ts =
     (let buf = replicate PRE_IMAGE_LEN 0;
          buf = overwrite buf 0 cid_hash;
          buf = overwrite buf REQ_HASH_OFFSET request_hash;
          buf = overwrite buf RESP_HASH_OFFSET response_hash;
          buf = overwrite buf TIMESTAMP_OFFSET (to_le_bytes 8 ts)
      in buf)"

definition now_ms :: "int \<Rightarrow> signing_error + u64" where
  "now_ms clock =
     (if clock < 0 then Inl ClockBeforeEpoch
      else ok_or (u64_try_from (nat clock div 1000000)) ClockOverflow)"

definition sign_with_timestamp ::
  "sig_api \<Rightarrow> signing_state \<Rightarrow> bytes \<Rightarrow> bytes \<Rightarrow> u64 \<Rightarrow> signed_response" where
  "sign_with_timestamp G st request_body response_body ts =
     (let req_hash = sha256 G request_body;
          resp_hash = sha256 G response_body;
          pre_image = build_pre_image (chain_id_hash st) req_hash resp_hash ts
      in \<lparr>signature = ed_sign G (signing_key st) pre_image, timestamp_ms = ts,
          pubkey = pubkey_bytes G st, signed_pubkey_hex = pubkey_hex st\<rparr>)"

definition sign ::
  "sig_api \<Rightarrow> signing_state \<Rightarrow> int \<Rightarrow> bytes \<Rightarrow> bytes \<Rightarrow> signing_error + signed_response" where
  "sign G st clock request_body response_body =
     try_bind (now_ms clock) (\<lambda>ts_ms. Inr (sign_with_timestamp G st request_body response_body ts_ms))"

section \<open>The invariant of a signing state\<close>

definition signing_inv :: "hex_crate \<Rightarrow> sig_api \<Rightarrow> 'c hpke_api \<Rightarrow> signing_state \<Rightarrow> bool" where
  "signing_inv X G H st \<longleftrightarrow>
     kem_secret st = derive_kem_secret G (signing_key st) \<and>
     public_key H (kem_secret st) = Inr (to_montgomery G (pubkey_bytes G st)) \<and>
     chain_id_hash st = sha256 G (utf8 (chain_id st)) \<and>
     pubkey_hex st = prefixed_hex X (pubkey_bytes G st)"

lemma from_seed_ref_Inr:
  "from_seed_ref X G H seed cid = Inr st \<Longrightarrow>
     signing_inv X G H st \<and> signing_key st = seed \<and> chain_id st = cid"
  by (auto simp: from_seed_ref_def Let_def try_bind_Inr_iff check_kem_key_def signing_inv_def
      pubkey_bytes_def split: sum.splits if_splits)

lemma overwrite_all: "length bs = n \<Longrightarrow> overwrite (replicate n x) 0 bs = bs"
  by (simp add: overwrite_def)

section \<open>The pre-image\<close>

definition hashes_ok :: "bytes \<times> bytes \<times> bytes \<times> u64 \<Rightarrow> bool" where
  "hashes_ok p = (case p of (c, q, r, t) \<Rightarrow> length c = 32 \<and> length q = 32 \<and> length r = 32)"

lemma build_pre_image_eq:
  assumes "length c = 32" and "length q = 32" and "length r = 32"
  shows "build_pre_image c q r t = c @ q @ r @ to_le_bytes 8 t"
  using assms by (simp add: build_pre_image_def signing_consts Let_def overwrite_def)

interpretation pre_image: fixed_layout
  "\<lambda>(c, q, r, t). build_pre_image c q r t" hashes_ok PRE_IMAGE_LEN
proof
  fix a :: "bytes \<times> bytes \<times> bytes \<times> u64"
  assume "hashes_ok a"
  then show "length (case a of (c, q, r, t) \<Rightarrow> build_pre_image c q r t) = PRE_IMAGE_LEN"
    by (auto simp: hashes_ok_def build_pre_image_eq signing_consts)
next
  fix a b :: "bytes \<times> bytes \<times> bytes \<times> u64"
  assume wf: "hashes_ok a" "hashes_ok b"
    and eq: "(case a of (c, q, r, t) \<Rightarrow> build_pre_image c q r t) =
             (case b of (c, q, r, t) \<Rightarrow> build_pre_image c q r t)"
  obtain c q r t c' q' r' t' where ab: "a = (c, q, r, t)" "b = (c', q', r', t')"
    by (cases a, cases b)
  then have "c = c' \<and> q = q' \<and> r = r' \<and> to_le_bytes 8 t = to_le_bytes 8 t'"
    using wf eq by (simp add: hashes_ok_def build_pre_image_eq append_eq_parts)
  moreover from this have "t = t'" using to_le_bytes_inj[of 8 t t'] by simp
  ultimately show "a = b" using ab by simp
qed

lemma clamp_bits:
  assumes "length sk = 32"
  defines "sk' \<equiv> (sk[0 := sk ! 0 AND 248])[31 := (sk ! 31 AND 127) OR (64 :: byte)]"
  shows "length sk' = 32" "sk' ! 0 AND 7 = 0" "sk' ! 31 AND 192 = 64"
    "0 < i \<Longrightarrow> i < 31 \<Longrightarrow> sk' ! i = sk ! i"
proof -
  show "length sk' = 32" "0 < i \<Longrightarrow> i < 31 \<Longrightarrow> sk' ! i = sk ! i"
    using assms by simp_all
  have "sk' ! 0 = sk ! 0 AND 248" "sk' ! 31 = (sk ! 31 AND 127) OR 64"
    using assms by simp_all
  then show "sk' ! 0 AND 7 = 0" "sk' ! 31 AND 192 = 64"
    by (simp_all add: and.assoc bit.conj_disj_distrib2)
qed

lemma derive_kem_secret_eq:
  assumes "length (to_scalar_bytes G key) = 32"
  shows "derive_kem_secret G key =
    (let sk = to_scalar_bytes G key in (sk[0 := sk ! 0 AND 248])[31 := (sk ! 31 AND 127) OR 64])"
  using assms by (simp add: derive_kem_secret_def Let_def)

section \<open>A concrete state\<close>

definition demo_state :: signing_state where
  "demo_state =
     \<lparr>signing_key = replicate 32 0, kem_secret = derive_kem_secret demo_sig (replicate 32 0),
      chain_id = [49], chain_id_hash = pad 32 [49], pubkey_hex = prefixed_hex demo_hex (replicate 32 0)\<rparr>"

lemma demo_state_kem: "kem_secret demo_state = replicate 31 0 @ [64]"
  by (simp add: demo_state_def derive_kem_secret_def demo_sig_def pad_def numeral_eq_Suc)

definition demo_hpke_zero :: "bytes hpke_api" where
  "demo_hpke_zero = demo_hpke \<lparr>hpke_sk_to_pk := (\<lambda>sk. pad 32 (butlast sk))\<rparr>"

lemma demo_state_inv:
  "signing_inv demo_hex demo_sig demo_hpke_zero demo_state"
  "signing_inv demo_hex demo_sig_binding demo_hpke_zero demo_state"
  by (simp_all add: signing_inv_def demo_state_kem public_key_def demo_hpke_zero_def demo_hpke_def)
     (simp_all add: demo_state_def derive_kem_secret_def demo_sig_def demo_sig_binding_def sha256_def
        pubkey_bytes_def pad_def utf8_def utf8_char_def numeral_eq_Suc)

section \<open>Properties\<close>

text \<open>
  C8: The canonical pre-image has 104 bytes: the chain id hash at \<open>[0..32]\<close>, the request hash at
  \<open>[32..64]\<close>, the response hash at \<open>[64..96]\<close> and the timestamp in little-endian order at
  \<open>[96..104]\<close>, and none of the four slice copies can panic.
\<close>
theorem build_pre_image_layout:
  assumes "length c = 32" and "length q = 32" and "length r = 32"
  shows "length (build_pre_image c q r t) = PRE_IMAGE_LEN
    \<and> slice 0 REQ_HASH_OFFSET (build_pre_image c q r t) = c
    \<and> slice REQ_HASH_OFFSET RESP_HASH_OFFSET (build_pre_image c q r t) = q
    \<and> slice RESP_HASH_OFFSET TIMESTAMP_OFFSET (build_pre_image c q r t) = r
    \<and> slice TIMESTAMP_OFFSET PRE_IMAGE_LEN (build_pre_image c q r t) = to_le_bytes 8 t
    \<and> (\<forall>buf :: bytes. length buf = PRE_IMAGE_LEN \<longrightarrow>
         copy_ok buf 0 REQ_HASH_OFFSET c \<and> copy_ok buf REQ_HASH_OFFSET RESP_HASH_OFFSET q \<and>
         copy_ok buf RESP_HASH_OFFSET TIMESTAMP_OFFSET r \<and>
         copy_ok buf TIMESTAMP_OFFSET PRE_IMAGE_LEN (to_le_bytes 8 t))"
  using assms by (simp add: build_pre_image_eq slice_def copy_ok_def signing_consts)

theorem build_pre_image_layout_witness:
  "slice 96 104 (build_pre_image (replicate 32 0xcc) (replicate 32 0xaa) (replicate 32 0xbb) 0x9988776655443322)
     = [0x22, 0x33, 0x44, 0x55, 0x66, 0x77, 0x88, 0x99]"
proof -
  have bytes: "to_le_bytes 8 (0x9988776655443322 :: u64) = [0x22, 0x33, 0x44, 0x55, 0x66, 0x77, 0x88, 0x99]"
    by (code_simp)
  show ?thesis
    using build_pre_image_layout[of "replicate 32 0xcc" "replicate 32 0xaa" "replicate 32 0xbb" "0x9988776655443322"]
    by (simp add: signing_consts bytes)
qed

text \<open>
  C15: A signature made for one call verifies for that call only.  If the signature of a
  request and a response under a chain id and timestamp also verifies against the pre-image a
  verifier rebuilds from other values, then, unless SHA-256 collides or the Ed25519 signature is
  valid for two messages, the chain id, both bodies and the timestamp are the signed ones.  So a
  tampered body, another chain id or another timestamp is rejected.
\<close>
theorem signature_binds_call:
  assumes inv: "signing_inv X G H st" and len: "sha256_len G"
    and verifies: "ed_verify G (pubkey_bytes G st)
          (build_pre_image (sha256 G (utf8 cid)) (sha256 G req') (sha256 G resp') ts')
          (signature (sign_with_timestamp G st req resp ts))"
    and bind: "ed_binding G (signing_key st)
          (build_pre_image (chain_id_hash st) (sha256 G req) (sha256 G resp) ts)
          (build_pre_image (sha256 G (utf8 cid)) (sha256 G req') (sha256 G resp') ts')"
    and nocol: "no_collision G (utf8 cid) (utf8 (chain_id st))" "no_collision G req' req"
      "no_collision G resp' resp"
  shows "utf8 cid = utf8 (chain_id st) \<and> req' = req \<and> resp' = resp \<and> ts' = ts"
proof -
  let ?a = "(chain_id_hash st, sha256 G req, sha256 G resp, ts)"
  let ?b = "(sha256 G (utf8 cid), sha256 G req', sha256 G resp', ts')"
  have "?b = ?a"
    using inv len verifies bind
    by (intro pre_image.tag_binds[where accepts = "ed_verify G (pubkey_bytes G st)"
          and tag = "ed_sign G (signing_key st)"])
      (simp_all add: hashes_ok_def signing_inv_def sha256_len_def sha256_def ed_binding_def
        pubkey_bytes_def sign_with_timestamp_def Let_def)
  then show ?thesis
    using inv nocol by (auto simp: signing_inv_def no_collision_def sha256_def)
qed

theorem signature_binds_call_witness:
  "utf8 [49] = utf8 (chain_id demo_state) \<and> [1] = [1 :: byte] \<and> [2] = [2 :: byte] \<and> 7 = (7 :: u64)"
proof (rule signature_binds_call)
  show "signing_inv demo_hex demo_sig_binding demo_hpke_zero demo_state" by (rule demo_state_inv)
  show "sha256_len demo_sig_binding" by (rule demo_sig_binding_laws)
  show "ed_verify demo_sig_binding (pubkey_bytes demo_sig_binding demo_state)
          (build_pre_image (sha256 demo_sig_binding (utf8 [49])) (sha256 demo_sig_binding [1])
             (sha256 demo_sig_binding [2]) 7)
          (signature (sign_with_timestamp demo_sig_binding demo_state [1] [2] 7))"
    using demo_state_inv(2)
    by (simp add: sign_with_timestamp_def Let_def demo_sig_binding_def demo_state_def sha256_def
        demo_sig_def utf8_def utf8_char_def)
qed (simp_all add: demo_sig_binding_laws no_collision_def demo_state_def)


text \<open>
  C33: \<open>from_dstack_bytes\<close> accepts key material of exactly 32 bytes, with the length in the error
  otherwise, and the state it builds satisfies the signing invariant: the X25519 secret is the
  clamped scalar of the signing key and its public key is the Montgomery form of the attested
  Ed25519 key, and the cached chain id hash and public key text are those of the state.  It fails
  for 32 bytes only when the X25519 check fails.
\<close>
theorem from_dstack_bytes_invariant:
  "case from_dstack_bytes X G H bs cid of
     Inr st \<Rightarrow> length bs = 32 \<and> signing_key st = bs \<and> chain_id st = cid \<and> signing_inv X G H st
   | Inl e \<Rightarrow> (if length bs = 32
        then e = KemKeyMismatch \<and>
          public_key H (derive_kem_secret G bs) \<noteq> Inr (to_montgomery G (verifying_key G bs))
        else e = DstackKeyLength (length bs))"
proof (cases "length bs = 32")
  case True
  then have eq: "from_dstack_bytes X G H bs cid = from_seed_ref X G H bs cid"
    by (simp add: from_dstack_bytes_def signing_consts overwrite_all)
  show ?thesis
  proof (cases "from_seed_ref X G H bs cid")
    case (Inr st)
    then show ?thesis using True eq from_seed_ref_Inr[OF Inr] by simp
  next
    case (Inl e)
    then show ?thesis using True eq
      by (auto simp: from_seed_ref_def Let_def try_bind_Inl_iff check_kem_key_def
          split: sum.splits if_splits)
  qed
qed (simp add: from_dstack_bytes_def signing_consts)

text \<open>
  C34: The derived X25519 secret is a clamped scalar: 32 bytes, the low three bits of the first byte
  clear, the top bit of the last byte clear and its second bit set, every other byte that of the
  Ed25519 scalar; clamping is idempotent.
\<close>
theorem derive_kem_secret_clamped:
  assumes "length (to_scalar_bytes G key) = 32"
  shows "length (derive_kem_secret G key) = 32
    \<and> derive_kem_secret G key ! 0 AND 7 = 0
    \<and> derive_kem_secret G key ! 31 AND 192 = 64
    \<and> derive_kem_secret G key ! 0 AND 248 = to_scalar_bytes G key ! 0 AND 248
    \<and> derive_kem_secret G key ! 31 AND 63 = to_scalar_bytes G key ! 31 AND 63
    \<and> (\<forall>i. 0 < i \<and> i < 31 \<longrightarrow> derive_kem_secret G key ! i = to_scalar_bytes G key ! i)
    \<and> derive_kem_secret (G\<lparr>to_scalar_bytes := \<lambda>_. derive_kem_secret G key\<rparr>) key = derive_kem_secret G key"
proof -
  let ?sk = "to_scalar_bytes G key"
  let ?out = "(?sk[0 := ?sk ! 0 AND 248])[31 := (?sk ! 31 AND 127) OR (64 :: byte)]"
  have eq: "derive_kem_secret G key = ?out"
    using derive_kem_secret_eq[OF assms] by (simp add: Let_def)
  have heads: "?out ! 0 = ?sk ! 0 AND 248" "?out ! 31 = (?sk ! 31 AND 127) OR 64"
    using assms by simp_all
  have low: "?out ! 0 AND 248 = ?sk ! 0 AND 248" "?out ! 31 AND 63 = ?sk ! 31 AND 63"
    unfolding heads by (simp_all add: and.assoc bit.conj_disj_distrib2)
  have again: "(?out ! 31 AND 127) OR 64 = ?out ! 31"
    unfolding heads by (simp add: bit.conj_disj_distrib2 and.assoc)
  have "derive_kem_secret (G\<lparr>to_scalar_bytes := \<lambda>_. ?out\<rparr>) key = ?out"
    using assms low(1) again heads(1)
    by (simp add: derive_kem_secret_def Let_def list_update_swap)
  then show ?thesis
    using clamp_bits[OF assms] low assms unfolding eq by simp
qed

theorem derive_kem_secret_clamped_witness:
  "derive_kem_secret demo_sig (replicate 32 255) = 248 # replicate 30 255 @ [127]
   \<and> derive_kem_secret demo_sig (replicate 32 255) ! 31 AND 192 = 64"
  using derive_kem_secret_clamped[of demo_sig "replicate 32 255"]
  by (simp add: demo_sig_def derive_kem_secret_def pad_def numeral_eq_Suc)

text \<open>
  C35: A chain id is accepted exactly when, after trimming surrounding Unicode whitespace, it is
  non-empty, has at most 64 bytes in UTF-8 and only printable ASCII characters; the accepted value
  is the trimmed text, which is accepted again unchanged, holds no whitespace and has at most 64
  characters.  Two accepted ids with the same UTF-8 bytes are equal, so different ids give
  different hash inputs.
\<close>
theorem validate_chain_id_spec:
  "(validate_chain_id s = Inr t \<longleftrightarrow>
      t = trim s \<and> t \<noteq> [] \<and> length (utf8 t) \<le> 64 \<and> list_all is_ascii_graphic t)
   \<and> (validate_chain_id s = Inr t \<longrightarrow>
      validate_chain_id t = Inr t \<and> length t \<le> 64 \<and> list_all (\<lambda>c. \<not> is_whitespace c) t)
   \<and> (validate_chain_id s = Inr t \<and> validate_chain_id s' = Inr t' \<and> utf8 t = utf8 t' \<longrightarrow> t = t')"
proof -
  note iff = validate_chain_id_iff
  have "validate_chain_id s = Inr t \<Longrightarrow>
      validate_chain_id t = Inr t \<and> length t \<le> 64 \<and> list_all (\<lambda>c. \<not> is_whitespace c) t"
    unfolding iff by (auto simp: utf8_graphic list_all_iff graphic_not_whitespace)
  then show ?thesis using iff utf8_nat_inj by blast
qed

theorem validate_chain_id_spec_witness:
  "validate_chain_id (chars '' 137 '') = Inr (chars ''137'')
   \<and> validate_chain_id (chars ''137'') = Inr (chars ''137'')"
proof -
  have "validate_chain_id (chars '' 137 '') = Inr (chars ''137'')" by code_simp
  then show ?thesis
    using validate_chain_id_spec[of "chars '' 137 ''" "chars ''137''" "[]" "[]"] by blast
qed

text \<open>
  Which clocks are refused: those before the Unix epoch, and those whose milliseconds do not fit 64 bits.
\<close>
theorem sign_clock_spec:
  "sign G st clock req resp =
     (if clock < 0 then Inl ClockBeforeEpoch
      else if 2 ^ 64 \<le> nat clock div 1000000 then Inl ClockOverflow
      else Inr (sign_with_timestamp G st req resp (of_nat (nat clock div 1000000))))"
  by (simp add: sign_def now_ms_def u64_try_from_def)

lemma signed_millis:
  assumes "sign G st clock req resp = Inr s"
  shows "0 \<le> clock \<and> int (unat (timestamp_ms s)) = clock div 1000000"
proof -
  have ok: "0 \<le> clock" "nat clock div 1000000 < 2 ^ 64"
    and s: "s = sign_with_timestamp G st req resp (of_nat (nat clock div 1000000))"
    using assms by (auto simp: sign_clock_spec split: if_splits)
  have "unat (of_nat (nat clock div 1000000) :: u64) = nat clock div 1000000"
    using ok(2) by (simp add: unat_of_nat take_bit_eq_mod)
  then show ?thesis using ok(1) by (simp add: s sign_with_timestamp_def Let_def zdiv_int)
qed

text \<open>
  C36: No timestamp is made up.  A clock before the Unix epoch, or so far ahead that its milliseconds do not
  fit 64 bits, is an error instead of a signature; up to the year 2554 (\<open>2^64\<close> nanoseconds after the epoch) a usable
  clock is signed; and whenever there is a signature, it is the key's signature over the layout of chain
  id, request, response and the emitted timestamp, which is the clock's milliseconds exactly, not truncated.
\<close>
theorem sign_timestamps:
  "(clock < 0 \<longrightarrow> sign G st clock req resp = Inl ClockBeforeEpoch)
   \<and> (2 ^ 64 * 1000000 \<le> clock \<longrightarrow> sign G st clock req resp = Inl ClockOverflow)
   \<and> (0 \<le> clock \<and> clock < 2 ^ 64 \<longrightarrow> (\<exists>s. sign G st clock req resp = Inr s))
   \<and> (sign G st clock req resp = Inr s \<longrightarrow>
        0 \<le> clock \<and> int (unat (timestamp_ms s)) = clock div 1000000 \<and>
        signature s = ed_sign G (signing_key st)
          (build_pre_image (chain_id_hash st) (sha256 G req) (sha256 G resp) (timestamp_ms s)))"
proof (intro conjI impI)
  show "clock < 0 \<Longrightarrow> sign G st clock req resp = Inl ClockBeforeEpoch" by (simp add: sign_clock_spec)
  show "sign G st clock req resp = Inl ClockOverflow" if "2 ^ 64 * 1000000 \<le> clock"
  proof -
    have "2 ^ 64 * 1000000 \<le> nat clock" using that by simp
    then have "2 ^ 64 \<le> nat clock div 1000000" by (simp add: div_le_mono less_eq_div_iff_mult_less_eq)
    then show ?thesis using that by (simp add: sign_clock_spec)
  qed
  show "\<exists>s. sign G st clock req resp = Inr s" if "0 \<le> clock \<and> clock < 2 ^ 64"
  proof -
    have "nat clock < 2 ^ 64" using that by (simp add: nat_less_iff)
    then have "nat clock div 1000000 < 2 ^ 64" by (rule le_less_trans[OF div_le_dividend])
    then show ?thesis using that by (simp add: sign_clock_spec)
  qed
  assume s: "sign G st clock req resp = Inr s"
  show "0 \<le> clock" and "int (unat (timestamp_ms s)) = clock div 1000000" using signed_millis[OF s] by simp_all
  show "signature s = ed_sign G (signing_key st)
      (build_pre_image (chain_id_hash st) (sha256 G req) (sha256 G resp) (timestamp_ms s))"
    using s by (auto simp: sign_clock_spec sign_with_timestamp_def Let_def split: if_splits)
qed

theorem sign_timestamps_witness:
  "\<exists>s. sign demo_sig demo_state 1700000000000000000 [1] [2] = Inr s
     \<and> int (unat (timestamp_ms s)) = 1700000000000"
proof -
  obtain s where s: "sign demo_sig demo_state 1700000000000000000 [1] [2] = Inr s"
    using sign_timestamps[of 1700000000000000000 demo_sig demo_state "[1]" "[2]"] by auto
  then show ?thesis
    using sign_timestamps[of 1700000000000000000 demo_sig demo_state "[1]" "[2]" s] by auto
qed

end
