(* ===== verification/Proxy.thy ===== *)
theory Proxy
  imports Signing
begin

text \<open>
  \<open>src/src/proxy.rs\<close>: the pass-through pipeline.  Collect the request, send it to the upstream with
  the hop-by-hop headers removed and \<open>Accept-Encoding: identity\<close> forced, collect the response, sign
  both bodies and answer with the upstream's status, headers and body and the three signing headers.
  Parameters: \<open>P\<close> the \<open>http\<close> crate, \<open>R\<close> the runtime (\<open>http-body-util\<close> and the network), \<open>X\<close> and \<open>G\<close>
  as in \<open>Signing\<close>; \<open>clock\<close> is the reading of the system clock when the response is signed.
\<close>

section \<open>The upstream client\<close>

definition MAX_PATH_AND_QUERY :: nat where "MAX_PATH_AND_QUERY = 65535 - 1"

record upstream_client =
  upstream_url :: uri
  max_body_bytes :: "nat option"

datatype client_error = InvalidUpstreamUrl ustr

definition upstream_client_new ::
  "http_api \<Rightarrow> ustr \<Rightarrow> nat option \<Rightarrow> client_error + upstream_client" where
  "upstream_client_new P url cap =
     try_bind (ok_or (uri_parse P url) (InvalidUpstreamUrl url)) (\<lambda>u.
       Inr \<lparr>upstream_url = u, max_body_bytes = cap\<rparr>)"

definition origin_path_and_query :: "http_api \<Rightarrow> upstream_client \<Rightarrow> bytes \<Rightarrow> bytes option" where
  "origin_path_and_query P c path_and_query =
     (let prefix = trim_end_matches 0x2F (u_path (upstream_url c)) in
      if MAX_PATH_AND_QUERY < length prefix + length path_and_query then None
      else path_and_query_try_from P (prefix @ path_and_query))"

definition origin_uri :: "http_api \<Rightarrow> upstream_client \<Rightarrow> bytes \<Rightarrow> uri option" where
  "origin_uri P c path_and_query =
     uri_from_parts P (u_scheme (upstream_url c)) (u_authority (upstream_url c)) (Some path_and_query)"

definition upstream_uri :: "http_api \<Rightarrow> upstream_client \<Rightarrow> request \<Rightarrow> uri option" where
  "upstream_uri P c parts =
     (let path_and_query = (case u_path_and_query (rq_uri parts) of None \<Rightarrow> ascii ''/'' | Some pq \<Rightarrow> pq)
      in Option.bind (origin_path_and_query P c path_and_query) (origin_uri P c))"

section \<open>Headers\<close>

definition is_hop_by_hop :: "string \<Rightarrow> bool" where
  "is_hop_by_hop name \<longleftrightarrow>
     name = ''connection'' \<or> name = ''keep-alive'' \<or> name = ''proxy-authenticate'' \<or>
     name = ''proxy-authorization'' \<or> name = ''te'' \<or> name = ''trailers'' \<or> name = ''trailer'' \<or>
     name = ''transfer-encoding'' \<or> name = ''upgrade'' \<or> name = ''host''"

section \<open>The pipeline\<close>

definition collect_request :: "runtime \<Rightarrow> request \<Rightarrow> nat \<Rightarrow> (response + request \<times> bytes) io" where
  "collect_request R req cap =
     io_map (\<lambda>r. case r of Inl e \<Rightarrow> Inl (bare 413) | Inr bs \<Rightarrow> Inr (req, bs))
       (io_fut (limited_collect R (rq_body req) cap))"

definition send_upstream ::
  "http_api \<Rightarrow> runtime \<Rightarrow> upstream_client \<Rightarrow> request \<Rightarrow> bytes \<Rightarrow> (response + up_response) io" where
  "send_upstream P R c parts request_bytes =
     (case upstream_uri P c parts of
        None \<Rightarrow> io_ret (Inl (bare 500))
      | Some u \<Rightarrow>
          let hs = filter (\<lambda>(name, value). \<not> is_hop_by_hop name \<and> name \<noteq> ''accept-encoding'')
                     (rq_headers parts)
                   @ [(''accept-encoding'', ascii ''identity'')]
          in if request_build_ok P (rq_method parts) u hs
             then let up_req = \<lparr>up_method = rq_method parts, up_uri = u, up_headers = hs,
                                up_body = request_bytes\<rparr>
                  in io_map (map_err (\<lambda>_. bare 502)) ([up_req], network R up_req)
             else io_ret (Inl (bare 500)))"

definition collect_upstream_response ::
  "runtime \<Rightarrow> up_response \<Rightarrow> nat \<Rightarrow> (response + up_response \<times> bytes) io" where
  "collect_upstream_response R up_resp cap =
     io_map (\<lambda>r. case r of Inl e \<Rightarrow> Inl (bare 502) | Inr bs \<Rightarrow> Inr (up_resp, bs))
       (io_fut (limited_collect R (ur_body up_resp) cap))"

definition sign_or_500 ::
  "sig_api \<Rightarrow> signing_state \<Rightarrow> int \<Rightarrow> bytes \<Rightarrow> bytes \<Rightarrow> response + signed_response" where
  "sign_or_500 G signer clock request_bytes response_bytes =
     map_err (\<lambda>_. bare 500) (sign G signer clock request_bytes response_bytes)"

definition build_signed_response ::
  "hex_crate \<Rightarrow> http_api \<Rightarrow> up_response \<Rightarrow> bytes \<Rightarrow> signed_response \<Rightarrow> response" where
  "build_signed_response X P up_parts response_bytes sr =
     (let hs = filter (\<lambda>(name, value). \<not> is_hop_by_hop name \<and> name \<noteq> ''content-encoding'')
                 (ur_headers up_parts)
               @ [(header_name ''vRPC-Signature'', ascii (signature_hex X sr)),
                  (header_name ''vRPC-Timestamp'', ascii (dec (unat (timestamp_ms sr)))),
                  (header_name ''vRPC-Pubkey'', ascii (signed_pubkey_hex sr))]
      in if response_build_ok P (ur_status up_parts) hs
         then \<lparr>rs_status = ur_status up_parts, rs_headers = hs, rs_body = response_bytes\<rparr>
         else bare 500)"

definition run_pipeline ::
  "hex_crate \<Rightarrow> sig_api \<Rightarrow> http_api \<Rightarrow> runtime \<Rightarrow> upstream_client \<Rightarrow> request \<Rightarrow> signing_state \<Rightarrow>
   int \<Rightarrow> nat \<Rightarrow> (response + response) io" where
  "run_pipeline X G P R c req signer clock cap =
     io_try (collect_request R req cap) (\<lambda>(parts, request_bytes).
     io_try (send_upstream P R c parts request_bytes) (\<lambda>up_resp.
     io_try (collect_upstream_response R up_resp cap) (\<lambda>(up_parts, response_bytes).
     io_ret (try_bind (sign_or_500 G signer clock request_bytes response_bytes) (\<lambda>sr.
       Inr (build_signed_response X P up_parts response_bytes sr))))))"

definition forward ::
  "hex_crate \<Rightarrow> sig_api \<Rightarrow> http_api \<Rightarrow> runtime \<Rightarrow> upstream_client \<Rightarrow> request \<Rightarrow> signing_state \<Rightarrow>
   int \<Rightarrow> response io" where
  "forward X G P R c req signer clock =
     (let cap = (case max_body_bytes c of None \<Rightarrow> usize_max | Some n \<Rightarrow> n) in
      io_map (\<lambda>r. case r of Inr resp \<Rightarrow> resp | Inl early \<Rightarrow> early)
        (run_pipeline X G P R c req signer clock cap))"

section \<open>Header filters\<close>

text \<open>
  What the two legs of the proxy rely on: a filter that drops at least the hop-by-hop names
  removes every value of a dropped name and keeps the values of the others in order.
\<close>

locale header_strip =
  fixes drops :: "string \<Rightarrow> bool"
  assumes drops_hop: "is_hop_by_hop n \<Longrightarrow> drops n"
begin

lemma strip_get_all:
  "get_all n (filter (\<lambda>(m, v). \<not> drops m) hs) = (if drops n then [] else get_all n hs)"
  by (induction hs) (auto split: if_splits)

lemma strip_no_hop: "(n, v) \<in> set (filter (\<lambda>(m, v). \<not> drops m) hs) \<Longrightarrow> \<not> is_hop_by_hop n"
  using drops_hop by auto

lemma strip_idem:
  "filter (\<lambda>(m, v). \<not> drops m) (filter (\<lambda>(m, v). \<not> drops m) hs) = filter (\<lambda>(m, v). \<not> drops m) hs"
  by simp

end

interpretation req_strip: header_strip "\<lambda>n. \<not> (\<not> is_hop_by_hop n \<and> n \<noteq> ''accept-encoding'')"
  by unfold_locales simp

interpretation resp_strip: header_strip "\<lambda>n. \<not> (\<not> is_hop_by_hop n \<and> n \<noteq> ''content-encoding'')"
  by unfold_locales simp

lemmas req_strip_get_all = req_strip.strip_get_all[unfolded not_not]
lemmas resp_strip_get_all = resp_strip.strip_get_all[unfolded not_not]

lemma not_hop_names [simp]:
  "\<not> is_hop_by_hop ''accept-encoding''" "\<not> is_hop_by_hop ''content-encoding''"
  "\<not> is_hop_by_hop ''vrpc-signature''" "\<not> is_hop_by_hop ''vrpc-timestamp''"
  "\<not> is_hop_by_hop ''vrpc-pubkey''"
  by (simp_all add: is_hop_by_hop_def)

section \<open>Facts about the pipeline's steps\<close>

lemmas proxy_defs = collect_request_def send_upstream_def collect_upstream_response_def
  sign_or_500_def

lemma outcome_pair: "outcome (es, f) = (case f of Never \<Rightarrow> None | Ready t x \<Rightarrow> Some x)"
  by (simp add: outcome_def)

lemma sends_pair [simp]: "sends (es, f) = es"
  by (simp add: sends_def)

text \<open>The request that goes out, and that nothing else does.\<close>

lemma send_upstream_sends:
  "sends (send_upstream P R c parts bs) \<noteq> [] \<longleftrightarrow>
     (\<exists>r. sends (send_upstream P R c parts bs) = [r])"
  by (auto simp: send_upstream_def Let_def split: option.splits)

lemma send_upstream_request:
  assumes "r \<in> set (sends (send_upstream P R c parts bs))"
  shows "sends (send_upstream P R c parts bs) = [r] \<and> upstream_uri P c parts = Some (up_uri r) \<and>
    up_method r = rq_method parts \<and> up_body r = bs \<and>
    up_headers r = filter (\<lambda>(n, v). \<not> is_hop_by_hop n \<and> n \<noteq> ''accept-encoding'') (rq_headers parts)
      @ [(''accept-encoding'', ascii ''identity'')]"
  using assms by (auto simp: send_upstream_def Let_def split: option.splits if_splits)

lemma send_upstream_ok:
  assumes "outcome (send_upstream P R c parts bs) = Some (Inr u)"
  obtains r t where "sends (send_upstream P R c parts bs) = [r]" "network R r = Ready t (Inr u)"
  using assms
  by (auto simp: send_upstream_def Let_def outcome_pair split: option.splits if_splits fut.splits)

lemma send_upstream_err:
  assumes "outcome (send_upstream P R c parts bs) = Some (Inl e)"
  shows "e = bare 500 \<and> sends (send_upstream P R c parts bs) = [] \<or>
         e = bare 502 \<and> sends (send_upstream P R c parts bs) \<noteq> []"
  using assms
  by (auto simp: send_upstream_def Let_def outcome_pair result_iffs split: option.splits if_splits fut.splits)

lemma collect_request_ok:
  "outcome (collect_request R req cap) = Some (Inr (parts, bs)) \<longleftrightarrow>
     parts = req \<and> (\<exists>t. limited_collect R (rq_body req) cap = Ready t (Inr bs))"
  by (auto simp: collect_request_def split: fut.splits sum.splits)

lemma collect_request_err:
  "outcome (collect_request R req cap) = Some (Inl e) \<longleftrightarrow>
     e = bare 413 \<and> (\<exists>t x. limited_collect R (rq_body req) cap = Ready t (Inl x))"
  by (auto simp: collect_request_def split: fut.splits sum.splits)

lemma collect_upstream_response_ok:
  "outcome (collect_upstream_response R u cap) = Some (Inr (parts, bs)) \<longleftrightarrow>
     parts = u \<and> (\<exists>t. limited_collect R (ur_body u) cap = Ready t (Inr bs))"
  by (auto simp: collect_upstream_response_def split: fut.splits sum.splits)

lemma collect_upstream_response_err:
  "outcome (collect_upstream_response R u cap) = Some (Inl e) \<longleftrightarrow>
     e = bare 502 \<and> (\<exists>t x. limited_collect R (ur_body u) cap = Ready t (Inl x))"
  by (auto simp: collect_upstream_response_def split: fut.splits sum.splits)

lemma collect_sends [simp]:
  "sends (collect_request R req cap) = []" "sends (collect_upstream_response R u cap) = []"
  by (simp_all add: proxy_defs)

definition body_cap :: "upstream_client \<Rightarrow> nat" where
  "body_cap c = (case max_body_bytes c of None \<Rightarrow> usize_max | Some n \<Rightarrow> n)"

lemma outcome_forward:
  "outcome (forward X G P R c req st clock) = Some resp \<longleftrightarrow>
     (outcome (run_pipeline X G P R c req st clock (body_cap c)) = Some (Inr resp) \<or>
      outcome (run_pipeline X G P R c req st clock (body_cap c)) = Some (Inl resp))"
  by (auto simp: forward_def body_cap_def Let_def split: sum.splits) (metis sum.exhaust)

lemma sends_forward:
  "sends (forward X G P R c req st clock) =
     (case limited_collect R (rq_body req) (body_cap c) of
        Ready _ (Inr bs) \<Rightarrow> sends (send_upstream P R c req bs) | _ \<Rightarrow> [])"
  by (auto simp: forward_def body_cap_def Let_def run_pipeline_def io_laws collect_request_def
      split: option.splits sum.splits prod.splits fut.splits)

lemma prefix_of_base:
  "\<exists>k. p = trim_end_matches b p @ replicate k b" "trim_end_matches b p = [] \<or> last (trim_end_matches b p) \<noteq> b"
proof -
  have tw: "takeWhile (\<lambda>x. x = b) (rev p) = replicate (length (takeWhile (\<lambda>x. x = b) (rev p))) b"
    by (rule replicate_length_same[symmetric]) (auto dest: set_takeWhileD)
  have "p = rev (takeWhile (\<lambda>x. x = b) (rev p) @ dropWhile (\<lambda>x. x = b) (rev p))"
    by simp
  also have "\<dots> = trim_end_matches b p @ rev (takeWhile (\<lambda>x. x = b) (rev p))"
    by (simp only: rev_append trim_end_matches_def)
  also have "rev (takeWhile (\<lambda>x. x = b) (rev p)) = replicate (length (takeWhile (\<lambda>x. x = b) (rev p))) b"
    by (metis tw rev_replicate)
  finally show "\<exists>k. p = trim_end_matches b p @ replicate k b" by blast
  show "trim_end_matches b p = [] \<or> last (trim_end_matches b p) \<noteq> b"
    using hd_dropWhile[of "\<lambda>x. x = b" "rev p"]
    by (auto simp: trim_end_matches_def last_rev)
qed

lemma outcome_run_pipeline:
  "outcome (run_pipeline X G P R c req st clock cap) =
     (case limited_collect R (rq_body req) cap of
        Never \<Rightarrow> None
      | Ready _ (Inl _) \<Rightarrow> Some (Inl (bare 413))
      | Ready _ (Inr q) \<Rightarrow>
          (case outcome (send_upstream P R c req q) of
             None \<Rightarrow> None
           | Some (Inl e) \<Rightarrow> Some (Inl e)
           | Some (Inr up) \<Rightarrow>
               (case limited_collect R (ur_body up) cap of
                  Never \<Rightarrow> None
                | Ready _ (Inl _) \<Rightarrow> Some (Inl (bare 502))
                | Ready _ (Inr a) \<Rightarrow>
                    Some (try_bind (sign_or_500 G st clock q a) (\<lambda>sr. Inr (build_signed_response X P up a sr))))))"
  by (simp add: run_pipeline_def io_laws collect_request_def collect_upstream_response_def
      split: fut.splits sum.splits option.splits)

lemma send_upstream_eq:
  assumes "sends (send_upstream P R c parts q) = [r]"
  shows "outcome (send_upstream P R c parts q) =
    (case network R r of Never \<Rightarrow> None | Ready _ x \<Rightarrow> Some (map_err (\<lambda>_. bare 502) x))"
  using assms
  by (auto simp: send_upstream_def Let_def outcome_pair split: option.splits if_splits fut.splits)

lemma send_upstream_none:
  assumes "sends (send_upstream P R c parts q) = []"
  shows "outcome (send_upstream P R c parts q) = Some (Inl (bare 500))"
  using assms
  by (auto simp: send_upstream_def Let_def split: option.splits if_splits)

lemma build_signed_response_structure:
  assumes "build_signed_response X P up a sr = resp" and "resp \<noteq> bare 500"
  shows "rs_status resp = ur_status up \<and> rs_body resp = a
    \<and> (\<forall>n. is_hop_by_hop n \<or> n = ''content-encoding'' \<longrightarrow> get_all n (rs_headers resp) = [])
    \<and> (\<forall>n. \<not> is_hop_by_hop n \<and> n \<noteq> ''content-encoding'' \<and>
          n \<notin> {''vrpc-signature'', ''vrpc-timestamp'', ''vrpc-pubkey''} \<longrightarrow>
         get_all n (rs_headers resp) = get_all n (ur_headers up))
    \<and> get_all ''vrpc-signature'' (rs_headers resp) =
        get_all ''vrpc-signature'' (ur_headers up) @ [ascii (signature_hex X sr)]
    \<and> get_all ''vrpc-timestamp'' (rs_headers resp) =
        get_all ''vrpc-timestamp'' (ur_headers up) @ [ascii (dec (unat (timestamp_ms sr)))]
    \<and> get_all ''vrpc-pubkey'' (rs_headers resp) =
        get_all ''vrpc-pubkey'' (ur_headers up) @ [ascii (signed_pubkey_hex sr)]"
proof -
  have resp: "resp = \<lparr>rs_status = ur_status up,
      rs_headers = filter (\<lambda>(n, v). \<not> is_hop_by_hop n \<and> n \<noteq> ''content-encoding'') (ur_headers up)
        @ [(''vrpc-signature'', ascii (signature_hex X sr)),
           (''vrpc-timestamp'', ascii (dec (unat (timestamp_ms sr)))),
           (''vrpc-pubkey'', ascii (signed_pubkey_hex sr))], rs_body = a\<rparr>"
    using assms by (simp add: build_signed_response_def Let_def split: if_split_asm)
  have not_vrpc: "n \<noteq> ''vrpc-signature'' \<and> n \<noteq> ''vrpc-timestamp'' \<and> n \<noteq> ''vrpc-pubkey''"
    if "is_hop_by_hop n \<or> n = ''content-encoding''" for n
    using that by auto
  show ?thesis
    unfolding resp by (simp add: resp_strip_get_all) (use not_vrpc in blast)
qed

lemma forward_answers:
  assumes "outcome (forward X G P R c req st clock) = Some resp"
  shows "case limited_collect R (rq_body req) (body_cap c) of
      Never \<Rightarrow> False
    | Ready _ (Inl _) \<Rightarrow> resp = bare 413 \<and> sends (forward X G P R c req st clock) = []
    | Ready _ (Inr q) \<Rightarrow>
        (case sends (forward X G P R c req st clock) of
           [] \<Rightarrow> resp = bare 500
         | [r] \<Rightarrow>
             (case network R r of
                Never \<Rightarrow> False
              | Ready _ (Inl _) \<Rightarrow> resp = bare 502
              | Ready _ (Inr up) \<Rightarrow>
                  (case limited_collect R (ur_body up) (body_cap c) of
                     Never \<Rightarrow> False
                   | Ready _ (Inl _) \<Rightarrow> resp = bare 502
                   | Ready _ (Inr a) \<Rightarrow>
                       (case sign G st clock q a of
                          Inl _ \<Rightarrow> resp = bare 500
                        | Inr sr \<Rightarrow> up_body r = q \<and> resp = build_signed_response X P up a sr)))
         | _ \<Rightarrow> False)"
proof (cases "limited_collect R (rq_body req) (body_cap c)")
  case Never
  then show ?thesis using assms by (simp add: outcome_forward outcome_run_pipeline)
next
  case (Ready t x)
  show ?thesis
  proof (cases x)
    case (Inl e)
    then show ?thesis using assms Ready
      by (simp add: outcome_forward outcome_run_pipeline sends_forward)
  next
    case (Inr q)
    have sends: "sends (forward X G P R c req st clock) = sends (send_upstream P R c req q)"
      using Ready Inr by (simp add: sends_forward)
    consider "sends (send_upstream P R c req q) = []"
      | r where "sends (send_upstream P R c req q) = [r]"
      using send_upstream_sends by blast
    then show ?thesis
    proof cases
      case 1
      then show ?thesis using assms Ready Inr sends send_upstream_none[OF 1]
        by (simp add: outcome_forward outcome_run_pipeline)
    next
      case (2 r)
      have "up_body r = q" using send_upstream_request[of r P R c req q] 2 by simp
      then show ?thesis using assms Ready Inr sends 2 send_upstream_eq[OF 2]
        by (auto simp: outcome_forward outcome_run_pipeline sign_or_500_def
            split: fut.splits sum.splits option.splits)
    qed
  qed
qed

lemma forward_signed:
  assumes "limited_spec R" and "outcome (forward X G P R c req st clock) = Some resp"
    and "resp \<notin> {bare 413, bare 500, bare 502}" and "body_data (rq_body req) = Some q"
  obtains r up a sr where "\<exists>t. network R r = Ready t (Inr up)" "sign G st clock q a = Inr sr"
    "resp = build_signed_response X P up a sr" "sends (forward X G P R c req st clock) = [r]"
proof -
  obtain t q' where q': "limited_collect R (rq_body req) (body_cap c) = Ready t (Inr q')"
    using forward_answers[OF assms(2)] assms(3) by (auto split: fut.split_asm sum.split_asm)
  then have "q' = q" using assms(1,4) unfolding limited_spec_def by (metis option.inject)
  obtain r where r: "sends (forward X G P R c req st clock) = [r]"
    using forward_answers[OF assms(2)] assms(3) q'
    by (cases "sends (forward X G P R c req st clock)" rule: remdups_adj.cases) auto
  note ans = forward_answers[OF assms(2), unfolded q' r, simplified]
  obtain t up where net: "network R r = Ready t (Inr up)"
  proof (cases "network R r")
    case (Ready t x)
    then show thesis using ans assms(3) that by (cases x) simp_all
  qed (use ans in simp)
  show thesis
    using ans assms(3) \<open>q' = q\<close> that[OF exI, OF net] r
    by (cases "limited_collect R (ur_body up) (body_cap c)") (auto simp: net split: sum.split_asm)
qed

section \<open>Properties\<close>

text \<open>
  C7: What the pass-through sends.  \<open>forward\<close> sends at most one request; it has the method of the
  client's request, the request's body byte for byte (never more than the cap), exactly one
  \<open>Accept-Encoding\<close> value, \<open>identity\<close>, no hop-by-hop header, and every other header of the client
  with all its values in order.
\<close>
theorem forward_upstream_request:
  assumes "limited_spec R"
    and "r \<in> set (sends (forward X G P R c req st clock))"
  shows "sends (forward X G P R c req st clock) = [r]
    \<and> up_method r = rq_method req
    \<and> body_data (rq_body req) = Some (up_body r) \<and> length (up_body r) \<le> body_cap c
    \<and> upstream_uri P c req = Some (up_uri r)
    \<and> get_all ''accept-encoding'' (up_headers r) = [ascii ''identity'']
    \<and> (\<forall>n. is_hop_by_hop n \<longrightarrow> get_all n (up_headers r) = [])
    \<and> (\<forall>n. \<not> is_hop_by_hop n \<and> n \<noteq> ''accept-encoding'' \<longrightarrow>
         get_all n (up_headers r) = get_all n (rq_headers req))"
proof -
  obtain t q where q: "limited_collect R (rq_body req) (body_cap c) = Ready t (Inr q)"
      and r: "r \<in> set (sends (send_upstream P R c req q))"
      and eq: "sends (forward X G P R c req st clock) = sends (send_upstream P R c req q)"
    using assms(2)
    by (cases "limited_collect R (rq_body req) (body_cap c)")
      (auto simp: sends_forward split: sum.split_asm)
  note shape = send_upstream_request[OF r]
  have "body_data (rq_body req) = Some q \<and> length q \<le> body_cap c"
    using assms(1) q unfolding limited_spec_def by blast
  then show ?thesis
    using shape eq by (auto simp: req_strip_get_all)
qed

definition demo_client :: upstream_client where
  "demo_client = \<lparr>upstream_url = demo_uri, max_body_bytes = Some 16\<rparr>"

definition demo_request :: request where
  "demo_request =
     \<lparr>rq_method = ascii ''POST'',
      rq_uri = \<lparr>u_scheme = None, u_authority = None, u_path = ascii ''/rpc'',
                u_path_and_query = Some (ascii ''/rpc?k=1'')\<rparr>,
      rq_headers = [(''host'', ascii ''h''), (''accept-encoding'', ascii ''gzip''), (''x-a'', [65])],
      rq_body = Next 1 (Data [1, 2]) (Next 1 (Data [3]) (Eof 0))\<rparr>"

definition demo_up_request :: up_request where
  "demo_up_request =
     \<lparr>up_method = ascii ''POST'',
      up_uri = \<lparr>u_scheme = Some (ascii ''http''), u_authority = Some (ascii ''node:8545''),
                u_path = ascii ''/base/rpc'', u_path_and_query = Some (ascii ''/base/rpc?k=1'')\<rparr>,
      up_headers = [(''x-a'', [65]), (''accept-encoding'', ascii ''identity'')], up_body = [1, 2, 3]\<rparr>"

lemma demo_uris:
  "trim_end_matches 47 (ascii ''/base/'') = ascii ''/base''"
  "ascii ''/base'' @ ascii ''/rpc?k=1'' = ascii ''/base/rpc?k=1''"
  "takeWhile (\<lambda>b. b \<noteq> 63) (ascii ''/base/rpc?k=1'') = ascii ''/base/rpc''"
  "take (Suc 0) (ascii ''/base/rpc?k=1'') = [47]"
  by code_simp+

lemma demo_upstream_uri: "upstream_uri demo_http demo_client demo_request = Some (up_uri demo_up_request)"
  by (simp add: upstream_uri_def origin_path_and_query_def origin_uri_def demo_http_def demo_client_def
      demo_uri_def demo_request_def demo_up_request_def demo_uris MAX_PATH_AND_QUERY_def Let_def
      del: ascii_append ascii_inj)

lemma demo_sel [simp]:
  "limited_collect demo_runtime = demo_collect"
  "network demo_runtime = demo_network" "body_cap demo_client = 16"
  "rq_body demo_request = Next 1 (Data [1, 2]) (Next 1 (Data [3]) (Eof 0))"
  by (simp_all add: demo_http_def demo_runtime_def demo_client_def body_cap_def demo_request_def)

lemma demo_send:
  "send_upstream demo_http R demo_client demo_request [1, 2, 3] =
     io_map (map_err (\<lambda>_. bare 502)) ([demo_up_request], network R demo_up_request)"
  by (simp add: send_upstream_def demo_upstream_uri)
     (simp add: demo_request_def demo_up_request_def is_hop_by_hop_def Let_def)

lemma demo_sends:
  "sends (forward X G demo_http demo_runtime demo_client demo_request st clock) = [demo_up_request]"
  by (simp add: sends_forward demo_send)

theorem forward_upstream_request_witness:
  "get_all ''accept-encoding'' (up_headers demo_up_request) = [ascii ''identity'']
   \<and> body_data (rq_body demo_request) = Some (up_body demo_up_request)"
  using forward_upstream_request[of demo_runtime demo_up_request demo_hex demo_sig demo_http demo_client
      demo_request demo_state 1]
  by (simp add: demo_runtime_spec demo_sends)

text \<open>
  C30: Every answer of the pass-through is accounted for.  A request body over the cap or broken
  is a bare 413 and a request that cannot be built a bare 500, both with nothing sent; a failed
  exchange, or a response body over the cap or broken, is a bare 502; an unusable clock is a bare
  500; in every other case the answer is the signed response for exactly the request body sent and
  the response body received.  Nothing unsigned carries a body or a header.
\<close>
theorem forward_cases:
  assumes "outcome (forward X G P R c req st clock) = Some resp"
  shows "case limited_collect R (rq_body req) (body_cap c) of
      Never \<Rightarrow> False
    | Ready _ (Inl _) \<Rightarrow> resp = bare 413 \<and> sends (forward X G P R c req st clock) = []
    | Ready _ (Inr q) \<Rightarrow>
        (case sends (forward X G P R c req st clock) of
           [] \<Rightarrow> resp = bare 500
         | [r] \<Rightarrow>
             (case network R r of
                Never \<Rightarrow> False
              | Ready _ (Inl _) \<Rightarrow> resp = bare 502
              | Ready _ (Inr up) \<Rightarrow>
                  (case limited_collect R (ur_body up) (body_cap c) of
                     Never \<Rightarrow> False
                   | Ready _ (Inl _) \<Rightarrow> resp = bare 502
                   | Ready _ (Inr a) \<Rightarrow>
                       (case sign G st clock q a of
                          Inl _ \<Rightarrow> resp = bare 500
                        | Inr sr \<Rightarrow> up_body r = q \<and> resp = build_signed_response X P up a sr)))
         | _ \<Rightarrow> False)"
  using forward_answers[OF assms] .

lemma demo_outcome:
  "outcome (forward demo_hex demo_sig demo_http demo_runtime demo_client demo_request demo_state (-1))
     = Some (bare 500)"
  by (simp add: outcome_forward outcome_run_pipeline demo_send demo_network_def outcome_pair
      demo_up_request_def sign_or_500_def sign_def now_ms_def)

theorem forward_cases_witness:
  "outcome (forward demo_hex demo_sig demo_http demo_runtime demo_client demo_request demo_state (-1))
     = Some (bare 500)
   \<and> (case sign demo_sig demo_state (-1) [1, 2, 3] [1, 2, 3] of
        Inl _ \<Rightarrow> bare 500 = bare 500 | Inr sr \<Rightarrow> False)"
  using demo_outcome forward_cases[OF demo_outcome]
  by (simp add: demo_sends demo_network_def demo_up_request_def sign_def now_ms_def)

text \<open>
  C31: The answer to a relayed call.  When the response can be built it has the upstream's status
  and body; every upstream header that is not hop-by-hop and not \<open>Content-Encoding\<close> is kept with its
  values in order, the others are gone; and for each of the three signing headers the sidecar's
  value is the last one, after any value the upstream itself sent under that name.
\<close>
theorem build_signed_response_headers:
  assumes "build_signed_response X P up a sr = resp" and "resp \<noteq> bare 500"
  shows "rs_status resp = ur_status up \<and> rs_body resp = a
    \<and> (\<forall>n. is_hop_by_hop n \<or> n = ''content-encoding'' \<longrightarrow> get_all n (rs_headers resp) = [])
    \<and> (\<forall>n. \<not> is_hop_by_hop n \<and> n \<noteq> ''content-encoding'' \<and>
          n \<notin> {''vrpc-signature'', ''vrpc-timestamp'', ''vrpc-pubkey''} \<longrightarrow>
         get_all n (rs_headers resp) = get_all n (ur_headers up))
    \<and> get_all ''vrpc-signature'' (rs_headers resp) =
        get_all ''vrpc-signature'' (ur_headers up) @ [ascii (signature_hex X sr)]
    \<and> get_all ''vrpc-timestamp'' (rs_headers resp) =
        get_all ''vrpc-timestamp'' (ur_headers up) @ [ascii (dec (unat (timestamp_ms sr)))]
    \<and> get_all ''vrpc-pubkey'' (rs_headers resp) =
        get_all ''vrpc-pubkey'' (ur_headers up) @ [ascii (signed_pubkey_hex sr)]"
  using build_signed_response_structure[OF assms] .

definition demo_upstream_response :: up_response where
  "demo_upstream_response =
     \<lparr>ur_status = 200, ur_headers = [(''vrpc-signature'', [66]), (''connection'', [67])],
      ur_size_lower = 1, ur_body = Eof 0\<rparr>"

theorem build_signed_response_headers_witness:
  "get_all ''vrpc-signature'' (rs_headers (build_signed_response demo_hex demo_http demo_upstream_response
      [1] \<lparr>signature = [1], timestamp_ms = 5, pubkey = [2], signed_pubkey_hex = ''k''\<rparr>))
     = [[66], ascii ''0x01'']"
proof -
  let ?sr = "\<lparr>signature = [1], timestamp_ms = 5, pubkey = [2], signed_pubkey_hex = ''k''\<rparr>"
  let ?resp = "build_signed_response demo_hex demo_http demo_upstream_response [1] ?sr"
  have "?resp \<noteq> bare 500"
    by (simp add: build_signed_response_def demo_http_def demo_upstream_response_def bare_def Let_def)
  moreover have "signature_hex demo_hex ?sr = ''0x01''" by code_simp
  ultimately show ?thesis
    using build_signed_response_headers[of demo_hex demo_http demo_upstream_response "[1]" ?sr ?resp]
    by (simp add: demo_upstream_response_def)
qed

text \<open>
  C32: The upstream URI keeps the configured scheme and authority and joins the configured base path,
  without its trailing slashes, with the path and query of the client's request (\<open>/\<close> when it has
  none); the joined text has at most 65534 bytes, so the 16-bit query offset of the \<open>http\<close> crate
  cannot overflow, and a longer one is refused.
\<close>
theorem upstream_uri_joined:
  "(upstream_uri P c req = Some u \<longrightarrow>
      (\<exists>prefix k j. u_path (upstream_url c) = prefix @ replicate k 0x2F \<and> (prefix = [] \<or> last prefix \<noteq> 0x2F)
        \<and> (let pq = (case u_path_and_query (rq_uri req) of None \<Rightarrow> ascii ''/'' | Some p \<Rightarrow> p) in
             length (prefix @ pq) \<le> 65534 \<and> path_and_query_try_from P (prefix @ pq) = Some j)
        \<and> uri_from_parts P (u_scheme (upstream_url c)) (u_authority (upstream_url c)) (Some j) = Some u))
   \<and> (\<forall>pq. 65534 < length pq \<longrightarrow> origin_path_and_query P c pq = None)"
proof -
  obtain k where k: "u_path (upstream_url c) =
      trim_end_matches 0x2F (u_path (upstream_url c)) @ replicate k 0x2F"
    using prefix_of_base(1) by blast
  note last = prefix_of_base(2)[of "0x2F" "u_path (upstream_url c)"]
  have "\<exists>j. (let pq = (case u_path_and_query (rq_uri req) of None \<Rightarrow> ascii ''/'' | Some p \<Rightarrow> p) in
           length (trim_end_matches 0x2F (u_path (upstream_url c)) @ pq) \<le> 65534 \<and>
           path_and_query_try_from P (trim_end_matches 0x2F (u_path (upstream_url c)) @ pq) = Some j)
      \<and> uri_from_parts P (u_scheme (upstream_url c)) (u_authority (upstream_url c)) (Some j) = Some u"
    if "upstream_uri P c req = Some u"
    using that
    by (auto simp: upstream_uri_def origin_path_and_query_def origin_uri_def MAX_PATH_AND_QUERY_def
        Let_def bind_eq_Some_conv split: if_splits)
  then have "upstream_uri P c req = Some u \<longrightarrow>
      (\<exists>prefix k j. u_path (upstream_url c) = prefix @ replicate k 0x2F \<and> (prefix = [] \<or> last prefix \<noteq> 0x2F)
        \<and> (let pq = (case u_path_and_query (rq_uri req) of None \<Rightarrow> ascii ''/'' | Some p \<Rightarrow> p) in
             length (prefix @ pq) \<le> 65534 \<and> path_and_query_try_from P (prefix @ pq) = Some j)
        \<and> uri_from_parts P (u_scheme (upstream_url c)) (u_authority (upstream_url c)) (Some j) = Some u)"
    using k last by blast
  then show ?thesis
    by (simp add: origin_path_and_query_def MAX_PATH_AND_QUERY_def Let_def)
qed

theorem upstream_uri_joined_witness:
  "\<exists>prefix k j. ascii ''/base/'' = prefix @ replicate k 0x2F \<and> (prefix = [] \<or> last prefix \<noteq> 0x2F)
     \<and> path_and_query_try_from demo_http (prefix @ ascii ''/rpc?k=1'') = Some j"
  using upstream_uri_joined[of demo_http demo_client demo_request "up_uri demo_up_request"] demo_upstream_uri
  by (auto simp: demo_client_def demo_uri_def demo_request_def Let_def)

end
