(* ===== verification/Verifier.thy ===== *)
theory Verifier
  imports Proxy
begin

text \<open>
  The verifier of signed responses, as the repository's integration tests write it
  (\<open>src/tests/common/mod.rs\<close>), and that it accepts what the pass-through answers.
\<close>

section \<open>Verifying a signed response\<close>

datatype verify_error =
  MissingHeaders | BadHex | BadTimestamp | SignatureLength nat | PubkeyLength nat | BadKey | BadSignature

definition header_str :: "http_api \<Rightarrow> headers \<Rightarrow> string \<Rightarrow> ustr" where
  "header_str P hs name =
     (case get_all name hs of
        [] \<Rightarrow> []
      | v # _ \<Rightarrow> (case header_to_str P v of Some s \<Rightarrow> s | None \<Rightarrow> []))"

definition decode_hex_0x :: "hex_crate \<Rightarrow> ustr \<Rightarrow> bytes option" where
  "decode_hex_0x X s = hex_decode X (utf8 (trim_start_matches (chars ''0x'') s))"

definition client_pre_image :: "sig_api \<Rightarrow> ustr \<Rightarrow> bytes \<Rightarrow> bytes \<Rightarrow> u64 \<Rightarrow> bytes" where
  "client_pre_image G cid request_body response_body ts =
     (let buf = replicate 104 0;
          buf = overwrite buf 0 (sha256 G (utf8 cid));
          buf = overwrite buf 32 (sha256 G request_body);
          buf = overwrite buf 64 (sha256 G response_body)
      in overwrite buf 96 (to_le_bytes 8 ts))"

definition verify_signed_response ::
  "hex_crate \<Rightarrow> sig_api \<Rightarrow> http_api \<Rightarrow> ustr \<Rightarrow> bytes \<Rightarrow> response \<Rightarrow> verify_error + unit" where
  "verify_signed_response X G P cid request_body resp =
     (let sig_hex = header_str P (rs_headers resp) ''vrpc-signature'';
          ts_hex = header_str P (rs_headers resp) ''vrpc-timestamp'';
          pk_hex = header_str P (rs_headers resp) ''vrpc-pubkey''
      in if sig_hex = [] \<or> ts_hex = [] \<or> pk_hex = [] then Inl MissingHeaders
         else
           try_bind (ok_or (decode_hex_0x X sig_hex) BadHex) (\<lambda>sig_bytes.
           try_bind (ok_or (decode_hex_0x X pk_hex) BadHex) (\<lambda>pk_bytes.
           try_bind (ok_or (parse_u64 (map char_of ts_hex)) BadTimestamp) (\<lambda>ts_ms.
             if length sig_bytes \<noteq> 64 then Inl (SignatureLength (length sig_bytes))
             else if length pk_bytes \<noteq> 32 then Inl (PubkeyLength (length pk_bytes))
             else
               let pre = client_pre_image G cid request_body (rs_body resp) ts_ms
               in if \<not> vk_from_bytes G pk_bytes then Inl BadKey
                  else if ed_verify G pk_bytes pre sig_bytes then Inr () else Inl BadSignature))))"


section \<open>An honest signature verifies\<close>

lemma utf8_ascii:
  assumes "\<forall>c \<in> set s. (of_char c :: nat) < 127"
  shows "utf8 (chars s) = ascii s"
  using assms by (induction s) (simp_all add: utf8_def chars_def ascii_def utf8_char_def)

lemma char_of_chars [simp]: "map char_of (chars s) = s"
  by (simp add: chars_def comp_def)

lemma header_str_first:
  assumes "header_text P" and "get_all n hs = ascii s # vs"
    and "\<forall>c \<in> set s. 32 \<le> (of_char c :: nat) \<and> (of_char c :: nat) < 127"
  shows "header_str P hs n = chars s"
  using assms by (simp add: header_str_def header_text_def)

lemma hex_text:
  assumes "hex_digits X" and "c \<in> set (hex_encode X bs)"
  shows "48 \<le> (of_char c :: nat) \<and> (of_char c :: nat) < 103 \<and> c \<noteq> CHR ''x''"
proof -
  have "c \<in> set ''0123456789abcdef''" using assms unfolding hex_digits_def by (meson subsetD)
  then show ?thesis by auto
qed

lemma prefixed_hex_text:
  assumes "hex_digits X" and "c \<in> set (prefixed_hex X bs)"
  shows "32 \<le> (of_char c :: nat) \<and> (of_char c :: nat) < 127"
  using assms hex_text[OF assms(1), of c bs] by (auto simp: prefixed_hex_def)

lemma chars_inj [simp]: "chars s = chars t \<longleftrightarrow> s = t"
  by (simp add: chars_def inj_def)

lemma decode_prefixed_hex:
  assumes "hex_digits X" and "hex_roundtrip X"
  shows "decode_hex_0x X (chars (prefixed_hex X bs)) = Some bs"
proof -
  let ?h = "hex_encode X bs"
  have "take 2 ?h \<noteq> ''0x''"
  proof
    assume "take 2 ?h = ''0x''"
    then have "CHR ''x'' \<in> set (take 2 ?h)" by simp
    then show False using hex_text[OF assms(1), of "CHR ''x''" bs] in_set_takeD by fast
  qed
  then have "take 2 (chars ?h) \<noteq> chars ''0x''"
    by (metis chars_def chars_inj take_map)
  then have stop: "trim_start_matches (chars ''0x'') (chars ?h) = chars ?h"
    by (subst trim_start_matches.simps) (simp add: chars_def numeral_2_eq_2)
  have "trim_start_matches (chars ''0x'') (chars (prefixed_hex X bs)) =
      trim_start_matches (chars ''0x'') (chars ?h)"
    by (subst trim_start_matches.simps) (simp add: chars_def prefixed_hex_def)
  moreover have "utf8 (chars ?h) = ascii ?h"
    by (rule utf8_ascii) (use hex_text[OF assms(1)] in fastforce)
  ultimately show ?thesis using assms(2) stop by (simp add: decode_hex_0x_def hex_roundtrip_def)
qed

lemma dec_text: "c \<in> set (dec n) \<Longrightarrow> 32 \<le> (of_char c :: nat) \<and> (of_char c :: nat) < 127"
  using dec_correct[of n] by (auto simp: list_all_iff is_digit_def)

text \<open>The headers the sidecar adds are within what the builder accepts.\<close>

lemma signing_headers_ok:
  assumes "hex_digits X" and "signed_pubkey_hex sr = prefixed_hex X pk"
  shows "header_ok (''vrpc-signature'', ascii (signature_hex X sr))" "header_ok (''vrpc-timestamp'', ascii (dec n))"
    "header_ok (''vrpc-pubkey'', ascii (signed_pubkey_hex sr))" "header_ok (''vrpc-batch-size'', ascii (dec n))"
    "header_ok (''content-type'', ascii ''message/ohttp-res'')"
proof -
  have names: "list_all token_char ''vrpc-signature''" "list_all token_char ''vrpc-timestamp''"
    "list_all token_char ''vrpc-pubkey''" "list_all token_char ''vrpc-batch-size''" "list_all token_char ''content-type''"
    by (simp_all add: token_char_def)
  note printable = prefixed_hex_text[OF assms(1)] dec_text
  show "header_ok (''vrpc-signature'', ascii (signature_hex X sr))"
    by (rule ascii_header_ok[OF _ _ _ names(1)]) (simp_all add: signature_hex_def printable)
  show "header_ok (''vrpc-timestamp'', ascii (dec n))"
    by (rule ascii_header_ok[OF _ _ _ names(2)]) (simp_all add: printable)
  show "header_ok (''vrpc-pubkey'', ascii (signed_pubkey_hex sr))"
    by (rule ascii_header_ok[OF _ _ _ names(3)]) (simp_all add: assms(2) printable)
  show "header_ok (''vrpc-batch-size'', ascii (dec n))"
    by (rule ascii_header_ok[OF _ _ _ names(4)]) (simp_all add: printable)
  show "header_ok (''content-type'', ascii ''message/ohttp-res'')"
    by (rule ascii_header_ok[OF _ _ _ names(5)]) simp_all
qed

text \<open>The external crates the verifier and the signer share behave as documented.\<close>

definition signing_crates :: "hex_crate \<Rightarrow> sig_api \<Rightarrow> http_api \<Rightarrow> bool" where
  "signing_crates X G P \<longleftrightarrow>
     hex_digits X \<and> hex_roundtrip X \<and> sha256_len G \<and> ed_correct G \<and> header_text P"

lemma client_pre_image_eq:
  "client_pre_image G cid q a ts = build_pre_image (sha256 G (utf8 cid)) (sha256 G q) (sha256 G a) ts"
  by (simp add: client_pre_image_def build_pre_image_def signing_consts)

lemma verify_accepts:
  assumes crates: "signing_crates X G P" and inv: "signing_inv X G H st"
    and sr: "sr = sign_with_timestamp G st q (rs_body resp) ts"
    and hs: "get_all ''vrpc-signature'' (rs_headers resp) = ascii (signature_hex X sr) # v1"
      "get_all ''vrpc-timestamp'' (rs_headers resp) = ascii (dec (unat (timestamp_ms sr))) # v2"
      "get_all ''vrpc-pubkey'' (rs_headers resp) = ascii (signed_pubkey_hex sr) # v3"
  shows "verify_signed_response X G P (chain_id st) q resp = Inr ()"
proof -
  have c: "hex_digits X" "hex_roundtrip X" "ed_correct G" "header_text P"
    using crates by (simp_all add: signing_crates_def)
  have sr_sel: "timestamp_ms sr = ts" "signed_pubkey_hex sr = prefixed_hex X (pubkey_bytes G st)"
    "signature sr = ed_sign G (signing_key st) (client_pre_image G (chain_id st) q (rs_body resp) ts)"
    using sr inv by (simp_all add: sign_with_timestamp_def Let_def signing_inv_def client_pre_image_eq)
  have strs: "header_str P (rs_headers resp) ''vrpc-signature'' = chars (prefixed_hex X (signature sr))"
    "header_str P (rs_headers resp) ''vrpc-timestamp'' = chars (dec (unat ts))"
    "header_str P (rs_headers resp) ''vrpc-pubkey'' = chars (prefixed_hex X (pubkey_bytes G st))"
    using hs sr_sel
    by (auto intro!: header_str_first[OF c(4)] simp: signature_hex_def dec_text prefixed_hex_text[OF c(1)])
  have ne: "chars (prefixed_hex X bs) \<noteq> []" "chars (dec n) \<noteq> []" for bs n
    using dec_correct[of n] by (simp_all add: prefixed_hex_def chars_def)
  have "length (signature sr) = 64" "length (pubkey_bytes G st) = 32" "vk_from_bytes G (pubkey_bytes G st)"
    "ed_verify G (pubkey_bytes G st) (client_pre_image G (chain_id st) q (rs_body resp) ts) (signature sr)"
    using c(3) sr_sel(3) unfolding ed_correct_def pubkey_bytes_def by simp_all
  then show ?thesis
    by (simp add: verify_signed_response_def strs ne decode_prefixed_hex[OF c(1,2)] parse_u64_dec)
qed

section \<open>Properties\<close>

text \<open>
  The pass-through end to end.  Whenever \<open>forward\<close> answers with anything but a bare error
  status and the upstream does not itself send \<open>vRPC-*\<close> response headers, a verifier that knows the
  chain id and the request body it sent accepts the answer: the signature covers exactly the
  request body, the returned body and the announced timestamp.
\<close>
theorem forward_verifies:
  assumes "signing_crates X G P" and "signing_inv X G H st" and "limited_spec R"
    and "outcome (forward X G P R c req st clock) = Some resp"
    and "resp \<notin> {bare 413, bare 500, bare 502}"
    and "body_data (rq_body req) = Some q"
    and "\<forall>r up t. network R r = Ready t (Inr up) \<longrightarrow>
       (\<forall>n \<in> {''vrpc-signature'', ''vrpc-timestamp'', ''vrpc-pubkey''}. get_all n (ur_headers up) = [])"
  shows "verify_signed_response X G P (chain_id st) q resp = Inr ()"
proof -
  obtain r up a sr where net: "\<exists>t. network R r = Ready t (Inr up)"
      and sr: "sign G st clock q a = Inr sr" and resp: "resp = build_signed_response X P up a sr"
    by (rule forward_signed[OF assms(3-6)])
  note h = build_signed_response_structure[OF resp[symmetric], simplified]
  obtain ts where ts: "sr = sign_with_timestamp G st q a ts"
    using sr by (auto simp: sign_def try_bind_Inr_iff)
  show ?thesis
    using h assms(5,7) net ts
    by (intro verify_accepts[OF assms(1,2), where sr = sr and ts = ts]) auto
qed

lemma demo_crates: "signing_crates demo_hex demo_sig demo_http"
  by (simp add: signing_crates_def demo_hex_digits demo_hex_roundtrip demo_sig_laws demo_http_text)

lemma demo_answer:
  "\<exists>resp. outcome (forward demo_hex demo_sig demo_http demo_runtime demo_client demo_request demo_state 0)
     = Some resp \<and> rs_status resp = 200"
proof -
  obtain sr where "sign demo_sig demo_state 0 [1, 2, 3] [1, 2, 3] = Inr sr"
    by (simp add: sign_def now_ms_def u64_try_from_def)
  then show ?thesis
    by (simp add: outcome_forward outcome_run_pipeline demo_send demo_network_def outcome_pair
        demo_up_request_def sign_or_500_def build_signed_response_def Let_def)
qed

theorem forward_verifies_witness:
  "\<exists>resp. outcome (forward demo_hex demo_sig demo_http demo_runtime demo_client demo_request demo_state 0)
     = Some resp \<and> verify_signed_response demo_hex demo_sig demo_http (chain_id demo_state) [1, 2, 3] resp = Inr ()"
proof -
  obtain resp where resp: "outcome (forward demo_hex demo_sig demo_http demo_runtime demo_client
      demo_request demo_state 0) = Some resp" "rs_status resp = 200"
    using demo_answer by blast
  then have "resp \<notin> {bare 413, bare 500, bare 502}" by (auto simp: bare_def)
  moreover have "\<forall>r up t. network demo_runtime r = Ready t (Inr up) \<longrightarrow>
      (\<forall>n \<in> {''vrpc-signature'', ''vrpc-timestamp'', ''vrpc-pubkey''}. get_all n (ur_headers up) = [])"
    by (auto simp: demo_network_def)
  ultimately show ?thesis
    using forward_verifies[OF demo_crates demo_state_inv(1) demo_runtime_spec resp(1), of "[1, 2, 3]"] resp(1)
    by simp
qed

end
