(* ===== verification/Call_Outcome.thy ===== *)
theory Call_Outcome
  imports Externals
begin

text \<open>
  The vocabulary of \<open>src/src/confidential.rs\<close>: the errors of an inner call with their status, body and
  class, the outcome of a call and the line that is logged for it.
\<close>

section \<open>Errors of the inner call\<close>

datatype inner_error =
  BadRequest | UnsupportedMediaType | BatchTooLarge | Upstream | UpstreamTimeout | Internal

primrec error_status :: "inner_error \<Rightarrow> nat" where
  "error_status BadRequest = 400"
| "error_status UnsupportedMediaType = 415"
| "error_status BatchTooLarge = 413"
| "error_status Upstream = 502"
| "error_status UpstreamTimeout = 504"
| "error_status Internal = 500"

primrec error_body :: "inner_error \<Rightarrow> string" where
  \<open>error_body BadRequest = ''{"type":"urn:vrpc:error:bad-request","title":"Bad request"}''\<close>
| \<open>error_body UnsupportedMediaType =
     ''{"type":"urn:vrpc:error:unsupported-media-type","title":"Unsupported media type"}''\<close>
| \<open>error_body BatchTooLarge = ''{"type":"urn:vrpc:error:batch-too-large","title":"Batch too large"}''\<close>
| \<open>error_body Upstream = ''{"type":"urn:vrpc:error:upstream","title":"Upstream error"}''\<close>
| \<open>error_body UpstreamTimeout = ''{"type":"urn:vrpc:error:upstream-timeout","title":"Upstream timeout"}''\<close>
| \<open>error_body Internal = ''{"type":"urn:vrpc:error:internal","title":"Internal error"}''\<close>

section \<open>Outcome classes\<close>

datatype outcome_class =
  ClsOk | ClsBadRequest | ClsUnsupportedMediaType | ClsBatchTooLarge | ClsUpstream |
  ClsUpstreamTimeout | ClsInternal | ClsPreDecapsulation | ClsRequestTooLarge |
  ClsRequestReadFailed | ClsMethodNotAllowed | ClsUnsealable | ClsCancelled

primrec error_class :: "inner_error \<Rightarrow> outcome_class" where
  "error_class BadRequest = ClsBadRequest"
| "error_class UnsupportedMediaType = ClsUnsupportedMediaType"
| "error_class BatchTooLarge = ClsBatchTooLarge"
| "error_class Upstream = ClsUpstream"
| "error_class UpstreamTimeout = ClsUpstreamTimeout"
| "error_class Internal = ClsInternal"

primrec class_as_str :: "outcome_class \<Rightarrow> string" where
  "class_as_str ClsOk = ''ok''"
| "class_as_str ClsBadRequest = ''bad-request''"
| "class_as_str ClsUnsupportedMediaType = ''unsupported-media-type''"
| "class_as_str ClsBatchTooLarge = ''batch-too-large''"
| "class_as_str ClsUpstream = ''upstream''"
| "class_as_str ClsUpstreamTimeout = ''upstream-timeout''"
| "class_as_str ClsInternal = ''internal''"
| "class_as_str ClsPreDecapsulation = ''pre-decapsulation''"
| "class_as_str ClsRequestTooLarge = ''request-too-large''"
| "class_as_str ClsRequestReadFailed = ''request-read-failed''"
| "class_as_str ClsMethodNotAllowed = ''method-not-allowed''"
| "class_as_str ClsUnsealable = ''unsealable''"
| "class_as_str ClsCancelled = ''cancelled''"

section \<open>Outcomes and log lines\<close>

record call_outcome =
  oc_class :: outcome_class
  oc_inner_status :: nat
  oc_batch_size :: nat
  oc_request_bytes :: nat
  oc_response_bytes :: nat
  oc_upstream_ms :: u64

definition outcome_plaintext :: "outcome_class \<Rightarrow> nat \<Rightarrow> nat \<Rightarrow> call_outcome" where
  "outcome_plaintext cls request_bytes response_bytes =
     \<lparr>oc_class = cls, oc_inner_status = 0, oc_batch_size = 0, oc_request_bytes = request_bytes,
      oc_response_bytes = response_bytes, oc_upstream_ms = 0\<rparr>"

text \<open>The fields of the one log line of a call: the outcome's numbers, never a body or a header.\<close>

record log_line =
  ll_outcome :: string
  ll_status :: nat
  ll_inner_status :: nat
  ll_batch_size :: nat
  ll_request_bytes :: nat
  ll_response_bytes :: nat
  ll_upstream_ms :: u64
  ll_total_ms :: u64

definition log_outcome :: "call_outcome \<Rightarrow> nat \<Rightarrow> u64 \<Rightarrow> log_line" where
  "log_outcome o1 status total_ms =
     \<lparr>ll_outcome = class_as_str (oc_class o1), ll_status = status,
      ll_inner_status = oc_inner_status o1, ll_batch_size = oc_batch_size o1,
      ll_request_bytes = oc_request_bytes o1, ll_response_bytes = oc_response_bytes o1,
      ll_upstream_ms = oc_upstream_ms o1, ll_total_ms = total_ms\<rparr>"

text \<open>A duration is its nanoseconds; milliseconds beyond 64 bits saturate.\<close>

definition millis :: "nat \<Rightarrow> u64" where
  "millis d = (case u64_try_from (d div 1000000) of Some w \<Rightarrow> w | None \<Rightarrow> - 1)"

section \<open>Properties\<close>

lemma class_as_str_inj: "class_as_str a = class_as_str b \<Longrightarrow> a = b"
  by (cases a; cases b) simp_all

lemma error_class_inj: "error_class a = error_class b \<Longrightarrow> a = b"
  by (cases a; cases b) simp_all

lemma error_status_range: "400 \<le> error_status e \<and> error_status e \<le> 504"
  by (cases e) simp_all

lemma unat_millis: "unat (millis d) = min (d div 1000000) (2 ^ 64 - 1)"
  by (auto simp: millis_def u64_try_from_def unat_of_nat take_bit_eq_mod unsigned_minus_1_eq_mask mask_eq_exp_minus_1 min_def
      split: option.splits if_splits)

end
