(* ===== verification/Inner.thy ===== *)
theory Inner
  imports Proxy Call_Outcome
begin

text \<open>
  \<open>src/src/confidential/inner.rs\<close>: the inner BHTTP request and response of \<open>/confidential\<close>.  The
  plaintext of an envelope is bounded and decoded to an \<open>inner_request\<close>, its JSON-RPC calls are
  counted, and a response is encoded for sealing.  A cursor \<open>rest: &mut &[u8]\<close> is passed and
  returned.  Parameters: \<open>P\<close> the \<open>http\<close> crate, \<open>B\<close> the \<open>bhttp\<close> crate, \<open>J\<close> \<open>serde_json\<close>.
\<close>

section \<open>Messages\<close>

text \<open>\<open>ConfidentialConfig\<close> of \<open>src/src/confidential.rs\<close>; the timeout is in nanoseconds.\<close>

record confidential_config =
  max_request_bytes :: nat
  max_response_bytes :: nat
  max_batch_size :: nat
  upstream_timeout :: nat

record inner_request =
  ir_method :: bytes
  ir_path_and_query :: bytes
  ir_content_type :: "bytes option"
  ir_accept :: "bytes list"
  ir_body :: bytes

record inner_response =
  is_status :: nat
  is_content_type :: "bytes list"
  is_body :: bytes

definition inner_response_from :: "inner_error \<Rightarrow> inner_response" where
  "inner_response_from e =
     \<lparr>is_status = error_status e, is_content_type = [ascii ''application/problem+json''],
      is_body = ascii (error_body e)\<rparr>"

section \<open>Field sections\<close>

definition MAX_FIELD_SECTION_BYTES :: u64 where
  "MAX_FIELD_SECTION_BYTES = 64 * 1024"

text \<open>\<open>None\<close> at the end of the input; the second component is the cursor afterwards.\<close>

definition take_varint :: "bytes \<Rightarrow> inner_error + u64 option \<times> bytes" where
  "take_varint rest =
     (case rest of
        [] \<Rightarrow> Inr (None, rest)
      | first # _ \<Rightarrow>
          let n = 2 ^ unat (drop_bit 6 first) in
          if length rest < n then Inl BadRequest
          else
            let bytes = take n rest; tail = drop n rest;
                v = foldl (\<lambda>v b. push_bit 8 v OR ucast b) (ucast (first AND 0x3f)) (drop 1 bytes)
            in Inr (Some v, tail))"

definition skip :: "bytes \<Rightarrow> u64 \<Rightarrow> inner_error + bytes" where
  "skip rest len =
     (if usize_max < unat len then Inl BadRequest
      else if length rest < unat len then Inl BadRequest
      else Inr (drop (unat len) rest))"

text \<open>The two loops of \<open>check_field_sections\<close>: four control fields, then up to three sections.\<close>

fun skip_controls :: "nat \<Rightarrow> bytes \<Rightarrow> inner_error + bytes" where
  "skip_controls 0 rest = Inr rest"
| "skip_controls (Suc n) rest =
     try_bind (take_varint rest) (\<lambda>(v, rest).
     try_bind (ok_or v BadRequest) (\<lambda>len.
     try_bind (skip rest len) (skip_controls n)))"

fun check_limits :: "u64 list \<Rightarrow> bytes \<Rightarrow> inner_error + unit" where
  "check_limits [] rest = Inr ()"
| "check_limits (limit # limits) rest =
     try_bind (take_varint rest) (\<lambda>(v, rest).
     case v of
       None \<Rightarrow> Inr ()
     | Some len \<Rightarrow>
         if limit < len then Inl BadRequest
         else try_bind (skip rest len) (check_limits limits))"

definition check_field_sections :: "bytes \<Rightarrow> inner_error + unit" where
  "check_field_sections rest =
     try_bind (skip_controls 4 rest)
       (check_limits [MAX_FIELD_SECTION_BYTES, - 1, MAX_FIELD_SECTION_BYTES])"

section \<open>Decoding\<close>

definition inner_method :: "http_api \<Rightarrow> 'm bhttp \<Rightarrow> 'm \<Rightarrow> inner_error + bytes" where
  "inner_method P B msg =
     try_bind (ok_or (bh_method B msg) BadRequest) (\<lambda>m.
     try_bind (ok_or (method_from_bytes P m) BadRequest) (\<lambda>m.
       if m = ascii ''CONNECT'' then Inl BadRequest else Inr m))"

definition inner_path :: "'m bhttp \<Rightarrow> 'm \<Rightarrow> inner_error + bytes" where
  "inner_path B msg =
     try_bind (ok_or (bh_path B msg) BadRequest) (\<lambda>path.
       if take 1 path \<noteq> ascii ''/'' \<or> take 2 path = ascii ''//'' \<or> 0x23 \<in> set path \<or>
          MAX_PATH_AND_QUERY < length path
       then Inl BadRequest else Inr path)"

record inner_fields =
  if_content_type :: "bytes option"
  if_accept :: "bytes list"

definition field_value :: "http_api \<Rightarrow> bytes \<times> bytes \<Rightarrow> inner_error + bytes" where
  "field_value P field = ok_or (header_value_from_bytes P (snd field)) BadRequest"

fun fields_loop ::
  "http_api \<Rightarrow> inner_fields \<Rightarrow> (bytes \<times> bytes) list \<Rightarrow> inner_error + inner_fields" where
  "fields_loop P fs [] = Inr fs"
| "fields_loop P fs (field # rest) =
     (let name = fst field in
      if take 1 name = ascii '':'' then Inl BadRequest
      else if eq_ignore_ascii_case name (ascii ''content-type'') then
        (if if_content_type fs \<noteq> None then Inl BadRequest
         else try_bind (field_value P field) (\<lambda>v.
           fields_loop P (fs\<lparr>if_content_type := Some v\<rparr>) rest))
      else if eq_ignore_ascii_case name (ascii ''accept'') then
        try_bind (field_value P field) (\<lambda>v.
          fields_loop P (fs\<lparr>if_accept := if_accept fs @ [v]\<rparr>) rest)
      else fields_loop P fs rest)"

definition inner_fields_of :: "http_api \<Rightarrow> 'm bhttp \<Rightarrow> 'm \<Rightarrow> inner_error + inner_fields" where
  "inner_fields_of P B msg =
     fields_loop P \<lparr>if_content_type = None, if_accept = []\<rparr> (bh_fields B msg)"

definition decode_inner :: "http_api \<Rightarrow> 'm bhttp \<Rightarrow> bytes \<Rightarrow> inner_error + inner_request" where
  "decode_inner P B plaintext =
     (case plaintext of
        [] \<Rightarrow> Inl BadRequest
      | b # framed \<Rightarrow>
          if b \<noteq> 0x00 then Inl BadRequest
          else
            try_bind (check_field_sections framed) (\<lambda>_.
            try_bind (ok_or (bh_read B plaintext) BadRequest) (\<lambda>msg.
            try_bind (inner_method P B msg) (\<lambda>m.
            try_bind (inner_path B msg) (\<lambda>path.
            try_bind (inner_fields_of P B msg) (\<lambda>fs.
              if bh_content B msg \<noteq> [] \<and> if_content_type fs = None
              then Inl UnsupportedMediaType
              else Inr \<lparr>ir_method = m, ir_path_and_query = path,
                        ir_content_type = if_content_type fs, ir_accept = if_accept fs,
                        ir_body = bh_content B msg\<rparr>))))))"

section \<open>Counting the calls of a batch\<close>

fun visit_seq :: "json_step list \<Rightarrow> nat \<Rightarrow> nat option" where
  "visit_seq [] n = Some n"
| "visit_seq (Elem # seq) n = visit_seq seq (wrapping_add n 1)"
| "visit_seq (Bad # seq) n = None"

definition deserialize_seq :: "json_api \<Rightarrow> bytes \<Rightarrow> nat option" where
  "deserialize_seq J body =
     Option.bind (json_seq J body) (\<lambda>seq.
     Option.bind (visit_seq seq 0) (\<lambda>n. if json_seq_end J body then Some n else None))"

definition batch_size :: "json_api \<Rightarrow> bytes \<Rightarrow> nat" where
  "batch_size J body =
     (if find (\<lambda>b. b \<notin> {0x20, 0x09, 0x0A, 0x0D}) body \<noteq> Some 0x5B then 1
      else case deserialize_seq J body of
             None \<Rightarrow> 1
           | Some n \<Rightarrow> if n = 0 then 1 else n)"

section \<open>Encoding\<close>

definition byte_count :: "bytes list \<Rightarrow> nat" where
  "byte_count chunks = foldl (\<lambda>c buf. saturating_add c (length buf)) 0 chunks"

text \<open>The capacity reserved for nonce, message and tag, so that sealing in place never reallocates.\<close>

definition encode_capacity :: "bytes list \<Rightarrow> nat option" where
  "encode_capacity chunks =
     Option.bind (checked_add RESPONSE_NONCE_LEN (byte_count chunks)) (\<lambda>n. checked_add n TAG_LEN)"

definition encode_with_nonce :: "'m bhttp \<Rightarrow> 'm \<Rightarrow> bytes \<Rightarrow> bytes option" where
  "encode_with_nonce B msg nonce =
     (case bh_write B msg of (chunks, written) \<Rightarrow>
        if \<not> written then None
        else Option.bind (encode_capacity chunks) (\<lambda>capacity. Some (nonce @ concat chunks)))"

definition encode_response :: "'m bhttp \<Rightarrow> inner_response \<Rightarrow> bytes option" where
  "encode_response B r =
     Option.bind (bh_status_code B (is_status r)) (\<lambda>status.
       let msg = bh_response B status;
           msg = foldl (\<lambda>m v. bh_put_header B m (ascii ''content-type'') v) msg (is_content_type r);
           msg = bh_write_content B msg (is_body r)
       in case bh_write B msg of (chunks, written) \<Rightarrow> if written then Some (concat chunks) else None)"

section \<open>Variable-length integers\<close>

text \<open>
  The reference for \<open>take_varint\<close> (RFC 9000, section 16): the two high bits of the first byte give the
  number of bytes, 1, 2, 4 or 8, and the other bits are the number in network order.
\<close>

definition be_value :: "nat \<Rightarrow> bytes \<Rightarrow> nat" where
  "be_value a bs = foldl (\<lambda>a b. 256 * a + unat b) a bs"

fun is_varint :: "bytes \<Rightarrow> nat \<Rightarrow> bool" where
  "is_varint [] n \<longleftrightarrow> False"
| "is_varint (b # bs) n \<longleftrightarrow>
     length bs + 1 = 2 ^ unat (drop_bit 6 b) \<and> n = be_value (unat (b AND 0x3f)) bs"

lemma unat_byte: "unat (b :: byte) < 256"
  using unsigned_less[where ?'a = nat and w = b] by simp

lemma unat_u64: "unat (w :: u64) \<le> usize_max"
  using unsigned_less[where ?'a = nat and w = w] by (simp add: usize_max_def)

lemma shift_or_byte:
  fixes v :: u64 and b :: byte
  assumes "unat v < 2 ^ k" and "k + 8 \<le> 64"
  shows "unat (push_bit 8 v OR ucast b) = 256 * unat v + unat b"
proof -
  have "push_bit 8 v + ucast b = push_bit 8 v OR ucast b"
    by (rule disjunctive_add) (auto simp: bit_simps dest: bit_imp_le_length)
  moreover have "(2 :: nat) ^ k \<le> 2 ^ 56" using assms(2) by (intro power_increasing) simp_all
  then have "unat v < 2 ^ 56" using assms(1) by linarith
  then have "256 * unat v + unat b < 2 ^ 64" using unat_byte[of b] by simp
  then have "unat (push_bit 8 v + (ucast b :: u64)) = 256 * unat v + unat b"
    by (simp add: push_bit_eq_mult unat_word_ariths unsigned_ucast_eq take_bit_eq_mod mult.commute)
  ultimately show ?thesis by simp
qed

lemma be_fold:
  fixes v :: u64
  assumes "unat v < 2 ^ k" and "k + 8 * length bs \<le> 64"
  shows "unat (foldl (\<lambda>v b. push_bit 8 v OR ucast b) v bs) = be_value (unat v) bs \<and>
    be_value (unat v) bs < 2 ^ (k + 8 * length bs)"
  using assms
proof (induction bs arbitrary: v k)
  case (Cons b bs)
  have step: "unat (push_bit 8 v OR ucast b) = 256 * unat v + unat b"
    using shift_or_byte[OF Cons.prems(1)] Cons.prems(2) by simp
  have "256 * unat v + unat b < 256 * (unat v + 1)" using unat_byte[of b] by simp
  also have "\<dots> \<le> 256 * 2 ^ k" using Cons.prems(1) by simp
  finally have "unat (push_bit 8 v OR ucast b) < 2 ^ (k + 8)" using step by (simp add: power_add)
  from Cons.IH[OF this] Cons.prems(2) show ?case
    using step by (simp add: be_value_def add.assoc)
qed (simp_all add: be_value_def)

lemma top_bits: "unat (drop_bit 6 (b :: byte)) \<le> 3"
  using unat_byte[of b] by (simp add: drop_bit_eq_div unat_div)

lemma low_bits: "unat ((b :: byte) AND 0x3f) < 2 ^ 6"
proof -
  have "b AND 0x3f \<le> (0x3f :: byte)" by (rule word_and_le1)
  then show ?thesis by (simp add: word_le_nat_alt)
qed

lemma varint_len_cases: "(2 :: nat) ^ unat (drop_bit 6 (b :: byte)) \<in> {1, 2, 4, 8}"
  using top_bits[of b] by (cases "unat (drop_bit 6 b)" rule: nat.exhaust)
    (auto simp: numeral_eq_Suc le_Suc_eq)

lemma is_varint_bound: "is_varint h n \<Longrightarrow> n < 2 ^ 62 \<and> h \<noteq> [] \<and> length h \<le> 8"
proof (cases h)
  case (Cons b bs)
  assume v: "is_varint h n"
  then have l: "length bs + 1 \<le> 8" using varint_len_cases[of b] Cons by auto
  have "n = be_value (unat (ucast (b AND 0x3f) :: u64)) bs"
    using v Cons low_bits[of b] by (simp add: unsigned_ucast_eq take_bit_eq_mod)
  moreover have "unat (ucast (b AND 0x3f) :: u64) < 2 ^ 6"
    using low_bits[of b] by (simp add: unsigned_ucast_eq take_bit_eq_mod)
  ultimately have "n < 2 ^ (6 + 8 * length bs)" using be_fold[of "ucast (b AND 0x3f)" 6 bs] l by simp
  also have "\<dots> \<le> 2 ^ 62" using l by (intro power_increasing) simp_all
  finally show ?thesis using Cons l by simp
qed simp

lemma take_varint_None: "take_varint bs = Inr (None, t) \<longleftrightarrow> bs = [] \<and> t = []"
  by (auto simp: take_varint_def Let_def split: list.splits if_splits)

lemma take_varint_Inl:
  "take_varint bs = Inl e \<longleftrightarrow>
     e = BadRequest \<and> bs \<noteq> [] \<and> length bs < 2 ^ unat (drop_bit 6 (hd bs))"
  by (auto simp: take_varint_def Let_def split: list.splits if_splits)

lemma take_varint_Some:
  "take_varint bs = Inr (Some v, t) \<longleftrightarrow> (\<exists>h. bs = h @ t \<and> is_varint h (unat v))"
proof -
  have val: "unat (foldl (\<lambda>v b. push_bit 8 v OR ucast b) (ucast (b AND 0x3f) :: u64) ys) =
      be_value (unat (b AND 0x3f)) ys"
    if "length ys + 1 = 2 ^ unat (drop_bit 6 b)" for b :: byte and ys
  proof -
    have "length ys + 1 \<le> 8" using varint_len_cases[of b] that by auto
    moreover have "unat (ucast (b AND 0x3f) :: u64) = unat (b AND 0x3f)"
      using low_bits[of b] by (simp add: unsigned_ucast_eq take_bit_eq_mod)
    ultimately show ?thesis using be_fold[of "ucast (b AND 0x3f)" 6 ys] low_bits[of b] by simp
  qed
  show ?thesis
  proof
    assume take: "take_varint bs = Inr (Some v, t)"
    then obtain b bs' where bs: "bs = b # bs'" by (cases bs) (auto simp: take_varint_def)
    let ?n = "2 ^ unat (drop_bit 6 b) :: nat"
    have n: "?n \<le> length bs" and t: "t = drop ?n bs"
      and v: "v = foldl (\<lambda>v b. push_bit 8 v OR ucast b) (ucast (b AND 0x3f)) (drop 1 (take ?n bs))"
      using take bs by (auto simp: take_varint_def Let_def split: if_splits)
    have hd: "take ?n bs = b # drop 1 (take ?n bs)" using bs by (cases ?n) auto
    then have len: "length (drop 1 (take ?n bs)) + 1 = ?n" using n
      by (metis length_Cons length_take min.absorb2 Suc_eq_plus1)
    then have "is_varint (take ?n bs) (unat v)"
      using val[OF len] v by (subst hd) simp
    then show "\<exists>h. bs = h @ t \<and> is_varint h (unat v)" using t by (metis append_take_drop_id)
  next
    assume "\<exists>h. bs = h @ t \<and> is_varint h (unat v)"
    then obtain b ys where bs: "bs = (b # ys) @ t" and len: "length ys + 1 = 2 ^ unat (drop_bit 6 b)"
        and v: "unat v = be_value (unat (b AND 0x3f)) ys"
      by (metis is_varint.elims(2))
    have "v = foldl (\<lambda>v b. push_bit 8 v OR ucast b) (ucast (b AND 0x3f)) ys"
      using val[OF len] v by (metis word_unat_eq_iff)
    then show "take_varint bs = Inr (Some v, t)"
      using bs len[symmetric] by (simp add: take_varint_def)
  qed
qed

text \<open>A 64-bit length always fits \<open>usize\<close>.\<close>

lemma skip_code [code]:
  "skip rest len = (if length rest < unat len then Inl BadRequest else Inr (drop (unat len) rest))"
  using unat_u64[of len] by (simp add: skip_def)

lemma skip_Inr: "skip rest len = Inr t \<longleftrightarrow> (\<exists>d. rest = d @ t \<and> length d = unat len)"
proof
  assume "skip rest len = Inr t"
  then have "unat len \<le> length rest" "t = drop (unat len) rest"
    by (auto simp: skip_def split: if_splits)
  then have "rest = take (unat len) rest @ t \<and> length (take (unat len) rest) = unat len" by simp
  then show "\<exists>d. rest = d @ t \<and> length d = unat len" by blast
next
  assume "\<exists>d. rest = d @ t \<and> length d = unat len"
  then show "skip rest len = Inr t" using unat_u64[of len] by (auto simp: skip_def)
qed

text \<open>A length-prefixed vector with \<open>n\<close> bytes of data.\<close>

definition is_vec :: "bytes \<Rightarrow> nat \<Rightarrow> bool" where
  "is_vec w n \<longleftrightarrow> (\<exists>h d. w = h @ d \<and> is_varint h n \<and> length d = n)"

lemma take_skip:
  "(\<exists>r. take_varint bs = Inr (Some v, r) \<and> skip r v = Inr t) \<longleftrightarrow>
     (\<exists>w. bs = w @ t \<and> is_vec w (unat v))"
  unfolding take_varint_Some skip_Inr is_vec_def by (metis append.assoc)

lemma is_vec_word: "is_vec w n \<Longrightarrow> unat (of_nat n :: u64) = n"
  unfolding is_vec_def using is_varint_bound by (fastforce simp: unat_of_nat take_bit_eq_mod)

lemma is_vec_ex: "(\<exists>v :: u64. is_vec w (unat v) \<and> Q (unat v)) \<longleftrightarrow> (\<exists>k. is_vec w k \<and> Q k)"
proof
  assume "\<exists>k. is_vec w k \<and> Q k"
  then obtain k where k: "is_vec w k" "Q k" by blast
  then have "is_vec w (unat (of_nat k :: u64)) \<and> Q (unat (of_nat k :: u64))"
    by (simp only: is_vec_word)
  then show "\<exists>v :: u64. is_vec w (unat v) \<and> Q (unat v)" by blast
qed blast

lemma skip_controls_Inr:
  "skip_controls n bs = Inr t \<longleftrightarrow>
     (\<exists>ws. length ws = n \<and> bs = concat ws @ t \<and> (\<forall>w \<in> set ws. \<exists>k. is_vec w k))"
proof (induction n arbitrary: bs)
  case (Suc n)
  have "skip_controls (Suc n) bs = Inr t \<longleftrightarrow>
      (\<exists>v u. (\<exists>r. take_varint bs = Inr (Some v, r) \<and> skip r v = Inr u) \<and> skip_controls n u = Inr t)"
    by (auto simp: try_bind_Inr_iff split: prod.splits)
  also have "\<dots> \<longleftrightarrow> (\<exists>w u k. bs = w @ u \<and> is_vec w k \<and> skip_controls n u = Inr t)"
    unfolding take_skip using is_vec_ex[where Q = "\<lambda>_. True", simplified] by blast
  also have "\<dots> \<longleftrightarrow> (\<exists>ws. length ws = Suc n \<and> bs = concat ws @ t \<and> (\<forall>w \<in> set ws. \<exists>k. is_vec w k))"
    (is "?l \<longleftrightarrow> ?r")
  proof
    assume ?l
    then obtain w u k ws where "bs = w @ u" "is_vec w k" "length ws = n" "u = concat ws @ t"
        "\<forall>w \<in> set ws. \<exists>k. is_vec w k"
      unfolding Suc.IH by blast
    then show ?r by (intro exI[of _ "w # ws"]) auto
  next
    assume ?r
    then obtain w ws where "length ws = n" "bs = w @ concat ws @ t"
        "\<exists>k. is_vec w k" "\<forall>w \<in> set ws. \<exists>k. is_vec w k"
      by (auto simp: length_Suc_conv)
    then show ?l unfolding Suc.IH by blast
  qed
  finally show ?case .
qed auto

lemma check_limits_step:
  "check_limits (l # limits) bs = Inr () \<longleftrightarrow> bs = [] \<or>
     (\<exists>v u. (\<exists>r. take_varint bs = Inr (Some v, r) \<and> skip r v = Inr u) \<and> v \<le> l \<and>
        check_limits limits u = Inr ())"
proof (cases "take_varint bs")
  case (Inl e)
  moreover have "bs \<noteq> []" using Inl take_varint_Inl by simp
  ultimately show ?thesis by simp
next
  case (Inr p)
  obtain ov r where p: "p = (ov, r)" by (cases p)
  show ?thesis
  proof (cases ov)
    case None
    then have "bs = []" using Inr p take_varint_None[of bs r] by simp
    then show ?thesis by (simp add: take_varint_def)
  next
    case (Some v)
    moreover have "bs \<noteq> []" using Some Inr p take_varint_None[of bs "[]"] by auto
    ultimately show ?thesis using Inr p by (simp add: try_bind_Inr_iff not_less) auto
  qed
qed

lemma check_limits_is_vec:
  assumes "is_vec w k"
  shows "check_limits (l # limits) (w @ u) = Inr () \<longleftrightarrow> k \<le> unat l \<and> check_limits limits u = Inr ()"
proof -
  have "is_vec w (unat (of_nat k :: u64))" using assms is_vec_word by simp
  then obtain r where "take_varint (w @ u) = Inr (Some (of_nat k), r)" "skip r (of_nat k) = Inr u"
    using take_skip[of "w @ u" "of_nat k" u] by blast
  then show ?thesis using is_vec_word[OF assms] by (simp add: word_less_nat_alt)
qed

text \<open>
  The shape \<open>check_limits\<close> accepts: up to one vector per limit, none with more data than its limit;
  the input may end after any of them and anything may follow the last.
\<close>

inductive sections :: "u64 list \<Rightarrow> bytes \<Rightarrow> bool" where
  truncated: "sections limits []"
| all_read: "sections [] rest"
| vector: "is_vec w k \<Longrightarrow> k \<le> unat l \<Longrightarrow> sections limits u \<Longrightarrow> sections (l # limits) (w @ u)"

inductive_simps sections_Nil: "sections [] bs"
inductive_simps sections_Cons: "sections (l # limits) bs"

lemma check_limits_Inr: "check_limits limits bs = Inr () \<longleftrightarrow> sections limits bs"
proof (induction limits arbitrary: bs)
  case (Cons l limits)
  show ?case
    unfolding check_limits_step sections_Cons take_skip word_le_nat_alt Cons.IH
    using is_vec_ex[where Q = "\<lambda>k. k \<le> unat l"] by blast
qed (simp add: sections_Nil)

lemma error_only_bad:
  "skip_controls n bs = Inl e \<Longrightarrow> e = BadRequest"
  "check_limits limits bs = Inl e \<Longrightarrow> e = BadRequest"
proof -
  have skip: "skip r v = Inl e \<Longrightarrow> e = BadRequest" for r v e
    by (auto simp: skip_def split: if_splits)
  show "skip_controls n bs = Inl e \<Longrightarrow> e = BadRequest"
    by (induction n arbitrary: bs)
      (auto simp: try_bind_Inl_iff take_varint_Inl split: prod.splits dest: skip)
  show "check_limits limits bs = Inl e \<Longrightarrow> e = BadRequest"
    by (induction limits arbitrary: bs)
      (auto simp: try_bind_Inl_iff take_varint_Inl split: prod.splits option.splits if_splits dest: skip)
qed

section \<open>Fields of the inner request\<close>

definition is_content_type_field :: "bytes \<times> bytes \<Rightarrow> bool" where
  "is_content_type_field f \<longleftrightarrow> eq_ignore_ascii_case (fst f) (ascii ''content-type'')"

definition is_accept_field :: "bytes \<times> bytes \<Rightarrow> bool" where
  "is_accept_field f \<longleftrightarrow> eq_ignore_ascii_case (fst f) (ascii ''accept'')"

lemma field_names_disjoint: "is_content_type_field f \<Longrightarrow> \<not> is_accept_field f"
  by (auto simp: is_content_type_field_def is_accept_field_def eq_ignore_ascii_case_def
      dest: map_eq_imp_length_eq)

text \<open>Which values a header section gives: at most one content type, all \<open>accept\<close> values in order.\<close>

definition fields_spec ::
  "http_api \<Rightarrow> (bytes \<times> bytes) list \<Rightarrow> bytes option \<Rightarrow> bytes list \<Rightarrow> bool" where
  "fields_spec P fs ct accept \<longleftrightarrow>
     (\<forall>f \<in> set fs. take 1 (fst f) \<noteq> ascii '':'') \<and>
     map (\<lambda>f. header_value_from_bytes P (snd f)) (filter is_content_type_field fs) =
       (case ct of None \<Rightarrow> [] | Some v \<Rightarrow> [Some v]) \<and>
     map (\<lambda>f. header_value_from_bytes P (snd f)) (filter is_accept_field fs) = map Some accept"

lemma fields_loop_Inr:
  "fields_loop P g fs = Inr r \<longleftrightarrow>
     (\<exists>ct accept. fields_spec P fs ct accept \<and> (ct \<noteq> None \<longrightarrow> if_content_type g = None) \<and>
        r = \<lparr>if_content_type = (if ct = None then if_content_type g else ct),
             if_accept = if_accept g @ accept\<rparr>)"
proof (induction fs arbitrary: g)
  case Nil
  show ?case by (auto simp: fields_spec_def split: option.splits)
next
  case (Cons f fs)
  let ?hv = "header_value_from_bytes P (snd f)"
  consider "take 1 (fst f) = ascii '':''"
    | "take 1 (fst f) \<noteq> ascii '':''" "is_content_type_field f" "\<not> is_accept_field f"
    | "take 1 (fst f) \<noteq> ascii '':''" "\<not> is_content_type_field f" "is_accept_field f"
    | "take 1 (fst f) \<noteq> ascii '':''" "\<not> is_content_type_field f" "\<not> is_accept_field f"
    using field_names_disjoint by blast
  then show ?case
  proof cases
    case 1
    then show ?thesis by (auto simp: fields_spec_def)
  next
    case 2
    then have "fields_spec P (f # fs) ct accept \<longleftrightarrow>
        (\<exists>v. ?hv = Some v \<and> ct = Some v \<and> fields_spec P fs None accept)" for ct accept
      by (auto simp: fields_spec_def split: option.splits)
    moreover have "fields_loop P g (f # fs) = Inr r \<longleftrightarrow> if_content_type g = None \<and>
        (\<exists>v. ?hv = Some v \<and> fields_loop P (g\<lparr>if_content_type := Some v\<rparr>) fs = Inr r)"
      using 2 by (auto simp: try_bind_Inr_iff field_value_def is_content_type_field_def)
    ultimately show ?thesis unfolding Cons.IH by auto
  next
    case 3
    then have "fields_spec P (f # fs) ct accept \<longleftrightarrow>
        (\<exists>v as. ?hv = Some v \<and> accept = v # as \<and> fields_spec P fs ct as)" for ct accept
      by (auto simp: fields_spec_def Cons_eq_map_conv)
    moreover have "fields_loop P g (f # fs) = Inr r \<longleftrightarrow>
        (\<exists>v. ?hv = Some v \<and> fields_loop P (g\<lparr>if_accept := if_accept g @ [v]\<rparr>) fs = Inr r)"
      using 3 by (auto simp: try_bind_Inr_iff field_value_def is_content_type_field_def is_accept_field_def)
    ultimately show ?thesis unfolding Cons.IH by auto
  next
    case 4
    then have "fields_spec P (f # fs) = fields_spec P fs"
      by (auto simp: fields_spec_def fun_eq_iff)
    then show ?thesis using 4 Cons.IH
      by (simp add: is_content_type_field_def is_accept_field_def)
  qed
qed

lemma inner_fields_Inr:
  "inner_fields_of P B msg = Inr r \<longleftrightarrow> fields_spec P (bh_fields B msg) (if_content_type r) (if_accept r)"
  by (cases r) (auto simp: inner_fields_of_def fields_loop_Inr split: option.splits)

lemma inner_path_Inr:
  "inner_path B msg = Inr p \<longleftrightarrow> bh_path B msg = Some p \<and> take 1 p = ascii ''/'' \<and>
     take 2 p \<noteq> ascii ''//'' \<and> 0x23 \<notin> set p \<and> length p \<le> 65534"
  by (auto simp: inner_path_def try_bind_Inr_iff MAX_PATH_AND_QUERY_def)

lemma inner_method_Inr:
  "inner_method P B msg = Inr m \<longleftrightarrow>
     (\<exists>x. bh_method B msg = Some x \<and> method_from_bytes P x = Some m) \<and> m \<noteq> ascii ''CONNECT''"
  by (auto simp: inner_method_def try_bind_Inr_iff)

lemma decode_inner_Inr:
  "decode_inner P B pt = Inr r \<longleftrightarrow>
     (\<exists>framed msg. pt = 0 # framed \<and> check_field_sections framed = Inr () \<and> bh_read B pt = Some msg
        \<and> inner_method P B msg = Inr (ir_method r) \<and> inner_path B msg = Inr (ir_path_and_query r)
        \<and> inner_fields_of P B msg = Inr \<lparr>if_content_type = ir_content_type r, if_accept = ir_accept r\<rparr>
        \<and> ir_body r = bh_content B msg \<and> (ir_body r = [] \<or> ir_content_type r \<noteq> None))"
proof (cases pt)
  case (Cons b framed)
  then show ?thesis
    by (cases r) (fastforce simp: decode_inner_def try_bind_Inr_iff split: if_splits)
qed (simp add: decode_inner_def)

lemma decode_parts_bad:
  "check_field_sections bs = Inl e \<Longrightarrow> e = BadRequest" "inner_method P B msg = Inl e \<Longrightarrow> e = BadRequest"
  "inner_path B msg = Inl e \<Longrightarrow> e = BadRequest" "inner_fields_of P B msg = Inl e \<Longrightarrow> e = BadRequest"
proof -
  have bad: "fields_loop P g fs = Inl e \<Longrightarrow> e = BadRequest" for g fs
    by (induction fs arbitrary: g)
      (auto simp: try_bind_Inl_iff field_value_def Let_def split: if_splits)
  then show "inner_fields_of P B msg = Inl e \<Longrightarrow> e = BadRequest" by (simp add: inner_fields_of_def)
qed (auto simp: check_field_sections_def inner_method_def inner_path_def try_bind_Inl_iff
    simp del: check_limits.simps split: if_splits dest: error_only_bad)

lemma decode_inner_Inl:
  "decode_inner P B pt = Inl e \<Longrightarrow> e = BadRequest \<or> e = UnsupportedMediaType"
  "decode_inner P B pt = Inl UnsupportedMediaType \<longleftrightarrow>
     (\<exists>framed msg m path fs. pt = 0 # framed \<and> check_field_sections framed = Inr () \<and> bh_read B pt = Some msg
        \<and> inner_method P B msg = Inr m \<and> inner_path B msg = Inr path \<and> inner_fields_of P B msg = Inr fs
        \<and> bh_content B msg \<noteq> [] \<and> if_content_type fs = None)"
proof -
  show "decode_inner P B pt = Inl e \<Longrightarrow> e = BadRequest \<or> e = UnsupportedMediaType"
    by (cases pt) (auto simp: decode_inner_def try_bind_Inl_iff split: if_splits dest: decode_parts_bad)
  show "decode_inner P B pt = Inl UnsupportedMediaType \<longleftrightarrow>
     (\<exists>framed msg m path fs. pt = 0 # framed \<and> check_field_sections framed = Inr () \<and> bh_read B pt = Some msg
        \<and> inner_method P B msg = Inr m \<and> inner_path B msg = Inr path \<and> inner_fields_of P B msg = Inr fs
        \<and> bh_content B msg \<noteq> [] \<and> if_content_type fs = None)"
    by (cases pt) (auto simp: decode_inner_def try_bind_Inl_iff dest!: decode_parts_bad)
qed

text \<open>
  The request a plaintext carries, apart from the rule that content needs a type: known-length framing,
  bounded sections, a BHTTP message with a valid method other than \<open>CONNECT\<close>, a path that starts with one
  slash, has no fragment and fits the URI limit, and fields that \<open>fields_spec\<close> admits.
\<close>

definition carries :: "http_api \<Rightarrow> 'm bhttp \<Rightarrow> bytes \<Rightarrow> inner_request \<Rightarrow> bool" where
  "carries P B pt r \<longleftrightarrow>
     (\<exists>framed msg m. pt = 0 # framed \<and> check_field_sections framed = Inr () \<and> bh_read B pt = Some msg
        \<and> bh_method B msg = Some m \<and> method_from_bytes P m = Some (ir_method r)
        \<and> ir_method r \<noteq> ascii ''CONNECT''
        \<and> bh_path B msg = Some (ir_path_and_query r)
        \<and> take 1 (ir_path_and_query r) = ascii ''/'' \<and> take 2 (ir_path_and_query r) \<noteq> ascii ''//''
        \<and> 0x23 \<notin> set (ir_path_and_query r) \<and> length (ir_path_and_query r) \<le> 65534
        \<and> fields_spec P (bh_fields B msg) (ir_content_type r) (ir_accept r)
        \<and> ir_body r = bh_content B msg)"

lemma carries_parts:
  "carries P B pt r \<longleftrightarrow>
     (\<exists>framed msg. pt = 0 # framed \<and> check_field_sections framed = Inr () \<and> bh_read B pt = Some msg
        \<and> inner_method P B msg = Inr (ir_method r) \<and> inner_path B msg = Inr (ir_path_and_query r)
        \<and> inner_fields_of P B msg = Inr \<lparr>if_content_type = ir_content_type r, if_accept = ir_accept r\<rparr>
        \<and> ir_body r = bh_content B msg)"
  unfolding carries_def inner_path_Inr inner_method_Inr inner_fields_Inr by auto

lemma decode_inner_415:
  "decode_inner P B pt = Inl UnsupportedMediaType \<longleftrightarrow>
     (\<exists>r. carries P B pt r \<and> ir_body r \<noteq> [] \<and> ir_content_type r = None)"
  (is "?l \<longleftrightarrow> ?rhs")
proof
  assume ?l
  then obtain framed msg m path fs where d: "pt = 0 # framed" "check_field_sections framed = Inr ()"
      "bh_read B pt = Some msg" "inner_method P B msg = Inr m" "inner_path B msg = Inr path"
      "inner_fields_of P B msg = Inr fs" "bh_content B msg \<noteq> []" "if_content_type fs = None"
    unfolding decode_inner_Inl(2) by blast
  let ?r = "\<lparr>ir_method = m, ir_path_and_query = path, ir_content_type = None, ir_accept = if_accept fs,
     ir_body = bh_content B msg\<rparr>"
  have "fs = \<lparr>if_content_type = None, if_accept = if_accept fs\<rparr>" using d(8) by simp
  then have "carries P B pt ?r" using d by (auto simp: carries_parts)
  then show ?rhs using d(7) by force
qed (auto simp: decode_inner_Inl(2) carries_parts)

section \<open>Counting and encoding\<close>

lemma visit_seq_eq:
  "n \<le> usize_max \<Longrightarrow>
     visit_seq seq n = (if Bad \<in> set seq then None else Some ((n + length seq) mod (usize_max + 1)))"
proof (induction seq n rule: visit_seq.induct)
  case (2 seq n)
  have "wrapping_add n 1 \<le> usize_max" by (simp add: wrapping_add_def less_Suc_eq_le[symmetric])
  moreover have "(wrapping_add n 1 + k) mod (usize_max + 1) = (n + Suc k) mod (usize_max + 1)" for k
    by (simp add: wrapping_add_def mod_add_left_eq)
  ultimately show ?case using 2 by simp
qed simp_all

lemma deserialize_seq_eq:
  "deserialize_seq J body =
     (case json_seq J body of
        Some seq \<Rightarrow> if Bad \<notin> set seq \<and> json_seq_end J body then Some (length seq mod (usize_max + 1)) else None
      | None \<Rightarrow> None)"
  by (simp add: deserialize_seq_def visit_seq_eq split: option.splits)

lemma byte_count_eq: "byte_count chunks = min usize_max (length (concat chunks))"
proof -
  have step: "saturating_add (min usize_max n) k = min usize_max (n + k)" for n k
    by (simp add: saturating_add_def min_def)
  have "foldl (\<lambda>c buf. saturating_add c (length buf)) (min usize_max n) chunks =
      min usize_max (n + length (concat chunks))" for n
    by (induction chunks arbitrary: n) (simp_all add: step add.assoc)
  from this[of 0] show ?thesis by (simp add: byte_count_def)
qed

lemma encode_with_nonce_Some:
  "encode_with_nonce B msg nonce = Some buf \<longleftrightarrow>
     snd (bh_write B msg) \<and> buf = nonce @ concat (fst (bh_write B msg)) \<and>
     32 + length (concat (fst (bh_write B msg))) + 16 \<le> usize_max"
  by (cases "bh_write B msg")
     (auto simp: encode_with_nonce_def encode_capacity_def bind_eq_Some_conv checked_add_Some
        byte_count_eq envelope_consts min_def)

section \<open>Properties\<close>

text \<open>
  C25: \<open>take_varint\<close> is the QUIC variable-length integer.  It fails with 400 exactly when the
  announced bytes are missing, gives \<open>None\<close> exactly at the end of the input, and otherwise
  consumes exactly the encoding and gives its value; the value is below \<open>2^62\<close>, so the 64-bit
  accumulation never wraps.
\<close>
theorem take_varint_spec:
  "(take_varint bs = Inl e \<longleftrightarrow>
      e = BadRequest \<and> bs \<noteq> [] \<and> length bs < 2 ^ unat (drop_bit 6 (hd bs)))
   \<and> (take_varint bs = Inr (None, t) \<longleftrightarrow> bs = [] \<and> t = [])
   \<and> (take_varint bs = Inr (Some v, t) \<longleftrightarrow> (\<exists>h. bs = h @ t \<and> is_varint h (unat v)))
   \<and> (take_varint bs = Inr (Some v, t) \<longrightarrow> unat v < 2 ^ 62 \<and> length t < length bs)"
proof -
  have "unat v < 2 ^ 62 \<and> length t < length bs" if taken: "take_varint bs = Inr (Some v, t)"
  proof -
    obtain h where h: "bs = h @ t" "is_varint h (unat v)"
      using taken unfolding take_varint_Some by blast
    then show ?thesis using is_varint_bound[OF h(2)] by simp
  qed
  then show ?thesis by (simp add: take_varint_Inl take_varint_None take_varint_Some)
qed

theorem take_varint_spec_witness:
  "take_varint [0x7b, 0xbd, 9] = Inr (Some 15293, [9]) \<and> unat (15293 :: u64) < 2 ^ 62"
proof -
  have "take_varint [0x7b, 0xbd, 9] = Inr (Some 15293, [9])" by code_simp
  then show ?thesis using take_varint_spec[of "[0x7b, 0xbd, 9]" BadRequest "[9]" 15293] by blast
qed

text \<open>
  C9: The bound on what the BHTTP decoder may have to hold.  \<open>check_field_sections\<close> reads four
  length-prefixed control fields, then the header section, the content and the trailer section in that
  order, of which a tail may be missing, and does not look at what follows the trailer section (padding).
  It accepts exactly the inputs of this shape with at most 64 KiB in the header section and in the
  trailer section; every other input is refused with 400.  In particular a complete message is accepted
  exactly when its header and trailer sections are within 64 KiB each, whatever its content and padding.
\<close>
theorem check_field_sections_spec:
  "(check_field_sections bs = Inr () \<longleftrightarrow>
      (\<exists>cs u. length cs = 4 \<and> bs = concat cs @ u \<and> (\<forall>w \<in> set cs. \<exists>k. is_vec w k) \<and>
         sections [65536, - 1, 65536] u))
   \<and> (check_field_sections bs \<noteq> Inr () \<longrightarrow> check_field_sections bs = Inl BadRequest)
   \<and> (length cs = 4 \<and> (\<forall>w \<in> set cs. \<exists>k. is_vec w k) \<and> is_vec header i \<and> is_vec content j \<and> is_vec trailer k \<longrightarrow>
        (check_field_sections (concat cs @ header @ content @ trailer @ padding) = Inr () \<longleftrightarrow> i \<le> 65536 \<and> k \<le> 65536))"
proof (intro conjI)
  have limit: "MAX_FIELD_SECTION_BYTES = 65536" by (simp add: MAX_FIELD_SECTION_BYTES_def)
  show "check_field_sections bs = Inr () \<longleftrightarrow>
      (\<exists>cs u. length cs = 4 \<and> bs = concat cs @ u \<and> (\<forall>w \<in> set cs. \<exists>k. is_vec w k) \<and>
         sections [65536, - 1, 65536] u)"
    unfolding check_field_sections_def try_bind_Inr_iff skip_controls_Inr check_limits_Inr limit by blast
  show "check_field_sections bs \<noteq> Inr () \<longrightarrow> check_field_sections bs = Inl BadRequest"
    by (cases "check_field_sections bs") (auto dest: decode_parts_bad(1))
  show "length cs = 4 \<and> (\<forall>w \<in> set cs. \<exists>k. is_vec w k) \<and> is_vec header i \<and> is_vec content j \<and> is_vec trailer k \<longrightarrow>
      (check_field_sections (concat cs @ header @ content @ trailer @ padding) = Inr () \<longleftrightarrow> i \<le> 65536 \<and> k \<le> 65536)"
  proof
    assume v: "length cs = 4 \<and> (\<forall>w \<in> set cs. \<exists>k. is_vec w k) \<and> is_vec header i \<and> is_vec content j \<and> is_vec trailer k"
    then have "skip_controls 4 (concat cs @ header @ content @ trailer @ padding) = Inr (header @ content @ trailer @ padding)"
      unfolding skip_controls_Inr by blast
    then have "check_field_sections (concat cs @ header @ content @ trailer @ padding) =
        check_limits [65536, - 1, 65536] (header @ content @ trailer @ padding)"
      by (simp add: check_field_sections_def limit del: check_limits.simps)
    moreover have "j \<le> unat (- 1 :: u64)" using v is_vec_word[of content j] by (metis word_le_nat_alt word_n1_ge)
    ultimately show "check_field_sections (concat cs @ header @ content @ trailer @ padding) = Inr () \<longleftrightarrow> i \<le> 65536 \<and> k \<le> 65536"
      using check_limits_is_vec[of header i] check_limits_is_vec[of content j] check_limits_is_vec[of trailer k] v
      by (simp del: check_limits.simps(2))
  qed
qed

theorem check_field_sections_spec_witness:
  "check_field_sections [1, 7, 0, 0, 1, 47, 0x80, 1, 0, 1] = Inl BadRequest"
proof -
  have "check_field_sections [1, 7, 0, 0, 1, 47, 0x80, 1, 0, 1] \<noteq> Inr ()" by code_simp
  then show ?thesis using check_field_sections_spec by blast
qed

text \<open>
  C24: What the decoder lets through.  A plaintext is decoded exactly when it starts with the
  known-length framing byte, passes the section bounds, is a BHTTP message with a valid method other
  than \<open>CONNECT\<close> and a path that starts with one slash, has no fragment and fits the URI limit, has no
  pseudo-header field, at most one content type and only valid values of content type and accept, and a
  content type when there is content.  The request then carries that method, path and content, that content type
  and all \<open>accept\<close> values in order, and nothing else of the message.  The refusal is 415 exactly when the
  only thing missing is the type of its content, and 400 in every other case.
\<close>
theorem decode_inner_spec:
  "(decode_inner P B pt = Inr r \<longleftrightarrow> carries P B pt r \<and> (ir_body r = [] \<or> ir_content_type r \<noteq> None))
   \<and> (decode_inner P B pt = Inl e \<longleftrightarrow>
        e = UnsupportedMediaType \<and> (\<exists>r. carries P B pt r \<and> ir_body r \<noteq> [] \<and> ir_content_type r = None) \<or>
        e = BadRequest \<and> (\<forall>r. \<not> carries P B pt r))"
proof -
  have ok: "decode_inner P B pt = Inr r \<longleftrightarrow> carries P B pt r \<and> (ir_body r = [] \<or> ir_content_type r \<noteq> None)" for r
    unfolding decode_inner_Inr carries_parts by blast
  have "decode_inner P B pt = Inl BadRequest \<longleftrightarrow> (\<forall>r. \<not> carries P B pt r)"
  proof (cases "decode_inner P B pt")
    case (Inl e')
    then have "e' = UnsupportedMediaType \<longleftrightarrow> (\<exists>r. carries P B pt r)"
      using ok decode_inner_415[of P B pt] by (metis Inl_Inr_False sum.inject(1))
    then show ?thesis using Inl decode_inner_Inl(1)[OF Inl] by auto
  qed (use ok in auto)
  then show ?thesis using ok decode_inner_415[of P B pt] decode_inner_Inl(1)[of P B pt e] by auto
qed

text \<open>
  C28: The batch count.  For a body that fits memory, it is the number of elements when the first byte
  that is not JSON whitespace opens an array that parses to at least one element, and 1 in every other
  case.  It is never 0, a count above 1 is at most half the length of the body, and the count is exact although
  the loop adds modulo \<open>2^64\<close>: the counter never wraps, so no batch is counted as a smaller one.
\<close>
theorem batch_size_spec:
  assumes "json_elements J" and "length body \<le> usize_max"
  shows "batch_size J body =
     (if find (\<lambda>b. b \<notin> {0x20, 0x09, 0x0A, 0x0D}) body = Some 0x5B \<and> json_seq_end J body then
        (case json_seq J body of
           Some seq \<Rightarrow> if Bad \<in> set seq \<or> seq = [] then 1 else length seq
         | None \<Rightarrow> 1)
      else 1)
   \<and> 1 \<le> batch_size J body \<and> batch_size J body \<le> max 1 (length body div 2)"
proof -
  have fits: "length seq mod (usize_max + 1) = length seq \<and> length seq \<le> length body div 2"
    if "json_seq J body = Some seq" "json_seq_end J body" "Bad \<notin> set seq" for seq
  proof (cases "seq = []")
    case False
    then have "2 * length seq + 1 \<le> length body" using assms(1) that unfolding json_elements_def by blast
    then show ?thesis using assms(2) by simp
  qed simp
  have "batch_size J body =
      (if find (\<lambda>b. b \<notin> {0x20, 0x09, 0x0A, 0x0D}) body = Some 0x5B \<and> json_seq_end J body then
        (case json_seq J body of
           Some seq \<Rightarrow> if Bad \<in> set seq \<or> seq = [] then 1 else length seq
         | None \<Rightarrow> 1)
       else 1)"
    using fits by (auto simp: batch_size_def deserialize_seq_eq split: option.splits)
  then show ?thesis using fits by (auto split: option.splits if_splits simp: Suc_le_eq le_max_iff_disj)
qed

theorem batch_size_spec_witness:
  "batch_size \<lparr>json_seq = (\<lambda>b. if length b < 5 then Some [] else Some [Elem, Elem]), json_seq_end = (\<lambda>_. True)\<rparr>
     [32, 91, 49, 44, 50, 93] = 2"
proof -
  let ?J = "\<lparr>json_seq = (\<lambda>b. if length b < 5 then Some [] else Some [Elem, Elem]), json_seq_end = (\<lambda>_ :: bytes. True)\<rparr>"
  have "json_elements ?J" by (auto simp: json_elements_def split: if_splits)
  moreover have "length [32, 91, 49, 44, 50, 93 :: byte] \<le> usize_max" by (simp add: usize_max_def)
  ultimately show ?thesis using batch_size_spec[of ?J "[32, 91, 49, 44, 50, 93]"] by simp
qed

end
