(* ===== verification/Client.thy ===== *)
theory Client
  imports Inner
begin

text \<open>
  The other end of the envelope, as the repository's own tests write it: the BHTTP encoder, the
  encapsulation and the opening of responses of \<open>src/src/confidential/tests.rs\<close>.  A failed \<open>assert!\<close>
  or \<open>expect\<close> is \<open>None\<close>.
\<close>

section \<open>BHTTP\<close>

definition varint :: "nat \<Rightarrow> bytes option" where
  "varint v =
     (if v < 2 ^ 6 then Some [of_nat v]
      else if v < 2 ^ 14 then Some (to_be_bytes 2 ((of_nat v :: u16) OR 0x4000))
      else if v < 2 ^ 30 then Some (to_be_bytes 4 ((of_nat v :: 32 word) OR 0x80000000))
      else None)"

definition vec_of :: "bytes \<Rightarrow> bytes option" where
  "vec_of bs = map_option (\<lambda>h. h @ bs) (varint (length bs))"

fun field_section :: "(bytes \<times> bytes) list \<Rightarrow> bytes option" where
  "field_section [] = Some []"
| "field_section ((name, value) # fs) =
     Option.bind (vec_of name) (\<lambda>n.
     Option.bind (vec_of value) (\<lambda>v.
     map_option (\<lambda>rest. n @ v @ rest) (field_section fs)))"

definition encode_request ::
  "bytes \<Rightarrow> bytes \<Rightarrow> bytes \<Rightarrow> bytes \<Rightarrow> bytes \<Rightarrow> (bytes \<times> bytes) list \<Rightarrow> bytes \<Rightarrow>
   (bytes \<times> bytes) list \<Rightarrow> bytes option" where
  "encode_request framing m scheme authority path fs body trailer =
     Option.bind (vec_of m) (\<lambda>c1.
     Option.bind (vec_of scheme) (\<lambda>c2.
     Option.bind (vec_of authority) (\<lambda>c3.
     Option.bind (vec_of path) (\<lambda>c4.
     Option.bind (Option.bind (field_section fs) vec_of) (\<lambda>s1.
     Option.bind (vec_of body) (\<lambda>s2.
     Option.bind (Option.bind (field_section trailer) vec_of) (\<lambda>s3.
       Some (framing @ c1 @ c2 @ c3 @ c4 @ s1 @ s2 @ s3))))))))"

definition bhttp_request :: "bytes \<Rightarrow> bytes \<Rightarrow> (bytes \<times> bytes) list \<Rightarrow> bytes \<Rightarrow> bytes option" where
  "bhttp_request m path fs body =
     encode_request [0x00] m (ascii ''https'') (ascii ''localhost'') path fs body []"

section \<open>Encapsulation\<close>

record client_ctx =
  cc_enc :: bytes
  cc_secret :: bytes

text \<open>The header and the HPKE info of the recorded test vector.\<close>

definition vector_hdr :: bytes where
  "vector_hdr = [0x00, 0x00, 0x20, 0x00, 0x01, 0x00, 0x02]"

definition vector_info :: bytes where
  "vector_info = ascii ''message/bhttp request'' @ [0x00] @ vector_hdr"

definition client_seal :: "'c hpke_api \<Rightarrow> bytes \<Rightarrow> bytes \<Rightarrow> bytes \<Rightarrow> (bytes \<times> client_ctx) option" where
  "client_seal H rnd pk_r plaintext =
     Option.bind (hpke_pk_from_bytes H pk_r) (\<lambda>pk.
     Option.bind (hpke_setup_sender H AesGcm256 rnd pk vector_info) (\<lambda>(enc, ctx).
     Option.bind (hpke_seal H ctx plaintext []) (\<lambda>ct.
     Option.bind (hpke_export H ctx (ascii ''message/bhttp response'') 32) (\<lambda>secret.
       Some (vector_hdr @ enc @ ct, \<lparr>cc_enc = enc, cc_secret = secret\<rparr>)))))"

definition open_response :: "aead_api \<Rightarrow> client_ctx \<Rightarrow> bytes \<Rightarrow> bytes option" where
  "open_response A ctx body =
     (if length body < 32 then None
      else
        let nonce = take 32 body; ct = drop 32 body;
            hk = hkdf_extract A (cc_enc ctx @ nonce) (cc_secret ctx)
        in Option.bind (hkdf_expand A hk (ascii ''key'') 32) (\<lambda>key.
           Option.bind (hkdf_expand A hk (ascii ''nonce'') 12) (\<lambda>aead_nonce.
           Option.bind (gcm_new_from_slice A AesGcm256 key) (\<lambda>cipher.
             gcm_decrypt A AesGcm256 cipher aead_nonce ct))))"

definition client_inner_response :: "aead_api \<Rightarrow> 'm bhttp \<Rightarrow> client_ctx \<Rightarrow> bytes \<Rightarrow> 'm option" where
  "client_inner_response A B ctx body = Option.bind (open_response A ctx body) (bh_read B)"

section \<open>The encoder meets the decoder\<close>

text \<open>What a length-prefixed format relies on: the decoder reads back each encoded length and leaves
  the rest of the input.\<close>

locale varint_codec =
  fixes enc :: "nat \<Rightarrow> bytes option" and dcd :: "bytes \<Rightarrow> (nat \<times> bytes) option" and bound :: nat
  assumes enc_total: "n < bound \<Longrightarrow> \<exists>h. enc n = Some h"
    and enc_bounded: "enc n = Some h \<Longrightarrow> n < bound"
    and dcd_enc: "enc n = Some h \<Longrightarrow> dcd (h @ t) = Some (n, t)"
begin

lemma enc_inj: "enc m = Some h \<Longrightarrow> enc n = Some h \<Longrightarrow> m = n"
  using dcd_enc[of m h "[]"] dcd_enc[of n h "[]"] by simp

text \<open>The encodings are prefix free, so a sequence of vectors is parsed in one way.\<close>

lemma enc_prefix_free:
  "enc m = Some h \<Longrightarrow> enc n = Some k \<Longrightarrow> h @ s = k @ t \<Longrightarrow> m = n \<and> s = t"
  using dcd_enc[of m h s] dcd_enc[of n k t] by simp

lemma vec_split:
  assumes "enc (length x) = Some h" and "enc (length y) = Some k" and "h @ x @ s = k @ y @ t"
  shows "x = y \<and> s = t"
  using enc_prefix_free[OF assms] assms(3) by (metis append_eq_append_conv)

end

lemma unat_drop_bit: "unat (drop_bit k (w :: 'a::len word)) = unat w div 2 ^ k"
  unfolding unsigned_drop_bit_eq take_bit_nat_eq_self[OF unsigned_less] by (rule drop_bit_eq_div)

lemma unat_ucast_byte: "unat (ucast (w :: 'a::len word) :: byte) = unat w mod 256"
  by (simp add: unsigned_ucast_eq take_bit_eq_mod)

lemma unat_and_63: "unat ((b :: byte) AND 0x3f) = unat b mod 64"
proof -
  have "b AND 0x3f = take_bit 6 b" by (simp add: take_bit_eq_mask mask_eq_exp_minus_1)
  then show ?thesis by (simp only: unsigned_take_bit_eq) (simp add: take_bit_eq_mod)
qed

lemma or_top_bit:
  assumes "n < 2 ^ j" and "j < LENGTH('a::len)"
  shows "unat ((of_nat n :: 'a word) OR push_bit j 1) = n + 2 ^ j"
proof -
  have "\<not> bit n j" using assms(1) by (simp add: bit_iff_odd)
  then have "(of_nat n :: 'a word) + push_bit j 1 = of_nat n OR push_bit j 1"
    by (intro disjunctive_add) (auto simp: bit_simps)
  moreover have "n + 2 ^ j < 2 ^ LENGTH('a)"
  proof -
    have "n + 2 ^ j < 2 ^ Suc j" using assms(1) by simp
    also have "\<dots> \<le> 2 ^ LENGTH('a)" using assms(2) by (intro power_increasing) simp_all
    finally show ?thesis .
  qed
  moreover have "(of_nat n :: 'a word) + push_bit j 1 = of_nat (n + 2 ^ j)"
    by (simp add: push_bit_eq_mult)
  ultimately have "(of_nat n :: 'a word) OR push_bit j 1 = of_nat (n + 2 ^ j)"
    and "n + 2 ^ j < 2 ^ LENGTH('a)" by simp_all
  then show ?thesis by (simp only: unsigned_of_nat take_bit_nat_eq_self of_nat_id)
qed

lemma digit_keep: "0 < m \<Longrightarrow> (n + c * 256 * m) div m mod 256 = n div (m :: nat) mod 256"
  by simp

lemma digit_join: "256 * (n div (m * 256)) + n div m mod 256 = n div (m :: nat)"
  by (metis div_mult2_eq mult_div_mod_eq)

lemma be_bytes_2: "to_be_bytes 2 (w :: u16) = [ucast (drop_bit 8 w), ucast w]"
  by (simp add: to_be_bytes_def to_le_bytes_def numeral_eq_Suc)

lemma be_bytes_4:
  "to_be_bytes 4 (w :: 32 word) =
     [ucast (drop_bit 24 w), ucast (drop_bit 16 w), ucast (drop_bit 8 w), ucast w]"
  by (simp add: to_be_bytes_def to_le_bytes_def numeral_eq_Suc)

lemma is_varint_2:
  assumes "unat (w :: u16) = n + 2 ^ 14" and "n < 2 ^ 14"
  shows "is_varint (to_be_bytes 2 w) n"
proof -
  have "(n + 2 ^ 14) div 2 ^ 8 = n div 256 + 64" "(n + 2 ^ 14) mod 256 = n mod 256"
    using digit_keep[of 1 n 64] by simp_all
  moreover have "n div 256 < 64" using assms(2) by simp
  moreover from this have "(n div 256 + 64) div 64 = 1" "(n div 256 + 64) mod 64 = n div 256" by simp_all
  moreover have "256 * (n div 256) + n mod 256 = n" by simp
  ultimately show ?thesis
    unfolding be_bytes_2
    by (simp add: unat_drop_bit unat_ucast_byte unat_and_63 be_value_def assms(1))
qed

lemma is_varint_4:
  assumes "unat (w :: 32 word) = n + 2 ^ 31" and "n < 2 ^ 30"
  shows "is_varint (to_be_bytes 4 w) n"
proof -
  have "(n + 2 ^ 31) div 2 ^ 24 = n div 2 ^ 24 + 128"
    using div_mult_self1[of "2 ^ 24" n 128] by simp
  moreover have "(n + 2 ^ 31) div 2 ^ 16 mod 256 = n div 2 ^ 16 mod 256"
    "(n + 2 ^ 31) div 2 ^ 8 mod 256 = n div 2 ^ 8 mod 256" "(n + 2 ^ 31) mod 256 = n mod 256"
    using digit_keep[of "2 ^ 16" n "2 ^ 7"] digit_keep[of "2 ^ 8" n "2 ^ 15"] digit_keep[of 1 n "2 ^ 23"]
    by simp_all
  moreover have "n div 2 ^ 24 < 64" using assms(2) by simp
  moreover from this have "(n div 2 ^ 24 + 128) div 64 = 2" "(n div 2 ^ 24 + 128) mod 64 = n div 2 ^ 24"
    "(n div 2 ^ 24 + 128) mod 256 = n div 2 ^ 24 + 128"
    using mod_mult_self1[of "n div 2 ^ 24" 2 64] div_mult_self1[of 64 "n div 2 ^ 24" 2] by simp_all
  moreover have "256 * (n div 2 ^ 24) + n div 2 ^ 16 mod 256 = n div 2 ^ 16"
    "256 * (n div 2 ^ 16) + n div 2 ^ 8 mod 256 = n div 2 ^ 8" "256 * (n div 2 ^ 8) + n mod 256 = n"
    using digit_join[of n "2 ^ 16"] digit_join[of n "2 ^ 8"] digit_join[of n 1] by simp_all
  ultimately show ?thesis
    unfolding be_bytes_4
    by (simp add: unat_drop_bit unat_ucast_byte unat_and_63 be_value_def assms(1))
qed

lemma varint_is_varint:
  assumes "varint n = Some h"
  shows "is_varint h n"
proof -
  consider "n < 2 ^ 6" "h = [of_nat n]"
    | "n < 2 ^ 14" "h = to_be_bytes 2 ((of_nat n :: u16) OR push_bit 14 1)"
    | "n < 2 ^ 30" "h = to_be_bytes 4 ((of_nat n :: 32 word) OR push_bit 31 1)"
    using assms by (auto simp: varint_def split: if_splits)
  then show ?thesis
  proof cases
    case 1
    then show ?thesis
      by (simp add: unat_drop_bit unat_and_63 be_value_def unsigned_of_nat take_bit_eq_mod)
  next
    case 2
    show ?thesis unfolding 2(2)
      using or_top_bit[where ?'a = 16, of n 14] 2(1) by (intro is_varint_2) simp_all
  next
    case 3
    show ?thesis unfolding 3(2)
      using or_top_bit[where ?'a = 32, of n 31] 3(1) by (intro is_varint_4) simp_all
  qed
qed

text \<open>The client's encoder and the sidecar's decoder are such a pair.\<close>

definition read_varint :: "bytes \<Rightarrow> (nat \<times> bytes) option" where
  "read_varint bs = (case take_varint bs of Inr (Some v, t) \<Rightarrow> Some (unat v, t) | _ \<Rightarrow> None)"

lemma varint_Some_iff: "(\<exists>h. varint n = Some h) \<longleftrightarrow> n < 2 ^ 30"
  by (auto simp: varint_def)

lemma take_varint_varint:
  assumes "varint n = Some h"
  shows "take_varint (h @ t) = Inr (Some (of_nat n), t)" and "unat (of_nat n :: u64) = n"
proof -
  have "n < 2 ^ 62" using is_varint_bound[OF varint_is_varint[OF assms]] by simp
  then show u: "unat (of_nat n :: u64) = n" by (simp add: unsigned_of_nat take_bit_eq_mod)
  show "take_varint (h @ t) = Inr (Some (of_nat n), t)"
    unfolding take_varint_Some u using varint_is_varint[OF assms] by blast
qed

interpretation quic: varint_codec varint read_varint "2 ^ 30"
proof
  show "n < 2 ^ 30 \<Longrightarrow> \<exists>h. varint n = Some h" for n by (simp add: varint_Some_iff)
  show "varint n = Some h \<Longrightarrow> n < 2 ^ 30" for n h using varint_Some_iff[of n] by blast
  show "varint n = Some h \<Longrightarrow> read_varint (h @ t) = Some (n, t)" for n h t
    by (simp add: read_varint_def take_varint_varint)
qed

lemma take_vec:
  assumes "vec_of d = Some w"
  shows "take_varint (w @ t) = Inr (Some (of_nat (length d)), d @ t)"
    "skip (d @ t) (of_nat (length d)) = Inr t" "unat (of_nat (length d) :: u64) = length d"
proof -
  obtain h where h: "varint (length d) = Some h" "w = h @ d"
    using assms by (auto simp: vec_of_def)
  show "take_varint (w @ t) = Inr (Some (of_nat (length d)), d @ t)"
    "unat (of_nat (length d) :: u64) = length d"
    using take_varint_varint(1)[OF h(1), of "d @ t"] take_varint_varint(2)[OF h(1)] h(2) by simp_all
  then show "skip (d @ t) (of_nat (length d)) = Inr t" by (simp add: skip_code)
qed

lemma skip_controls_vec: "vec_of d = Some w \<Longrightarrow> skip_controls (Suc n) (w @ t) = skip_controls n t"
  using take_vec(1,2)[of d w t] by simp

lemma check_limits_vec:
  "vec_of d = Some w \<Longrightarrow>
     check_limits (l # ls) (w @ t) = (if unat l < length d then Inl BadRequest else check_limits ls t)"
  using take_vec(1,2)[of d w t] take_vec(3)[of d w] by (simp add: word_less_nat_alt)

lemma encode_request_Some:
  "encode_request framing m scheme authority path fs body trailer = Some out \<longleftrightarrow>
     (\<exists>c1 c2 c3 c4 hs s1 s2 ts s3. vec_of m = Some c1 \<and> vec_of scheme = Some c2 \<and>
        vec_of authority = Some c3 \<and> vec_of path = Some c4 \<and>
        field_section fs = Some hs \<and> vec_of hs = Some s1 \<and> vec_of body = Some s2 \<and>
        field_section trailer = Some ts \<and> vec_of ts = Some s3 \<and>
        out = framing @ c1 @ c2 @ c3 @ c4 @ s1 @ s2 @ s3)"
  by (auto simp: encode_request_def bind_eq_Some_conv)

section \<open>The two sides of the envelope\<close>

lemma vector_constants: "vector_hdr = hdr ConfidentialSuite" "vector_info = hpke_info ConfidentialSuite"
  "ascii ''message/bhttp response'' = RESPONSE_LABEL"
  by (simp_all add: vector_hdr_def vector_info_def hpke_info_def ConfidentialSuite_def REQUEST_LABEL_def
      RESPONSE_LABEL_def)

text \<open>The response context that matches a client's.\<close>

definition ctx_matches :: "aead_api \<Rightarrow> client_ctx \<Rightarrow> response_context \<Rightarrow> bool" where
  "ctx_matches A cc ctx \<longleftrightarrow>
     length (cc_enc cc) = 32 \<and> length (cc_secret cc) = 32 \<and>
     ctx = \<lparr>rc_enc = cc_enc cc, rc_secret = cc_secret cc, rc_secret_len = 32,
            rc_seal = seal_response A ConfidentialSuite\<rparr>"

lemma ctx_matches_wf: "ctx_matches A cc ctx \<Longrightarrow> ctx_wf ctx \<and> rc_secret_len ctx = 32"
  by (simp add: ctx_matches_def ctx_wf_def envelope_consts)

lemma open_client_seal:
  assumes "hpke_correct H sk" and "client_seal H rnd (hpke_sk_to_pk H sk) pt = Some (body, cc)"
  obtains ctx where "open_request H A sk body = Inr (pt, ctx)" and "ctx_matches A cc ctx"
proof -
  obtain enc s ct x where snd: "hpke_setup_sender H AesGcm256 rnd (hpke_sk_to_pk H sk) vector_info = Some (enc, s)"
      "hpke_seal H s pt [] = Some ct" "hpke_export H s RESPONSE_LABEL 32 = Some x"
      and out: "body = vector_hdr @ enc @ ct" "cc = \<lparr>cc_enc = enc, cc_secret = x\<rparr>"
    using assms by (auto simp: client_seal_def hpke_correct_def bind_eq_Some_conv vector_constants)
  have sk: "hpke_sk_from_bytes H sk = Some sk" using assms(1) unfolding hpke_correct_def by blast
  have recv: "length enc = 32" "hpke_enc_from_bytes H enc = Some enc"
    "\<exists>r. hpke_setup_receiver H AesGcm256 sk enc vector_info = Some r \<and>
       (\<forall>pt aad ct. hpke_seal H s pt aad = Some ct \<longrightarrow>
          length ct = length pt + 16 \<and> hpke_open H r ct aad = Some pt) \<and>
       (\<forall>l n x. hpke_export H s l n = Some x \<longrightarrow> length x = n \<and> hpke_export H r l n = Some x)"
    using assms(1) snd(1) unfolding hpke_correct_def by blast+
  then obtain r where r: "hpke_setup_receiver H AesGcm256 sk enc vector_info = Some r"
      "length ct = length pt + 16" "hpke_open H r ct [] = Some pt"
      "length x = 32" "hpke_export H r RESPONSE_LABEL 32 = Some x"
    using snd by blast
  show thesis
  proof (rule that)
    show "open_request H A sk body = Inr (pt, \<lparr>rc_enc = enc, rc_secret = x, rc_secret_len = 32,
        rc_seal = seal_response A ConfidentialSuite\<rparr>)"
      using sk recv(1,2) r info_buffer[OF hdr_suites(1)]
      by (simp add: open_request_def open_suite_def out vector_constants envelope_consts Let_def
          overwrite_all)
    show "ctx_matches A cc \<lparr>rc_enc = enc, rc_secret = x, rc_secret_len = 32,
        rc_seal = seal_response A ConfidentialSuite\<rparr>"
      using recv(1) r(4) by (simp add: ctx_matches_def out)
  qed
qed

lemma open_sealed_response:
  assumes "ctx_matches A cc ctx" and "hkdf_total A" and "gcm_correct A AesGcm256"
    and "gcm_key_size A AesGcm256 = 32" and "length nonce = 32"
  obtains out where "seal_in_place ctx (nonce @ msg) = (out, Inr ())" "seal ctx nonce msg = Inr out"
    "open_response A cc out = Some msg" "length out = 32 + length msg + 16" "take 32 out = nonce"
proof -
  let ?salt = "rc_enc ctx @ nonce"
  note wf = ctx_matches_wf[OF assms(1)]
  have ctx: "rc_enc ctx = cc_enc cc" "rc_secret ctx = cc_secret cc" "length (cc_secret cc) = 32"
    "rc_seal ctx = seal_response A ConfidentialSuite"
    using assms(1) by (simp_all add: ctx_matches_def)
  have off: "32 \<le> length (nonce @ msg)" and size: "gcm_key_size A (gcm ConfidentialSuite) \<le> 32"
    and gcm: "gcm_correct A (gcm ConfidentialSuite)"
    using assms by simp_all
  obtain k n ct tag where
    keys: "response_keys A ConfidentialSuite ?salt (cc_secret cc) = Some (k, n)"
    and sealed: "seal_response A ConfidentialSuite ?salt (cc_secret cc) (nonce @ msg) 32 =
      (take 32 (nonce @ msg) @ ct @ tag, Inr ())"
    and len: "length ct = length (nonce @ msg) - 32" "length tag = TAG_LEN"
    and dec: "gcm_decrypt A (gcm ConfidentialSuite) k n (ct @ tag) = Some (drop 32 (nonce @ msg))"
    and new: "gcm_new_from_slice A (gcm ConfidentialSuite) k = Some k" and "length n = 12"
    by (rule seal_response_ok[OF assms(2) gcm size off])
  have buf: "seal_in_place ctx (nonce @ msg) = (nonce @ ct @ tag, Inr ())"
    unfolding seal_in_place_Inr
    using seal_buf_eq[of ctx nonce msg] wf sealed ctx assms(5) by simp
  show thesis
  proof (rule that[OF buf])
    show "seal ctx nonce msg = Inr (nonce @ ct @ tag)"
      unfolding seal_Inr_iff using buf wf assms(5) by simp
    show "open_response A cc (nonce @ ct @ tag) = Some msg"
      using keys dec new assms(4,5) ctx(1)
      by (auto simp: open_response_def response_keys_def Let_def bind_eq_Some_conv split: option.splits)
  qed (use len assms(5) in \<open>simp_all add: envelope_consts\<close>)
qed

section \<open>Properties\<close>

text \<open>
  C26: The client's variable-length integers are total up to 30 bits, the sidecar's decoder reads
  each back and leaves exactly the bytes that follow it, and the encodings are prefix free, so a
  concatenation of length-prefixed vectors splits in one way.
\<close>
theorem varint_roundtrip:
  "((\<exists>h. varint n = Some h) \<longleftrightarrow> n < 2 ^ 30)
   \<and> (varint n = Some h \<longrightarrow> take_varint (h @ t) = Inr (Some (of_nat n), t) \<and> unat (of_nat n :: u64) = n)
   \<and> (varint (length x) = Some h \<and> varint (length y) = Some k \<and> h @ x @ s = k @ y @ t \<longrightarrow> x = y \<and> s = t)"
  using varint_Some_iff take_varint_varint quic.vec_split by blast

theorem varint_roundtrip_witness:
  "take_varint ([0x40, 0x64] @ [9]) = Inr (Some 100, [9])"
proof -
  have "varint 100 = Some [0x40, 0x64]" by code_simp
  then show ?thesis using varint_roundtrip[of 100 "[0x40, 0x64]" "[9]" "[]" "[]" "[]" "[]"] by simp
qed

text \<open>
  A client's request passes the sidecar's section check exactly when its header section and its
  trailer section have at most 64 KiB each, whatever the sizes of its control data and content.
\<close>
theorem encode_request_sections:
  assumes "encode_request framing m scheme authority path fs body trailer = Some out"
    and "field_section fs = Some hs" and "field_section trailer = Some ts"
  shows "\<exists>bs. out = framing @ bs \<and>
    check_field_sections bs =
      (if length hs \<le> 65536 \<and> length ts \<le> 65536 then Inr () else Inl BadRequest)"
proof -
  obtain c1 c2 c3 c4 s1 s2 s3 where w: "vec_of m = Some c1" "vec_of scheme = Some c2"
      "vec_of authority = Some c3" "vec_of path = Some c4" "vec_of hs = Some s1"
      "vec_of body = Some s2" "vec_of ts = Some s3"
      and out: "out = framing @ c1 @ c2 @ c3 @ c4 @ s1 @ s2 @ s3"
    using assms unfolding encode_request_Some by auto
  have controls: "skip_controls 4 (c1 @ c2 @ c3 @ c4 @ s1 @ s2 @ s3) = Inr (s1 @ s2 @ s3)"
  proof -
    have "(4 :: nat) = Suc (Suc (Suc (Suc 0)))" by simp
    then show ?thesis
      by (simp only: w(1-4)[THEN skip_controls_vec] skip_controls.simps(1))
  qed
  have "length body \<le> usize_max" using take_vec(3)[OF w(6)] unat_u64 by metis
  then have "\<not> unat (- 1 :: u64) < length body"
    by (simp add: unsigned_minus_1_eq_mask mask_eq_exp_minus_1 usize_max_def)
  moreover have "check_limits [65536] s3 = (if 65536 < length ts then Inl BadRequest else Inr ())"
    using check_limits_vec[OF w(7), of 65536 "[]" "[]"] by (simp del: check_limits.simps(2))
  ultimately have "check_field_sections (c1 @ c2 @ c3 @ c4 @ s1 @ s2 @ s3) =
      (if length hs \<le> 65536 \<and> length ts \<le> 65536 then Inr () else Inl BadRequest)"
    unfolding check_field_sections_def controls try_bind.simps
    by (simp add: check_limits_vec[OF w(5)] check_limits_vec[OF w(6)]
        MAX_FIELD_SECTION_BYTES_def not_less del: check_limits.simps(2))
  then show ?thesis using out by blast
qed

theorem encode_request_sections_witness:
  "\<exists>bs. [0, 4, 80, 79, 83, 84, 0, 0, 1, 47, 3, 1, 97, 0, 1, 7, 0] = [0] @ bs \<and>
     check_field_sections bs = (if length ([1, 97, 0] :: bytes) \<le> 65536 \<and> length ([] :: bytes) \<le> 65536
       then Inr () else Inl BadRequest)"
proof (rule encode_request_sections)
  show "encode_request [0] (ascii ''POST'') [] [] (ascii ''/'') [(ascii ''a'', [])] [7] [] =
      Some [0, 4, 80, 79, 83, 84, 0, 0, 1, 47, 3, 1, 97, 0, 1, 7, 0]"
    by code_simp
qed code_simp+

text \<open>
  C21: The envelope round trip.  What a client encapsulates for the sidecar's key the sidecar opens to
  the same plaintext, and whatever response the sidecar seals with the context of that request, under
  any 32-byte nonce, the client opens to the same bytes; a sealed response is the nonce, the
  ciphertext and the 16-byte tag.
\<close>
theorem envelope_roundtrip:
  assumes "hpke_correct H sk" and "hkdf_total A" and "gcm_correct A AesGcm256"
    and "gcm_key_size A AesGcm256 = 32"
    and "client_seal H rnd (hpke_sk_to_pk H sk) pt = Some (body, cc)"
  shows "\<exists>ctx. open_request H A sk body = Inr (pt, ctx) \<and>
    (\<forall>nonce msg. length nonce = 32 \<longrightarrow>
       (\<exists>out. seal ctx nonce msg = Inr out \<and> open_response A cc out = Some msg \<and>
          take 32 out = nonce \<and> length out = 32 + length msg + 16))"
proof -
  obtain ctx where ctx: "open_request H A sk body = Inr (pt, ctx)" "ctx_matches A cc ctx"
    using open_client_seal[OF assms(1,5)] .
  have "\<exists>out. seal ctx nonce msg = Inr out \<and> open_response A cc out = Some msg \<and>
      take 32 out = nonce \<and> length out = 32 + length msg + 16" if "length nonce = 32" for nonce msg
    using open_sealed_response[OF ctx(2) assms(2-4) that, of msg] by blast
  then show ?thesis using ctx(1) by blast
qed

theorem envelope_roundtrip_witness:
  "\<exists>ctx. open_request demo_hpke demo_aead [] (vector_hdr @ pad 32 [5] @ [1, 2] @ replicate 16 7) = Inr ([1, 2], ctx) \<and>
     (\<exists>out. seal ctx (replicate 32 3) [8, 9] = Inr out \<and>
        open_response demo_aead \<lparr>cc_enc = pad 32 [5], cc_secret = pad 32 (pad 32 [5] @ vector_info)\<rparr> out = Some [8, 9])"
proof -
  have "client_seal demo_hpke [5] (hpke_sk_to_pk demo_hpke []) [1, 2] =
      Some (vector_hdr @ pad 32 [5] @ [1, 2] @ replicate 16 7,
        \<lparr>cc_enc = pad 32 [5], cc_secret = pad 32 (pad 32 [5] @ vector_info)\<rparr>)"
    by (simp add: client_seal_def demo_hpke_def)
  moreover have "gcm_key_size demo_aead AesGcm256 = 32" by (simp add: demo_aead_def)
  moreover have "length (replicate 32 (3 :: byte)) = 32" by simp
  ultimately show ?thesis
    using envelope_roundtrip[OF demo_hpke_correct demo_aead_laws(1) demo_aead_laws(2)] by blast
qed

end
