(* ===== verification/Bhttp_Instance.thy ===== *)
theory Bhttp_Instance
  imports Client
begin

text \<open>
  A known-length BHTTP codec (RFC 9292) for the parameter \<open>B\<close> of the model, with the laws the theorems
  assume of the \<open>bhttp\<close> crate, and small values for the other parameters of the confidential path;
  the witnesses of its theorems evaluate the model on them.
\<close>

section \<open>Reading\<close>

record demo_msg =
  dm_method :: "bytes option"
  dm_path :: "bytes option"
  dm_status :: "nat option"
  dm_fields :: "(bytes \<times> bytes) list"
  dm_content :: bytes

definition read_vec :: "bytes \<Rightarrow> (bytes \<times> bytes) option" where
  "read_vec bs = Option.bind (read_varint bs) (\<lambda>(n, r).
     if n \<le> length r then Some (take n r, drop n r) else None)"

text \<open>A section that is missing at the end of the input is empty.\<close>

definition read_section :: "bytes \<Rightarrow> (bytes \<times> bytes) option" where
  "read_section bs = (if bs = [] then Some ([], []) else read_vec bs)"

fun read_fields :: "nat \<Rightarrow> bytes \<Rightarrow> (bytes \<times> bytes) list option" where
  "read_fields n [] = Some []"
| "read_fields 0 (b # bs) = None"
| "read_fields (Suc n) (b # bs) =
     Option.bind (read_vec (b # bs)) (\<lambda>(name, r).
     Option.bind (read_vec r) (\<lambda>(v, r). map_option (Cons (name, v)) (read_fields n r)))"

definition read_tail :: "bytes option \<Rightarrow> bytes option \<Rightarrow> nat option \<Rightarrow> bytes \<Rightarrow> demo_msg option" where
  "read_tail m p s bs =
     Option.bind (read_section bs) (\<lambda>(h, r).
     Option.bind (read_section r) (\<lambda>(c, r).
     map_option (\<lambda>fs. \<lparr>dm_method = m, dm_path = p, dm_status = s, dm_fields = fs, dm_content = c\<rparr>)
       (read_fields (length h) h)))"

definition demo_read :: "bytes \<Rightarrow> demo_msg option" where
  "demo_read bs =
     (case bs of
        [] \<Rightarrow> None
      | b # r \<Rightarrow>
          if b = 0 then
            Option.bind (read_vec r) (\<lambda>(m, r). Option.bind (read_vec r) (\<lambda>(sch, r).
            Option.bind (read_vec r) (\<lambda>(a, r). Option.bind (read_vec r) (\<lambda>(p, r).
              read_tail (Some m) (Some p) None r))))
          else if b = 1 then
            Option.bind (read_varint r) (\<lambda>(s, r). read_tail None None (Some s) r)
          else None)"

section \<open>Writing\<close>

definition demo_encode :: "demo_msg \<Rightarrow> bytes option" where
  "demo_encode m =
     Option.bind (dm_status m) (\<lambda>s.
     Option.bind (varint s) (\<lambda>st.
     Option.bind (Option.bind (field_section (dm_fields m)) vec_of) (\<lambda>h.
     Option.bind (vec_of (dm_content m)) (\<lambda>c. Some ([1] @ st @ h @ c @ [0])))))"

definition demo_bhttp :: "demo_msg bhttp" where
  "demo_bhttp =
     \<lparr>bh_read = demo_read, bh_method = dm_method, bh_path = dm_path, bh_status = dm_status,
      bh_fields = dm_fields, bh_content = dm_content,
      bh_status_code = (\<lambda>s. if 100 \<le> s \<and> s \<le> 599 then Some s else None),
      bh_response = (\<lambda>s. \<lparr>dm_method = None, dm_path = None, dm_status = Some s, dm_fields = [], dm_content = []\<rparr>),
      bh_put_header = (\<lambda>m n v. m\<lparr>dm_fields := dm_fields m @ [(n, v)]\<rparr>),
      bh_write_content = (\<lambda>m d. m\<lparr>dm_content := dm_content m @ d\<rparr>),
      bh_write = (\<lambda>m. case demo_encode m of None \<Rightarrow> ([], False) | Some bs \<Rightarrow> ([bs], True))\<rparr>"

lemma demo_builder: "bhttp_builder demo_bhttp"
  by (simp add: bhttp_builder_def demo_bhttp_def)

lemma read_vec_of: "vec_of d = Some w \<Longrightarrow> read_vec (w @ t) = Some (d, t)"
  by (auto simp: vec_of_def read_vec_def quic.dcd_enc)

lemma vec_of_nonempty: "vec_of d = Some w \<Longrightarrow> w \<noteq> []"
  using varint_is_varint is_varint_bound by (fastforce simp: vec_of_def)

lemma read_fields_section:
  "field_section fs = Some bs \<Longrightarrow> length fs \<le> n \<Longrightarrow> read_fields n bs = Some fs"
proof (induction fs arbitrary: bs n rule: field_section.induct)
  case (2 name v fs)
  then obtain a b rest m where *: "vec_of name = Some a" "vec_of v = Some b" "field_section fs = Some rest"
      "bs = a @ b @ rest" "n = Suc m" "length fs \<le> m"
    by (cases n) (auto simp: bind_eq_Some_conv)
  then obtain x xs where "bs = x # xs" using vec_of_nonempty[OF *(1)] by (cases a) auto
  then show ?case using 2(1) * read_vec_of[OF *(1), of "b @ rest"] read_vec_of[OF *(2), of rest] by simp
qed auto

lemma field_section_length: "field_section fs = Some bs \<Longrightarrow> length fs \<le> length bs"
proof (induction fs arbitrary: bs rule: field_section.induct)
  case (2 name v fs)
  then obtain a b rest where *: "vec_of name = Some a" "bs = a @ b @ rest" "length fs \<le> length rest"
    by (auto simp: bind_eq_Some_conv)
  then show ?case using vec_of_nonempty[OF *(1)] by (cases a) simp_all
qed simp

lemma demo_roundtrip: "bhttp_roundtrip demo_bhttp"
proof -
  have "\<exists>m'. demo_read bs = Some m' \<and> dm_status m' = dm_status m \<and> dm_fields m' = dm_fields m \<and>
      dm_content m' = dm_content m" if enc: "demo_encode m = Some bs" for m bs
  proof -
    obtain s st hs h c where *: "dm_status m = Some s" "varint s = Some st"
        "field_section (dm_fields m) = Some hs" "vec_of hs = Some h" "vec_of (dm_content m) = Some c"
        "bs = 1 # st @ h @ c @ [0]"
      using enc by (auto simp: demo_encode_def bind_eq_Some_conv)
    have "read_varint (st @ h @ c @ [0]) = Some (s, h @ c @ [0])" using *(2) by (rule quic.dcd_enc)
    moreover have "read_section (h @ c @ [0]) = Some (hs, c @ [0])" "read_section (c @ [0]) = Some (dm_content m, [0])"
      using read_vec_of[OF *(4), of "c @ [0]"] read_vec_of[OF *(5), of "[0]"] by (simp_all add: read_section_def)
    moreover have "read_fields (length hs) hs = Some (dm_fields m)"
      using read_fields_section[OF *(3) field_section_length[OF *(3)]] .
    ultimately show ?thesis using * by (simp add: demo_read_def read_tail_def)
  qed
  then show ?thesis by (auto simp: bhttp_roundtrip_def demo_bhttp_def split: option.splits)
qed

section \<open>Sample values\<close>

definition demo_plaintext :: bytes where
  "demo_plaintext = [0, 4, 80, 79, 83, 84, 0, 0, 2, 47, 97, 15] @
     [12] @ ascii ''content-type'' @ [1, 106] @ [2, 91, 93]"

definition demo_inner :: inner_request where
  "demo_inner = \<lparr>ir_method = ascii ''POST'', ir_path_and_query = [47, 97], ir_content_type = Some [106],
     ir_accept = [], ir_body = [91, 93]\<rparr>"

definition demo_config :: confidential_config where
  "demo_config = \<lparr>max_request_bytes = 200, max_response_bytes = 100, max_batch_size = 2,
     upstream_timeout = 25\<rparr>"

definition demo_json :: json_api where
  "demo_json = \<lparr>json_seq = (\<lambda>body. Some (replicate (length body) Elem)), json_seq_end = (\<lambda>_. True)\<rparr>"

definition demo_message :: demo_msg where
  "demo_message = \<lparr>dm_method = Some (ascii ''POST''), dm_path = Some [47, 97], dm_status = None,
     dm_fields = [(ascii ''content-type'', [106])], dm_content = [91, 93]\<rparr>"

lemma demo_decodes: "decode_inner demo_http demo_bhttp demo_plaintext = Inr demo_inner"
proof -
  have "demo_plaintext = 0 # tl demo_plaintext" "check_field_sections (tl demo_plaintext) = Inr ()"
    "bh_read demo_bhttp demo_plaintext = Some demo_message"
    "inner_method demo_http demo_bhttp demo_message = Inr (ir_method demo_inner)"
    "inner_fields_of demo_http demo_bhttp demo_message =
       Inr \<lparr>if_content_type = ir_content_type demo_inner, if_accept = ir_accept demo_inner\<rparr>"
    "take 1 (ir_path_and_query demo_inner) = ascii ''/'' \<and> take 2 (ir_path_and_query demo_inner) \<noteq> ascii ''//''"
    by code_simp+
  moreover from this(6) have "inner_path demo_bhttp demo_message = Inr (ir_path_and_query demo_inner)"
    by (simp add: inner_path_Inr) (simp add: demo_bhttp_def demo_message_def demo_inner_def)
  moreover have "ir_body demo_inner = bh_content demo_bhttp demo_message" "ir_content_type demo_inner \<noteq> None"
    by (simp_all add: demo_bhttp_def demo_message_def demo_inner_def)
  ultimately show ?thesis unfolding decode_inner_Inr by blast
qed

theorem decode_inner_spec_witness:
  "carries demo_http demo_bhttp demo_plaintext demo_inner \<and> decode_inner demo_http demo_bhttp [1] = Inl BadRequest"
proof -
  have "carries demo_http demo_bhttp demo_plaintext demo_inner"
    using demo_decodes decode_inner_spec[of demo_http demo_bhttp demo_plaintext demo_inner BadRequest] by blast
  moreover have "\<forall>r. \<not> carries demo_http demo_bhttp [1] r" by (simp add: carries_def)
  ultimately show ?thesis
    using decode_inner_spec[of demo_http demo_bhttp "[1]" demo_inner BadRequest] by blast
qed

text \<open>A node that answers every request with two bytes.\<close>

definition demo_node :: runtime where
  "demo_node = demo_runtime\<lparr>network := \<lambda>r. Ready 5 (Inr
     \<lparr>ur_status = 200, ur_headers = [(''content-type'', [106])], ur_size_lower = 2,
      ur_body = Next 1 (Data [1]) (Next 1 (Data [2]) (Eof 0))\<rparr>)\<rparr>"

end
