(* ===== verification/Upstream_Call.thy ===== *)
theory Upstream_Call
  imports Bhttp_Instance
begin

text \<open>
  \<open>src/src/confidential/upstream.rs\<close>: the bounded upstream leg of \<open>/confidential\<close>.  One request goes out
  and one response is read frame by frame under a cap and a timeout.  \<open>T\<close> is the timer of \<open>tokio\<close>;
  times and durations are in nanoseconds.
\<close>

section \<open>Sending and reading\<close>

text \<open>\<open>UpstreamClient::send\<close>.\<close>

definition client_send :: "runtime \<Rightarrow> up_request \<Rightarrow> (unit + up_response) io" where
  "client_send R up_req = ([up_req], network R up_req)"

text \<open>The frame loop of \<open>read_upstream\<close>.\<close>

fun read_frames :: "'m bhttp \<Rightarrow> nat \<Rightarrow> nat \<Rightarrow> 'm \<Rightarrow> body \<Rightarrow> (inner_error + 'm) fut" where
  "read_frames B cap tot msg (Eof d) = Ready d (Inr msg)"
| "read_frames B cap tot msg Stalled = Never"
| "read_frames B cap tot msg (Next d Broken b) = Ready d (Inl Upstream)"
| "read_frames B cap tot msg (Next d (Trailers hs) b) =
     await (Ready d ()) (\<lambda>_. read_frames B cap tot msg b)"
| "read_frames B cap tot msg (Next d (Data data) b) =
     (let tot = saturating_add tot (length data) in
      if cap < tot then Ready d (Inl Upstream)
      else await (Ready d ()) (\<lambda>_. read_frames B cap tot (bh_write_content B msg data) b))"

definition read_upstream ::
  "'m bhttp \<Rightarrow> runtime \<Rightarrow> nat \<Rightarrow> up_request \<Rightarrow> (inner_error + nat \<times> 'm) io" where
  "read_upstream B R cap up_req =
     io_try (io_map (map_err (\<lambda>_. Upstream)) (client_send R up_req)) (\<lambda>resp.
       let status = ur_status resp in
       if \<not> (200 \<le> status \<and> status \<le> 599) \<or>
          list_ex (\<lambda>v. \<not> eq_ignore_ascii_case v (ascii ''identity''))
            (get_all ''content-encoding'' (ur_headers resp)) \<or>
          cap < ur_size_lower resp
       then io_ret (Inl Upstream)
       else
         case bh_status_code B status of
           None \<Rightarrow> io_ret (Inl Internal)
         | Some code \<Rightarrow>
             let msg = foldl (\<lambda>m v. bh_put_header B m (ascii ''content-type'') v)
                         (bh_response B code) (get_all ''content-type'' (ur_headers resp))
             in io_map (\<lambda>r. try_bind r (\<lambda>msg. Inr (status, msg)))
                  (io_fut (read_frames B cap 0 msg (ur_body resp))))"

definition call_upstream ::
  "http_api \<Rightarrow> 'm bhttp \<Rightarrow> runtime \<Rightarrow> (inner_error + nat \<times> 'm) tokio \<Rightarrow> upstream_client \<Rightarrow>
   confidential_config \<Rightarrow> inner_request \<Rightarrow> (inner_error + nat \<times> 'm) io" where
  "call_upstream P B R T c cfg inner =
     io_try (io_ret (ok_or (origin_path_and_query P c (ir_path_and_query inner)) BadRequest)) (\<lambda>path_and_query.
     io_try (io_ret (ok_or (origin_uri P c path_and_query) Internal)) (\<lambda>u.
       let hs = (case ir_content_type inner of None \<Rightarrow> [] | Some v \<Rightarrow> [(''content-type'', v)])
                @ map (\<lambda>v. (''accept'', v)) (ir_accept inner)
                @ [(''accept-encoding'', ascii ''identity'')]
       in
         if \<not> request_build_ok P (ir_method inner) u hs then io_ret (Inl Internal)
         else
           let call = read_upstream B R (max_response_bytes cfg)
                 \<lparr>up_method = ir_method inner, up_uri = u, up_headers = hs, up_body = ir_body inner\<rparr>
           in io_map (\<lambda>r. case r of Some x \<Rightarrow> x | None \<Rightarrow> Inl UpstreamTimeout)
                (fst call, timeout T (upstream_timeout cfg) (snd call))))"

section \<open>The frame loop\<close>

text \<open>What the loop reads is the whole body, and never more than the cap.\<close>

lemma read_frames_ok:
  assumes "read_frames B cap tot msg b = Ready t (Inr msg')" and "bhttp_builder B"
  shows "\<exists>d. body_data b = Some d \<and> bh_content B msg' = bh_content B msg @ d \<and>
    bh_status B msg' = bh_status B msg \<and> bh_fields B msg' = bh_fields B msg \<and>
    (cap < usize_max \<longrightarrow> tot \<le> cap \<longrightarrow> tot + length d \<le> cap)"
  using assms
proof (induction B cap tot msg b arbitrary: t rule: read_frames.induct)
  case (5 B cap tot msg d data b)
  let ?tot = "saturating_add tot (length data)"
  have ok: "\<not> cap < ?tot"
    and rest: "\<exists>t'. read_frames B cap ?tot (bh_write_content B msg data) b = Ready t' (Inr msg')"
    using 5(2) by (auto simp: Let_def await_Ready_iff split: if_splits fut.splits)
  obtain x where x: "body_data b = Some x"
      "bh_content B msg' = bh_content B (bh_write_content B msg data) @ x"
      "bh_status B msg' = bh_status B (bh_write_content B msg data)"
      "bh_fields B msg' = bh_fields B (bh_write_content B msg data)"
      "cap < usize_max \<longrightarrow> ?tot \<le> cap \<longrightarrow> ?tot + length x \<le> cap"
    using 5(1)[OF refl ok _ 5(3)] rest by blast
  have "cap < usize_max \<longrightarrow> ?tot = tot + length data"
    using ok by (auto simp: saturating_add_def)
  then show ?case using x ok 5(3) by (auto simp: bhttp_builder_def not_less)
qed (auto simp: await_Ready_iff split: fut.splits)

lemma read_frames_err: "read_frames B cap tot msg b = Ready t (Inl e) \<Longrightarrow> e = Upstream"
  by (induction B cap tot msg b arbitrary: t rule: read_frames.induct)
     (auto simp: Let_def await_Ready_iff split: if_splits fut.splits)

lemma read_frames_complete:
  assumes "body_data b = Some d" and "tot + length d \<le> cap" and "cap \<le> usize_max"
  shows "\<exists>t msg'. read_frames B cap tot msg b = Ready t (Inr msg')"
  using assms
proof (induction B cap tot msg b arbitrary: d rule: read_frames.induct)
  case (5 B cap tot msg e data b)
  obtain y where y: "body_data b = Some y" "d = data @ y" using 5(2) by auto
  have tot: "saturating_add tot (length data) = tot + length data"
    using 5(3,4) y by (simp add: saturating_add_def)
  have "\<exists>t msg'. read_frames B cap (saturating_add tot (length data)) (bh_write_content B msg data) b = Ready t (Inr msg')"
    using 5(1)[OF refl _ y(1)] 5(3,4) y(2) unfolding tot by simp
  then show ?case using 5(3) y(2) by (auto simp: tot)
qed (auto split: fut.splits)

text \<open>The header entries of a relayed message.\<close>

lemma put_headers:
  assumes "bhttp_builder B"
  shows "bh_fields B (foldl (\<lambda>m v. bh_put_header B m n v) msg vs) = bh_fields B msg @ map (\<lambda>v. (n, v)) vs
    \<and> bh_status B (foldl (\<lambda>m v. bh_put_header B m n v) msg vs) = bh_status B msg
    \<and> bh_content B (foldl (\<lambda>m v. bh_put_header B m n v) msg vs) = bh_content B msg"
  using assms by (induction vs arbitrary: msg) (simp_all add: bhttp_builder_def)

definition relayable :: "nat \<Rightarrow> up_response \<Rightarrow> bool" where
  "relayable cap up \<longleftrightarrow>
     200 \<le> ur_status up \<and> ur_status up \<le> 599 \<and> ur_size_lower up \<le> cap \<and>
     list_all (\<lambda>v. eq_ignore_ascii_case v (ascii ''identity'')) (get_all ''content-encoding'' (ur_headers up))"

lemma read_upstream_sends: "sends (read_upstream B R cap r) = [r]"
  by (auto simp: read_upstream_def client_send_def sends_try Let_def split: option.splits sum.splits)

lemma read_upstream_outcome:
  "outcome (read_upstream B R cap r) =
     (case network R r of
        Never \<Rightarrow> None
      | Ready _ (Inl _) \<Rightarrow> Some (Inl Upstream)
      | Ready _ (Inr up) \<Rightarrow>
          if \<not> relayable cap up then Some (Inl Upstream)
          else
            (case bh_status_code B (ur_status up) of
               None \<Rightarrow> Some (Inl Internal)
             | Some code \<Rightarrow>
                 (case read_frames B cap 0
                     (foldl (\<lambda>m v. bh_put_header B m (ascii ''content-type'') v) (bh_response B code)
                        (get_all ''content-type'' (ur_headers up))) (ur_body up) of
                    Never \<Rightarrow> None
                  | Ready _ x \<Rightarrow> Some (try_bind x (\<lambda>m. Inr (ur_status up, m))))))"
  by (auto simp: read_upstream_def client_send_def outcome_try outcome_pair relayable_def Let_def
      list_ex_iff list_all_iff split: fut.splits sum.splits option.splits)

lemma read_upstream_ok:
  assumes "outcome (read_upstream B R cap r) = Some (Inr (status, msg))" and "bhttp_builder B"
  shows "\<exists>t up code. network R r = Ready t (Inr up) \<and> relayable cap up \<and> status = ur_status up \<and>
    bh_status_code B status = Some code \<and> bh_status B msg = Some code \<and>
    bh_fields B msg = map (\<lambda>v. (ascii ''content-type'', v)) (get_all ''content-type'' (ur_headers up)) \<and>
    body_data (ur_body up) = Some (bh_content B msg) \<and>
    (cap < usize_max \<longrightarrow> length (bh_content B msg) \<le> cap)"
proof -
  obtain t up where up: "network R r = Ready t (Inr up)"
    using assms(1) by (auto simp: read_upstream_outcome split: fut.split_asm sum.split_asm)
  have rel: "relayable cap up" using assms(1) by (auto simp: read_upstream_outcome up split: if_split_asm)
  obtain code where code: "bh_status_code B (ur_status up) = Some code"
    using assms(1) rel by (auto simp: read_upstream_outcome up split: option.split_asm)
  let ?m = "foldl (\<lambda>m v. bh_put_header B m (ascii ''content-type'') v) (bh_response B code)
     (get_all ''content-type'' (ur_headers up))"
  obtain t' where fr: "read_frames B cap 0 ?m (ur_body up) = Ready t' (Inr msg)" and st: "status = ur_status up"
    using assms(1) rel code
    by (cases "read_frames B cap 0 ?m (ur_body up)")
       (auto simp: read_upstream_outcome up try_bind_Inr_iff)
  show ?thesis
    using read_frames_ok[OF fr assms(2)] put_headers[OF assms(2)] assms(2) up rel code st
    by (auto simp: bhttp_builder_def)
qed

lemma io_try_ret [simp]: "io_try (io_ret (Inl e)) f = io_ret (Inl e)" "io_try (io_ret (Inr a)) f = f a"
  by (simp_all add: io_try_def io_ret_def) (cases "f a", simp split: fut.splits)

text \<open>The request that is built for the upstream, or why it is not.\<close>

definition inner_up_request :: "http_api \<Rightarrow> upstream_client \<Rightarrow> inner_request \<Rightarrow> inner_error + up_request" where
  "inner_up_request P c inner =
     try_bind (ok_or (origin_path_and_query P c (ir_path_and_query inner)) BadRequest) (\<lambda>pq.
     try_bind (ok_or (origin_uri P c pq) Internal) (\<lambda>u.
       let r = \<lparr>up_method = ir_method inner, up_uri = u,
             up_headers = (case ir_content_type inner of None \<Rightarrow> [] | Some v \<Rightarrow> [(''content-type'', v)])
               @ map (\<lambda>v. (''accept'', v)) (ir_accept inner) @ [(''accept-encoding'', ascii ''identity'')],
             up_body = ir_body inner\<rparr>
       in if request_build_ok P (up_method r) u (up_headers r) then Inr r else Inl Internal))"

lemma call_upstream_eq:
  "call_upstream P B R T c cfg inner =
     (case inner_up_request P c inner of
        Inl e \<Rightarrow> io_ret (Inl e)
      | Inr r \<Rightarrow> io_map (\<lambda>x. case x of Some y \<Rightarrow> y | None \<Rightarrow> Inl UpstreamTimeout)
          ([r], timeout T (upstream_timeout cfg) (snd (read_upstream B R (max_response_bytes cfg) r))))"
  using read_upstream_sends[of B R "max_response_bytes cfg"]
  by (cases "origin_path_and_query P c (ir_path_and_query inner)";
      cases "origin_uri P c (the (origin_path_and_query P c (ir_path_and_query inner)))")
     (simp_all add: call_upstream_def inner_up_request_def Let_def sends_def)

lemma timeout_cases:
  assumes "timeout_spec T"
  obtains t x where "timeout T d f = Ready t x" "t \<le> d"
    "x = None \<or> (\<exists>y. x = Some y \<and> f = Ready t y)"
proof (cases f)
  case Never
  then show thesis using assms that[of d None] by (simp add: timeout_spec_def)
next
  case (Ready t y)
  consider "t < d" | "t = d" | "d < t" by linarith
  then show thesis
    using assms Ready that unfolding timeout_spec_def by cases (metis less_imp_le, metis order_refl, metis order_refl)
qed

lemma call_upstream_answer:
  assumes "timeout_spec T" and "outcome (call_upstream P B R T c cfg inner) = Some x"
  shows "case inner_up_request P c inner of
      Inl e \<Rightarrow> x = Inl e \<and> sends (call_upstream P B R T c cfg inner) = []
    | Inr r \<Rightarrow> sends (call_upstream P B R T c cfg inner) = [r] \<and>
        (x = Inl UpstreamTimeout \<or> outcome (read_upstream B R (max_response_bytes cfg) r) = Some x)"
proof (cases "inner_up_request P c inner")
  case (Inr r)
  let ?f = "snd (read_upstream B R (max_response_bytes cfg) r)"
  obtain t y where y: "timeout T (upstream_timeout cfg) ?f = Ready t y"
      "y = None \<or> (\<exists>z. y = Some z \<and> ?f = Ready t z)"
    using timeout_cases[OF assms(1)] .
  then show ?thesis using assms(2) Inr by (auto simp: call_upstream_eq outcome_pair outcome_Some)
qed (use assms in \<open>simp add: call_upstream_eq\<close>)

lemma inner_up_request_Inr:
  "inner_up_request P c inner = Inr r \<Longrightarrow>
     Option.bind (origin_path_and_query P c (ir_path_and_query inner)) (origin_uri P c) = Some (up_uri r) \<and>
     up_method r = ir_method inner \<and> up_body r = ir_body inner \<and>
     up_headers r = (case ir_content_type inner of None \<Rightarrow> [] | Some v \<Rightarrow> [(''content-type'', v)])
       @ map (\<lambda>v. (''accept'', v)) (ir_accept inner) @ [(''accept-encoding'', ascii ''identity'')]"
  by (auto simp: inner_up_request_def try_bind_Inr_iff Let_def split: if_splits)

lemma call_upstream_one:
  "r \<in> set (sends (call_upstream P B R T c cfg inner)) \<Longrightarrow>
     sends (call_upstream P B R T c cfg inner) = [r] \<and> up_method r = ir_method inner \<and> up_body r = ir_body inner"
  using inner_up_request_Inr[of P c inner r] by (auto simp: call_upstream_eq split: sum.split_asm)

lemma get_all_map [simp]: "get_all n (map (\<lambda>v. (m, v)) vs) = (if m = n then vs else [])"
  by (induction vs) auto

lemma call_upstream_bounded:
  assumes "timeout_spec T"
  shows "\<exists>t x. snd (call_upstream P B R T c cfg inner) = Ready t x \<and> t \<le> upstream_timeout cfg \<and>
    length (sends (call_upstream P B R T c cfg inner)) \<le> 1"
proof (cases "inner_up_request P c inner")
  case (Inr r)
  let ?f = "snd (read_upstream B R (max_response_bytes cfg) r)"
  obtain t x where t: "timeout T (upstream_timeout cfg) ?f = Ready t x" "t \<le> upstream_timeout cfg"
    by (rule timeout_cases[OF assms])
  show ?thesis
    by (rule exI[of _ t]) (use t Inr in \<open>simp add: call_upstream_eq io_map_def io_ret_def sends_def\<close>)
qed (simp add: call_upstream_eq io_ret_def)

section \<open>A concrete call\<close>

definition demo_inner_request :: up_request where
  "demo_inner_request =
     \<lparr>up_method = ascii ''POST'',
      up_uri = \<lparr>u_scheme = Some (ascii ''http''), u_authority = Some (ascii ''node:8545''),
                u_path = ascii ''/base/a'', u_path_and_query = Some (ascii ''/base/a'')\<rparr>,
      up_headers = [(''content-type'', [106]), (''accept-encoding'', ascii ''identity'')],
      up_body = [91, 93]\<rparr>"

definition demo_answer_msg :: demo_msg where
  "demo_answer_msg = \<lparr>dm_method = None, dm_path = None, dm_status = Some 200,
     dm_fields = [(ascii ''content-type'', [106])], dm_content = [1, 2]\<rparr>"

lemma demo_inner_uris:
  "trim_end_matches 47 (ascii ''/base/'') = ascii ''/base''" "ascii ''/base'' @ [47, 97] = ascii ''/base/a''"
  "takeWhile (\<lambda>b. b \<noteq> 63) (ascii ''/base/a'') = ascii ''/base/a''" "take (Suc 0) (ascii ''/base/a'') = [47]"
  by code_simp+

lemma demo_inner_up_request: "inner_up_request demo_http demo_client demo_inner = Inr demo_inner_request"
  by (simp add: inner_up_request_def origin_path_and_query_def origin_uri_def demo_http_def demo_client_def
      demo_uri_def demo_inner_def demo_inner_request_def demo_inner_uris MAX_PATH_AND_QUERY_def Let_def
      del: ascii_append ascii_inj)

lemma demo_call:
  "call_upstream demo_http demo_bhttp demo_node \<lparr>timeout = demo_timeout\<rparr> demo_client demo_config demo_inner =
     ([demo_inner_request], Ready 7 (Inr (200, demo_answer_msg)))"
proof -
  have enc: "read_upstream demo_bhttp demo_node 100 demo_inner_request =
      ([demo_inner_request], Ready 7 (Inr (200, demo_answer_msg)))"
    by (simp add: read_upstream_def client_send_def demo_node_def io_try_def io_map_def io_ret_def io_fut_def
        demo_bhttp_def demo_answer_msg_def saturating_add_def usize_max_def)
  show ?thesis
    by (simp add: call_upstream_eq demo_inner_up_request demo_config_def enc io_map_def io_ret_def)
qed

section \<open>Properties\<close>

text \<open>
  The upstream leg always ends, with an answer or an error, no later than the configured
  timeout after it started, even when the upstream never answers or stalls in the middle of its
  body, and it sends at most one request.
\<close>
theorem call_upstream_terminates:
  assumes "timeout_spec T"
  shows "\<exists>t x. snd (call_upstream P B R T c cfg inner) = Ready t x \<and> t \<le> upstream_timeout cfg \<and>
    length (sends (call_upstream P B R T c cfg inner)) \<le> 1"
  by (rule call_upstream_bounded[OF assms])

theorem call_upstream_terminates_witness:
  "\<exists>t x. snd (call_upstream demo_http demo_bhttp (demo_runtime\<lparr>network := \<lambda>_. Never\<rparr>) \<lparr>timeout = demo_timeout\<rparr>
       demo_client demo_config demo_inner) = Ready t x \<and> t \<le> 25"
  using call_upstream_terminates[OF demo_timeout_spec, of demo_http demo_bhttp
      "demo_runtime\<lparr>network := \<lambda>_. Never\<rparr>" demo_client demo_config demo_inner]
  by (auto simp: demo_config_def)

text \<open>
  C29: What the confidential leg sends: at most one request, with the method, path, query and content
  of the decoded inner request, and no header but its content type, its \<open>accept\<close> values in order and
  exactly one \<open>Accept-Encoding: identity\<close>.
\<close>
theorem call_upstream_request:
  assumes "r \<in> set (sends (call_upstream P B R T c cfg inner))"
  shows "sends (call_upstream P B R T c cfg inner) = [r]
    \<and> up_method r = ir_method inner \<and> up_body r = ir_body inner
    \<and> Option.bind (origin_path_and_query P c (ir_path_and_query inner)) (origin_uri P c) = Some (up_uri r)
    \<and> get_all ''content-type'' (up_headers r) = (case ir_content_type inner of None \<Rightarrow> [] | Some v \<Rightarrow> [v])
    \<and> get_all ''accept'' (up_headers r) = ir_accept inner
    \<and> get_all ''accept-encoding'' (up_headers r) = [ascii ''identity'']
    \<and> (\<forall>n. n \<notin> {''content-type'', ''accept'', ''accept-encoding''} \<longrightarrow> get_all n (up_headers r) = [])"
proof -
  obtain r' where "inner_up_request P c inner = Inr r'" and r': "r' = r"
    using assms by (auto simp: call_upstream_eq split: sum.split_asm)
  then have s: "sends (call_upstream P B R T c cfg inner) = [r]" by (simp add: call_upstream_eq)
  show ?thesis
    using inner_up_request_Inr[of P c inner r'] \<open>inner_up_request P c inner = Inr r'\<close> s
    by (auto simp: r' split: option.splits)
qed

theorem call_upstream_request_witness:
  "get_all ''accept-encoding'' (up_headers demo_inner_request) = [ascii ''identity'']
   \<and> up_body demo_inner_request = ir_body demo_inner"
  using call_upstream_request[of demo_inner_request demo_http demo_bhttp demo_node
      "\<lparr>timeout = demo_timeout\<rparr>" demo_client demo_config demo_inner]
  by (simp add: demo_call)

text \<open>
  What the confidential leg relays.  A relayed answer is one the upstream really gave to the
  request sent: its status is between 200 and 599, its content encoding identity, the relayed message
  has that status, exactly the upstream's content types as header fields and exactly the upstream's
  body, which respects the response cap; every other outcome is one of the four errors 400, 500, 502
  and 504, and 502 or 504 only after a request was sent.
\<close>
theorem call_upstream_relays:
  assumes "timeout_spec T" and "bhttp_builder B"
    and "outcome (call_upstream P B R T c cfg inner) = Some x"
  shows "case x of
      Inr (status, msg) \<Rightarrow>
        (\<exists>r t up code. sends (call_upstream P B R T c cfg inner) = [r] \<and> network R r = Ready t (Inr up)
          \<and> status = ur_status up \<and> 200 \<le> status \<and> status \<le> 599
          \<and> (\<forall>v \<in> set (get_all ''content-encoding'' (ur_headers up)). eq_ignore_ascii_case v (ascii ''identity''))
          \<and> bh_status_code B status = Some code \<and> bh_status B msg = Some code
          \<and> bh_fields B msg = map (\<lambda>v. (ascii ''content-type'', v)) (get_all ''content-type'' (ur_headers up))
          \<and> body_data (ur_body up) = Some (bh_content B msg)
          \<and> (max_response_bytes cfg < usize_max \<longrightarrow> length (bh_content B msg) \<le> max_response_bytes cfg))
    | Inl e \<Rightarrow> e \<in> {BadRequest, Internal, Upstream, UpstreamTimeout} \<and>
        (e \<in> {Upstream, UpstreamTimeout} \<longrightarrow> sends (call_upstream P B R T c cfg inner) \<noteq> [])"
proof (cases "inner_up_request P c inner")
  case (Inl e)
  then have "e \<in> {BadRequest, Internal}"
    by (auto simp: inner_up_request_def try_bind_Inl_iff Let_def split: if_splits)
  then show ?thesis using call_upstream_answer[OF assms(1,3)] Inl by auto
next
  case (Inr r)
  note ans = call_upstream_answer[OF assms(1,3), unfolded Inr sum.case]
  show ?thesis
  proof (cases x)
    case (Inl e)
    then show ?thesis using ans
      by (auto simp: read_upstream_outcome try_bind_Inl_iff dest: read_frames_err
          split: fut.split_asm sum.split_asm if_split_asm option.split_asm)
  next
    case (Inr p)
    obtain status msg where p: "p = (status, msg)" by (cases p)
    show ?thesis
      using ans read_upstream_ok[OF _ assms(2), of R "max_response_bytes cfg" r status msg] Inr p
      by (fastforce simp: relayable_def list_all_iff)
  qed
qed

theorem call_upstream_relays_witness:
  "\<exists>up :: up_response. ur_status up = 200 \<and> body_data (ur_body up) = Some (bh_content demo_bhttp demo_answer_msg)
     \<and> length (bh_content demo_bhttp demo_answer_msg) \<le> max_response_bytes demo_config"
proof -
  have out: "outcome (call_upstream demo_http demo_bhttp demo_node \<lparr>timeout = demo_timeout\<rparr> demo_client
      demo_config demo_inner) = Some (Inr (200, demo_answer_msg))"
    by (simp add: demo_call outcome_pair)
  have "max_response_bytes demo_config < usize_max" by (simp add: demo_config_def usize_max_def)
  then show ?thesis
    using call_upstream_relays[OF demo_timeout_spec demo_builder out] by auto
qed

end
