(* ===== verification/Confidential.thy ===== *)
theory Confidential
  imports Verifier Upstream_Call
begin

text \<open>
  \<open>src/src/confidential.rs\<close>: one \<open>POST /confidential\<close> exchange.  Read the outer body under its cap, open
  the envelope, draw the response nonce and check the clock, run the inner call, seal its result and
  sign the sealed body.  Beside the parameters of the other components, \<open>rnd\<close> is what the system's
  random source gives for the nonce, \<open>clock0\<close> the clock when it is checked and \<open>clock\<close> when the
  response is signed.
\<close>

section \<open>Responses\<close>

definition OHTTP_KEY_PROBLEM :: string where
  \<open>OHTTP_KEY_PROBLEM = ''{"type":"https://iana.org/assignments/http-problem-types#ohttp-key","title":"Oblivious HTTP key configuration not acceptable"}''\<close>

definition pre_decapsulation_error :: response where
  "pre_decapsulation_error =
     \<lparr>rs_status = 400, rs_headers = [(''content-type'', ascii ''application/problem+json'')],
      rs_body = ascii OHTTP_KEY_PROBLEM\<rparr>"

definition plaintext_500 :: response where
  "plaintext_500 = bare 500"

definition build_confidential_response ::
  "hex_crate \<Rightarrow> http_api \<Rightarrow> nat \<Rightarrow> nat \<Rightarrow> bytes \<Rightarrow> signed_response \<Rightarrow> response" where
  "build_confidential_response X P inner_status batch outer_resp sr =
     (let outer_status = (if inner_status \<in> {204, 205, 304} then 200 else inner_status);
          hs = [(''content-type'', ascii ''message/ohttp-res''),
                (header_name ''vRPC-Signature'', ascii (signature_hex X sr)),
                (header_name ''vRPC-Timestamp'', ascii (dec (unat (timestamp_ms sr)))),
                (header_name ''vRPC-Pubkey'', ascii (signed_pubkey_hex sr)),
                (header_name ''vRPC-Batch-Size'', ascii (dec batch))]
      in if response_build_ok P outer_status hs
         then \<lparr>rs_status = outer_status, rs_headers = hs, rs_body = outer_resp\<rparr>
         else plaintext_500)"

section \<open>The inner call\<close>

record 'm inner_call =
  ic_result :: "inner_error + nat \<times> 'm"
  ic_batch_size :: nat
  ic_upstream_ms :: u64

definition inner_call_failed :: "inner_error \<Rightarrow> nat \<Rightarrow> 'm inner_call" where
  "inner_call_failed e n = \<lparr>ic_result = Inl e, ic_batch_size = n, ic_upstream_ms = 0\<rparr>"

text \<open>\<open>Instant::now()\<close> before an \<open>.await\<close> and \<open>elapsed()\<close> after it.\<close>

fun io_timed :: "'a io \<Rightarrow> ('a \<times> nat) io" where
  "io_timed (es, Never) = (es, Never)"
| "io_timed (es, Ready t x) = (es, Ready t (x, t))"

definition run_inner ::
  "http_api \<Rightarrow> 'm bhttp \<Rightarrow> json_api \<Rightarrow> runtime \<Rightarrow> (inner_error + nat \<times> 'm) tokio \<Rightarrow> upstream_client \<Rightarrow>
   confidential_config \<Rightarrow> bytes \<Rightarrow> 'm inner_call io" where
  "run_inner P B J R T c cfg plaintext =
     (case decode_inner P B plaintext of
        Inl e \<Rightarrow> io_ret (inner_call_failed e 1)
      | Inr inner \<Rightarrow>
          let n = batch_size J (ir_body inner) in
          if max_batch_size cfg < n then io_ret (inner_call_failed BatchTooLarge n)
          else io_map (\<lambda>(result, elapsed).
                 \<lparr>ic_result = result, ic_batch_size = n, ic_upstream_ms = millis elapsed\<rparr>)
                 (io_timed (call_upstream P B R T c cfg inner)))"

section \<open>Sealing\<close>

record sealed =
  se_class :: outcome_class
  se_inner_status :: nat
  se_body :: bytes

definition seal_inner ::
  "'m bhttp \<Rightarrow> response_context \<Rightarrow> bytes \<Rightarrow> inner_error + nat \<times> 'm \<Rightarrow> sealed option" where
  "seal_inner B ctx nonce result =
     (case try_bind result (\<lambda>(status, msg).
        ok_or (map_option (\<lambda>buf. (status, buf)) (encode_with_nonce B msg nonce)) Internal) of
        Inr (inner_status, body) \<Rightarrow>
          (case seal_in_place ctx body of
             (body', Inl e) \<Rightarrow> None
           | (body', Inr u) \<Rightarrow>
               Some \<lparr>se_class = ClsOk, se_inner_status = inner_status, se_body = body'\<rparr>)
      | Inl e \<Rightarrow>
          let err = inner_response_from e in
          Option.bind (encode_response B err) (\<lambda>encoded.
          Option.bind (ok (seal ctx nonce encoded)) (\<lambda>body.
            Some \<lparr>se_class = error_class e, se_inner_status = is_status err, se_body = body\<rparr>)))"

section \<open>The exchange\<close>

definition unsealable :: "nat \<Rightarrow> nat \<Rightarrow> u64 \<Rightarrow> call_outcome" where
  "unsealable request_bytes batch ms =
     (outcome_plaintext ClsUnsealable request_bytes 0)\<lparr>oc_batch_size := batch, oc_upstream_ms := ms\<rparr>"

definition plaintext_response :: "outcome_class \<Rightarrow> response" where
  "plaintext_response cls =
     (case cls of
        ClsRequestTooLarge \<Rightarrow> bare 413
      | ClsRequestReadFailed \<Rightarrow> bare 400
      | ClsPreDecapsulation \<Rightarrow> pre_decapsulation_error
      | _ \<Rightarrow> plaintext_500)"

definition read_outer :: "runtime \<Rightarrow> request \<Rightarrow> nat \<Rightarrow> (call_outcome + bytes) io" where
  "read_outer R req cap =
     io_map (map_err (\<lambda>e. outcome_plaintext
         (case e of LengthLimit \<Rightarrow> ClsRequestTooLarge | ReadError \<Rightarrow> ClsRequestReadFailed) 0 0))
       (io_fut (limited_collect R (rq_body req) cap))"

text \<open>The crates, the services and the machine state one exchange uses.\<close>

record ('c, 'm) world =
  w_hex :: hex_crate
  w_sig :: sig_api
  w_hpke :: "'c hpke_api"
  w_aead :: aead_api
  w_http :: http_api
  w_bhttp :: "'m bhttp"
  w_json :: json_api
  w_runtime :: runtime
  w_tokio :: "(inner_error + nat \<times> 'm) tokio"
  w_rnd :: "bytes option"
  w_clock0 :: int
  w_clock :: int

definition sealed_exchange ::
  "('c, 'm) world \<Rightarrow> upstream_client \<Rightarrow> signing_state \<Rightarrow> confidential_config \<Rightarrow> request \<Rightarrow>
   (call_outcome + response \<times> call_outcome) io" where
  "sealed_exchange W c signer cfg req =
     io_try (read_outer (w_runtime W) req (max_request_bytes cfg)) (\<lambda>outer_req.
       let request_bytes = length outer_req in
       io_try (io_ret (map_err (\<lambda>_. outcome_plaintext ClsPreDecapsulation request_bytes
                                       (length OHTTP_KEY_PROBLEM))
                 (state_open_request (w_hpke W) (w_aead W) signer outer_req))) (\<lambda>(plaintext, ctx).
         if w_rnd W = None \<or> ok (now_ms (w_clock0 W)) = None
         then io_ret (Inl (unsealable request_bytes 0 0))
         else
           let nonce = the (w_rnd W) in
           io_bind (run_inner (w_http W) (w_bhttp W) (w_json W) (w_runtime W) (w_tokio W) c cfg plaintext) (\<lambda>call.
             let failed = unsealable request_bytes (ic_batch_size call) (ic_upstream_ms call) in
             io_ret (
               try_bind (ok_or (seal_inner (w_bhttp W) ctx nonce (ic_result call)) failed) (\<lambda>sealed.
               try_bind (map_err (\<lambda>_. failed) (sign (w_sig W) signer (w_clock W) outer_req (se_body sealed))) (\<lambda>sr.
                 Inr (build_confidential_response (w_hex W) (w_http W) (se_inner_status sealed)
                        (ic_batch_size call) (se_body sealed) sr,
                      \<lparr>oc_class = se_class sealed, oc_inner_status = se_inner_status sealed,
                       oc_batch_size = ic_batch_size call, oc_request_bytes = request_bytes,
                       oc_response_bytes = length (se_body sealed), oc_upstream_ms = ic_upstream_ms call\<rparr>)))))))"

definition exchange ::
  "('c, 'm) world \<Rightarrow> upstream_client \<Rightarrow> signing_state \<Rightarrow> confidential_config \<Rightarrow> request \<Rightarrow>
   (response \<times> call_outcome) io" where
  "exchange W c signer cfg req =
     io_map (\<lambda>r. case r of Inr done \<Rightarrow> done | Inl o1 \<Rightarrow> (plaintext_response (oc_class o1), o1))
       (sealed_exchange W c signer cfg req)"

section \<open>The guard\<close>

record outcome_guard =
  og_started :: nat
  og_done :: "(call_outcome \<times> nat) option"

text \<open>\<open>OutcomeGuard::drop\<close>: the line that is logged.\<close>

definition guard_drop :: "outcome_guard \<Rightarrow> nat \<Rightarrow> log_line" where
  "guard_drop g now =
     (case (case og_done g of None \<Rightarrow> (outcome_plaintext ClsCancelled 0 0, 0) | Some d \<Rightarrow> d) of
        (o1, status) \<Rightarrow> log_outcome o1 status (millis (now - og_started g)))"

text \<open>The answer, with the guard as it is when the handler returns and drops it.\<close>

definition confidential_exchange ::
  "('c, 'm) world \<Rightarrow> upstream_client \<Rightarrow> signing_state \<Rightarrow> confidential_config \<Rightarrow> nat \<Rightarrow> request \<Rightarrow>
   (response \<times> outcome_guard) io" where
  "confidential_exchange W c signer cfg started req =
     (let guard = \<lparr>og_started = started, og_done = None\<rparr> in
      io_map (\<lambda>(resp, o1). (resp, guard\<lparr>og_done := Some (o1, rs_status resp)\<rparr>))
        (exchange W c signer cfg req))"

definition confidential_method_not_allowed :: "response \<times> log_line" where
  "confidential_method_not_allowed =
     (bare 405, log_outcome (outcome_plaintext ClsMethodNotAllowed 0 0) 405 0)"

section \<open>The inner call, step by step\<close>

lemma io_timed_simps [simp]:
  "sends (io_timed m) = sends m" "outcome (io_timed m) = (case snd m of Never \<Rightarrow> None | Ready t x \<Rightarrow> Some (x, t))"
  by (cases m rule: io_timed.cases; simp add: sends_def outcome_def)+

lemma run_inner_sends:
  "sends (run_inner P B J R T c cfg pt) =
     (case decode_inner P B pt of
        Inl e \<Rightarrow> []
      | Inr inner \<Rightarrow> if max_batch_size cfg < batch_size J (ir_body inner) then []
                     else sends (call_upstream P B R T c cfg inner))"
  by (simp add: run_inner_def Let_def split: sum.splits)

text \<open>Every way an inner call can end.\<close>

lemma run_inner_outcome:
  assumes "outcome (run_inner P B J R T c cfg pt) = Some call"
  shows "case decode_inner P B pt of
      Inl e \<Rightarrow> call = inner_call_failed e 1
    | Inr inner \<Rightarrow> ic_batch_size call = batch_size J (ir_body inner) \<and>
        (if max_batch_size cfg < batch_size J (ir_body inner)
         then call = inner_call_failed BatchTooLarge (batch_size J (ir_body inner))
         else \<exists>t. snd (call_upstream P B R T c cfg inner) = Ready t (ic_result call) \<and>
                ic_upstream_ms call = millis t)"
  using assms
  by (auto simp: run_inner_def Let_def inner_call_failed_def split: sum.split_asm if_split_asm fut.split_asm)

lemma run_inner_terminates:
  assumes "timeout_spec T"
  obtains t call where "snd (run_inner P B J R T c cfg pt) = Ready t call" "t \<le> upstream_timeout cfg"
proof (cases "decode_inner P B pt")
  case (Inr inner)
  obtain t x where t: "snd (call_upstream P B R T c cfg inner) = Ready t x" "t \<le> upstream_timeout cfg"
    using call_upstream_bounded[OF assms] by blast
  obtain es where "call_upstream P B R T c cfg inner = (es, Ready t x)" using t(1) by (metis prod.collapse)
  then show thesis using Inr t that
    by (cases "max_batch_size cfg < batch_size J (ir_body inner)")
      (simp_all add: run_inner_def Let_def io_map_def io_ret_def)
qed (use that in \<open>simp add: run_inner_def io_ret_def\<close>)

section \<open>Sealing and opening\<close>

text \<open>What the client reads when the inner call ended with a given result.\<close>

definition client_sees :: "'m bhttp \<Rightarrow> 'm \<Rightarrow> inner_error + nat \<times> 'm \<Rightarrow> sealed \<Rightarrow> bool" where
  "client_sees B m result s \<longleftrightarrow>
     (case result of
        Inr (status, msg) \<Rightarrow>
          se_class s = ClsOk \<and> se_inner_status s = status \<and> bh_status B m = bh_status B msg \<and>
          bh_fields B m = bh_fields B msg \<and> bh_content B m = bh_content B msg
      | Inl e \<Rightarrow>
          se_class s = error_class e \<and> se_inner_status s = error_status e \<and>
          bh_status B m = bh_status_code B (error_status e) \<and>
          bh_fields B m = [(ascii ''content-type'', ascii ''application/problem+json'')] \<and>
          bh_content B m = ascii (error_body e))"

lemma encode_response_Some:
  assumes "encode_response B (inner_response_from e) = Some bs" and "bhttp_builder B" and "bhttp_roundtrip B"
  obtains m where "bh_read B bs = Some m" "bh_status B m = bh_status_code B (error_status e)"
    "bh_fields B m = [(ascii ''content-type'', ascii ''application/problem+json'')]"
    "bh_content B m = ascii (error_body e)"
proof -
  obtain code where code: "bh_status_code B (error_status e) = Some code"
    using assms(1) by (auto simp: encode_response_def inner_response_from_def bind_eq_Some_conv)
  let ?m = "bh_write_content B (bh_put_header B (bh_response B code) (ascii ''content-type'')
      (ascii ''application/problem+json'')) (ascii (error_body e))"
  have w: "snd (bh_write B ?m)" "bs = concat (fst (bh_write B ?m))"
    using assms(1) code
    by (auto simp: encode_response_def inner_response_from_def split: prod.split_asm if_split_asm)
  moreover have "bh_status B ?m = Some code" "bh_content B ?m = ascii (error_body e)"
    "bh_fields B ?m = [(ascii ''content-type'', ascii ''application/problem+json'')]"
    using assms(2) by (simp_all add: bhttp_builder_def)
  ultimately show thesis using assms(3) code that unfolding bhttp_roundtrip_def by metis
qed

text \<open>The result that is sealed: an answer that cannot be encoded becomes an internal error.\<close>

definition sealed_result :: "'m bhttp \<Rightarrow> bytes \<Rightarrow> inner_error + nat \<times> 'm \<Rightarrow> inner_error + nat \<times> 'm" where
  "sealed_result B nonce result =
     (case result of
        Inl e \<Rightarrow> Inl e
      | Inr (status, msg) \<Rightarrow> if encode_with_nonce B msg nonce = None then Inl Internal else Inr (status, msg))"

lemma seal_inner_opens:
  assumes ctx: "ctx_matches A cc ctx" and A: "hkdf_total A" "gcm_correct A AesGcm256" "gcm_key_size A AesGcm256 = 32"
    and nonce: "length nonce = 32" and B: "bhttp_builder B" "bhttp_roundtrip B"
    and s: "seal_inner B ctx nonce result = Some s"
  shows "\<exists>m. client_inner_response A B cc (se_body s) = Some m \<and> client_sees B m (sealed_result B nonce result) s"
proof -
  let ?enc = "try_bind result (\<lambda>(status, msg).
    ok_or (map_option (\<lambda>buf. (status, buf)) (encode_with_nonce B msg nonce)) Internal)"
  show ?thesis
  proof (cases ?enc)
    case (Inr p)
    then obtain status msg where r: "result = Inr (status, msg)" "snd (bh_write B msg)" "encode_with_nonce B msg nonce \<noteq> None"
        and p: "p = (status, nonce @ concat (fst (bh_write B msg)))"
      by (auto simp: try_bind_Inr_iff encode_with_nonce_Some split: prod.split_asm)
    obtain out where out: "seal_in_place ctx (nonce @ concat (fst (bh_write B msg))) = (out, Inr ())"
        "open_response A cc out = Some (concat (fst (bh_write B msg)))"
      using open_sealed_response[OF ctx A nonce] by metis
    then have "s = \<lparr>se_class = ClsOk, se_inner_status = status, se_body = out\<rparr>"
      using s Inr p by (simp add: seal_inner_def)
    moreover obtain m where "bh_read B (concat (fst (bh_write B msg))) = Some m" "bh_status B m = bh_status B msg"
        "bh_fields B m = bh_fields B msg" "bh_content B m = bh_content B msg"
      using B(2) r(2) unfolding bhttp_roundtrip_def by blast
    ultimately show ?thesis using r(1,3) out(2) by (simp add: client_inner_response_def client_sees_def sealed_result_def)
  next
    case (Inl e)
    obtain enc body where enc: "encode_response B (inner_response_from e) = Some enc"
        "seal ctx nonce enc = Inr body"
        and s': "s = \<lparr>se_class = error_class e, se_inner_status = error_status e, se_body = body\<rparr>"
      using s Inl by (auto simp: seal_inner_def Let_def bind_eq_Some_conv inner_response_from_def)
    have opened: "open_response A cc body = Some enc"
      using open_sealed_response[OF ctx A nonce, of enc] enc(2) by (metis sum.inject(2))
    obtain m where m: "bh_read B enc = Some m" "bh_status B m = bh_status_code B (error_status e)"
        "bh_fields B m = [(ascii ''content-type'', ascii ''application/problem+json'')]"
        "bh_content B m = ascii (error_body e)"
      using encode_response_Some[OF enc(1) B] .
    have "client_sees B m (Inl e) s" using m s' by (simp add: client_sees_def)
    moreover have "sealed_result B nonce result = Inl e"
      using Inl by (auto simp: try_bind_Inl_iff sealed_result_def split: prod.split_asm)
    moreover have "client_inner_response A B cc (se_body s) = Some m"
      using opened m(1) s' by (simp add: client_inner_response_def)
    ultimately show ?thesis by auto
  qed
qed

section \<open>The exchange, step by step\<close>

text \<open>Sealing and signing: what happens once the inner call has ended.\<close>

definition finish ::
  "('c, 'm) world \<Rightarrow> signing_state \<Rightarrow> bytes \<Rightarrow> response_context \<Rightarrow> bytes \<Rightarrow> 'm inner_call \<Rightarrow>
   response \<times> call_outcome" where
  "finish W st q ctx nonce call =
     (let failed = (plaintext_500, unsealable (length q) (ic_batch_size call) (ic_upstream_ms call)) in
      case seal_inner (w_bhttp W) ctx nonce (ic_result call) of
        None \<Rightarrow> failed
      | Some s \<Rightarrow>
          (case sign (w_sig W) st (w_clock W) q (se_body s) of
             Inl _ \<Rightarrow> failed
           | Inr sr \<Rightarrow>
               (build_confidential_response (w_hex W) (w_http W) (se_inner_status s) (ic_batch_size call)
                  (se_body s) sr,
                \<lparr>oc_class = se_class s, oc_inner_status = se_inner_status s, oc_batch_size = ic_batch_size call,
                 oc_request_bytes = length q, oc_response_bytes = length (se_body s),
                 oc_upstream_ms = ic_upstream_ms call\<rparr>)))"

definition sealable :: "('c, 'm) world \<Rightarrow> bool" where
  "sealable W \<longleftrightarrow> w_rnd W \<noteq> None \<and> (\<exists>ms. now_ms (w_clock0 W) = Inr ms)"

lemma not_sealable: "w_rnd W = None \<or> ok (now_ms (w_clock0 W)) = None \<longleftrightarrow> \<not> sealable W"
  by (cases "now_ms (w_clock0 W)") (auto simp: sealable_def)

abbreviation run_world ::
  "('c, 'm) world \<Rightarrow> upstream_client \<Rightarrow> confidential_config \<Rightarrow> bytes \<Rightarrow> 'm inner_call io" where
  "run_world W \<equiv> run_inner (w_http W) (w_bhttp W) (w_json W) (w_runtime W) (w_tokio W)"

definition after_open ::
  "('c, 'm) world \<Rightarrow> upstream_client \<Rightarrow> signing_state \<Rightarrow> confidential_config \<Rightarrow> bytes \<Rightarrow>
   (response \<times> call_outcome) io" where
  "after_open W c st cfg q =
     (case state_open_request (w_hpke W) (w_aead W) st q of
        Inl _ \<Rightarrow> io_ret (pre_decapsulation_error,
          outcome_plaintext ClsPreDecapsulation (length q) (length OHTTP_KEY_PROBLEM))
      | Inr (pt, ctx) \<Rightarrow>
          if \<not> sealable W then io_ret (plaintext_500, unsealable (length q) 0 0)
          else io_map (finish W st q ctx (the (w_rnd W))) (run_world W c cfg pt))"

definition read_failure :: "collect_error \<Rightarrow> response \<times> call_outcome" where
  "read_failure e = (case e of
     LengthLimit \<Rightarrow> (bare 413, outcome_plaintext ClsRequestTooLarge 0 0)
   | ReadError \<Rightarrow> (bare 400, outcome_plaintext ClsRequestReadFailed 0 0))"

text \<open>The exchange is: read, then open, run and finish.\<close>

lemma io_map_bind: "io_map f (io_bind m g) = io_bind m (\<lambda>x. io_map f (g x))"
proof (cases "(m, g)" rule: io_bind.cases)
  case (2 es t x f')
  then show ?thesis by (cases "snd (g x)"; cases "g x") (simp_all add: io_map_def io_ret_def)
qed (simp add: io_map_def)

lemma io_map_ret [simp]: "io_map f (io_ret x) = io_ret (f x)"
  by (simp add: io_map_def io_ret_def)

lemma io_bind_map: "io_bind (io_map f m) g = io_bind m (\<lambda>x. g (f x))"
proof (cases m)
  case (Pair es fu)
  then show ?thesis
    by (cases fu) (simp_all add: io_map_def io_ret_def)
qed

abbreviation settle :: "call_outcome + response \<times> call_outcome \<Rightarrow> response \<times> call_outcome" where
  "settle \<equiv> (\<lambda>r. case r of Inr d \<Rightarrow> d | Inl o1 \<Rightarrow> (plaintext_response (oc_class o1), o1))"

lemma after_open_eq:
  "io_map settle
     (let request_bytes = length q in
       io_try (io_ret (map_err (\<lambda>_. outcome_plaintext ClsPreDecapsulation request_bytes
                                       (length OHTTP_KEY_PROBLEM))
                 (state_open_request (w_hpke W) (w_aead W) st q))) (\<lambda>(plaintext, ctx).
         if w_rnd W = None \<or> ok (now_ms (w_clock0 W)) = None
         then io_ret (Inl (unsealable request_bytes 0 0))
         else
           let nonce = the (w_rnd W) in
           io_bind (run_world W c cfg plaintext) (\<lambda>call.
             let failed = unsealable request_bytes (ic_batch_size call) (ic_upstream_ms call) in
             io_ret (
               try_bind (ok_or (seal_inner (w_bhttp W) ctx nonce (ic_result call)) failed) (\<lambda>sealed.
               try_bind (map_err (\<lambda>_. failed) (sign (w_sig W) st (w_clock W) q (se_body sealed))) (\<lambda>sr.
                 Inr (build_confidential_response (w_hex W) (w_http W) (se_inner_status sealed)
                        (ic_batch_size call) (se_body sealed) sr,
                      \<lparr>oc_class = se_class sealed, oc_inner_status = se_inner_status sealed,
                       oc_batch_size = ic_batch_size call, oc_request_bytes = request_bytes,
                       oc_response_bytes = length (se_body sealed), oc_upstream_ms = ic_upstream_ms call\<rparr>)))))))
   = after_open W c st cfg q"
proof (cases "state_open_request (w_hpke W) (w_aead W) st q")
  case (Inl e)
  then show ?thesis
    by (simp add: after_open_def outcome_plaintext_def plaintext_response_def)
next
  case (Inr p)
  obtain pt ctx where p: "p = (pt, ctx)" by (cases p)
  have fin: "settle (try_bind (ok_or (seal_inner (w_bhttp W) ctx nonce (ic_result call)) failed) (\<lambda>sealed.
      try_bind (map_err (\<lambda>_. failed) (sign (w_sig W) st (w_clock W) q (se_body sealed))) (\<lambda>sr.
        Inr (build_confidential_response (w_hex W) (w_http W) (se_inner_status sealed)
               (ic_batch_size call) (se_body sealed) sr,
             \<lparr>oc_class = se_class sealed, oc_inner_status = se_inner_status sealed,
              oc_batch_size = ic_batch_size call, oc_request_bytes = length q,
              oc_response_bytes = length (se_body sealed), oc_upstream_ms = ic_upstream_ms call\<rparr>)))) = finish W st q ctx nonce call"
    if "failed = unsealable (length q) (ic_batch_size call) (ic_upstream_ms call)" for nonce failed call
    by (cases "seal_inner (w_bhttp W) ctx nonce (ic_result call)";
        cases "sign (w_sig W) st (w_clock W) q (se_body (the (seal_inner (w_bhttp W) ctx nonce (ic_result call))))")
       (simp_all add: finish_def that unsealable_def outcome_plaintext_def plaintext_response_def)
  show ?thesis
    using Inr p fin
    by (simp add: after_open_def not_sealable io_map_bind Let_def unsealable_def outcome_plaintext_def
        plaintext_response_def) (simp add: io_map_def)
qed

lemma settle_read:
  "io_map settle (case map_err (\<lambda>e. outcome_plaintext
       (case e of LengthLimit \<Rightarrow> ClsRequestTooLarge | ReadError \<Rightarrow> ClsRequestReadFailed) 0 0) r of
     Inl e \<Rightarrow> io_ret (Inl e) | Inr q \<Rightarrow> f q) =
   (case r of Inl e \<Rightarrow> io_ret (read_failure e) | Inr q \<Rightarrow> io_map settle (f q))"
proof (cases r)
  case (Inl e)
  then show ?thesis
    by (cases e) (simp_all add: read_failure_def outcome_plaintext_def plaintext_response_def)
qed simp

lemma exchange_eq:
  "exchange W c st cfg req =
     io_bind (io_fut (limited_collect (w_runtime W) (rq_body req) (max_request_bytes cfg)))
       (\<lambda>r. case r of Inl e \<Rightarrow> io_ret (read_failure e) | Inr q \<Rightarrow> after_open W c st cfg q)"
  unfolding exchange_def sealed_exchange_def read_outer_def io_try_def[of "io_map _ _"] io_bind_map io_map_bind
  by (simp only: settle_read after_open_eq)

lemma outcome_exchange:
  "outcome (exchange W c st cfg req) =
     (case limited_collect (w_runtime W) (rq_body req) (max_request_bytes cfg) of
        Never \<Rightarrow> None
      | Ready _ (Inl e) \<Rightarrow> Some (read_failure e)
      | Ready _ (Inr q) \<Rightarrow> outcome (after_open W c st cfg q))"
  by (simp add: exchange_eq outcome_bind split: fut.splits sum.splits)

lemma sends_exchange:
  "sends (exchange W c st cfg req) =
     (case limited_collect (w_runtime W) (rq_body req) (max_request_bytes cfg) of
        Ready _ (Inr q) \<Rightarrow> sends (after_open W c st cfg q) | _ \<Rightarrow> [])"
  by (simp add: exchange_eq sends_bind split: fut.splits sum.splits)

lemma sends_after_open:
  "sends (after_open W c st cfg q) =
     (case state_open_request (w_hpke W) (w_aead W) st q of
        Inr (pt, ctx) \<Rightarrow> if sealable W then sends (run_world W c cfg pt) else [] | Inl _ \<Rightarrow> [])"
  by (simp add: after_open_def split: sum.splits prod.splits)

end
