(* ===== verification/Exchange.thy ===== *)
theory Exchange
  imports Confidential
begin

text \<open>
  The properties of a confidential exchange (\<open>src/src/confidential.rs\<close>): which answers it can give, when
  it reaches the upstream, that it ends, what it logs, and the round trip with the client of
  \<open>Client\<close> and the verifier of \<open>Verifier\<close>.
\<close>

section \<open>Facts about the exchange\<close>

lemma collect_within:
  assumes "limited_spec R" and "limited_collect R b cap = Ready t (Inr q)"
  shows "body_data b = Some q" "length q \<le> cap"
  using assms unfolding limited_spec_def by blast+

lemma exchange_sent:
  assumes "r \<in> set (sends (exchange W c st cfg req))"
  obtains t q pt ctx inner where
    "limited_collect (w_runtime W) (rq_body req) (max_request_bytes cfg) = Ready t (Inr q)"
    "state_open_request (w_hpke W) (w_aead W) st q = Inr (pt, ctx)" "sealable W"
    "decode_inner (w_http W) (w_bhttp W) pt = Inr inner"
    "batch_size (w_json W) (ir_body inner) \<le> max_batch_size cfg"
    "sends (exchange W c st cfg req) =
       sends (call_upstream (w_http W) (w_bhttp W) (w_runtime W) (w_tokio W) c cfg inner)"
  using assms
  by (auto simp: sends_exchange sends_after_open run_inner_sends not_less
      dest!: sym[of "Ready _ _"] sym[of "Inr _"]
      split: fut.split_asm sum.split_asm prod.split_asm if_split_asm)

text \<open>The outcome of an exchange that was opened and is sealable is that of \<open>finish\<close>.\<close>

lemma outcome_after_open:
  "outcome (after_open W c st cfg q) = Some x \<longleftrightarrow>
     (case state_open_request (w_hpke W) (w_aead W) st q of
        Inl _ \<Rightarrow> x = (pre_decapsulation_error,
          outcome_plaintext ClsPreDecapsulation (length q) (length OHTTP_KEY_PROBLEM))
      | Inr (pt, ctx) \<Rightarrow>
          if \<not> sealable W then x = (plaintext_500, unsealable (length q) 0 0)
          else (\<exists>call. outcome (run_world W c cfg pt) = Some call \<and> x = finish W st q ctx (the (w_rnd W)) call))"
  by (auto simp: after_open_def split: sum.splits)

definition plaintext_class :: "outcome_class \<Rightarrow> bool" where
  "plaintext_class cls \<longleftrightarrow>
     cls \<in> {ClsRequestTooLarge, ClsRequestReadFailed, ClsPreDecapsulation, ClsUnsealable}"

lemma error_class_sealed: "\<not> plaintext_class (error_class e)" "\<not> plaintext_class ClsOk"
  by (cases e; simp add: plaintext_class_def)+

lemma seal_inner_class:
  assumes "seal_inner B ctx nonce result = Some s"
  shows "\<not> plaintext_class (se_class s)"
  using assms error_class_sealed
  by (auto simp: seal_inner_def Let_def bind_eq_Some_conv split: sum.split_asm prod.split_asm)

definition result_class :: "inner_error + nat \<times> 'm \<Rightarrow> outcome_class" where
  "result_class result = (case result of Inl e \<Rightarrow> error_class e | Inr _ \<Rightarrow> ClsOk)"

lemma seal_inner_sel:
  assumes "seal_inner B ctx nonce result = Some s"
  shows "se_class s = result_class (sealed_result B nonce result)"
  using assms
  by (auto simp: seal_inner_def Let_def bind_eq_Some_conv sealed_result_def result_class_def try_bind_Inr_iff try_bind_Inl_iff
      split: sum.split_asm prod.split_asm option.split_asm)

lemma finish_sealed:
  assumes "finish W st q ctx nonce call = (resp, oc)" and "\<not> plaintext_class (oc_class oc)"
  obtains s sr where "seal_inner (w_bhttp W) ctx nonce (ic_result call) = Some s"
    "sign (w_sig W) st (w_clock W) q (se_body s) = Inr sr"
    "resp = build_confidential_response (w_hex W) (w_http W) (se_inner_status s) (ic_batch_size call) (se_body s) sr"
    "oc = \<lparr>oc_class = se_class s, oc_inner_status = se_inner_status s, oc_batch_size = ic_batch_size call,
       oc_request_bytes = length q, oc_response_bytes = length (se_body s), oc_upstream_ms = ic_upstream_ms call\<rparr>"
  using assms
  by (auto simp: finish_def Let_def plaintext_class_def unsealable_def outcome_plaintext_def
      split: option.split_asm sum.split_asm)

lemma finish_plain:
  assumes "finish W st q ctx nonce call = (resp, oc)" and "plaintext_class (oc_class oc)"
  shows "resp = bare 500 \<and> oc = unsealable (length q) (ic_batch_size call) (ic_upstream_ms call)
    \<and> (\<forall>s sr. seal_inner (w_bhttp W) ctx nonce (ic_result call) = Some s \<longrightarrow>
         sign (w_sig W) st (w_clock W) q (se_body s) \<noteq> Inr sr)"
proof (cases "seal_inner (w_bhttp W) ctx nonce (ic_result call)")
  case (Some s)
  then show ?thesis using assms seal_inner_class[OF Some]
    by (auto simp: finish_def Let_def plaintext_500_def split: sum.split_asm)
qed (use assms in \<open>simp add: finish_def Let_def plaintext_500_def\<close>)

text \<open>Every answer of an exchange, by the class it is logged with.\<close>

lemma exchange_cases:
  assumes "outcome (exchange W c st cfg req) = Some (resp, oc)"
  obtains (read) e where "(resp, oc) = read_failure e" "sends (exchange W c st cfg req) = []"
      "\<exists>t. limited_collect (w_runtime W) (rq_body req) (max_request_bytes cfg) = Ready t (Inl e)"
  | (closed) t q where "resp = pre_decapsulation_error"
      "oc = outcome_plaintext ClsPreDecapsulation (length q) (length OHTTP_KEY_PROBLEM)"
      "sends (exchange W c st cfg req) = []"
      "limited_collect (w_runtime W) (rq_body req) (max_request_bytes cfg) = Ready t (Inr q)"
      "state_open_request (w_hpke W) (w_aead W) st q = Inl EnvelopeError"
  | (unusable) t q pt ctx where "resp = bare 500" "oc = unsealable (length q) 0 0" "\<not> sealable W"
      "sends (exchange W c st cfg req) = []"
      "limited_collect (w_runtime W) (rq_body req) (max_request_bytes cfg) = Ready t (Inr q)"
      "state_open_request (w_hpke W) (w_aead W) st q = Inr (pt, ctx)"
  | (ran) t q pt ctx call where "(resp, oc) = finish W st q ctx (the (w_rnd W)) call" "sealable W"
      "limited_collect (w_runtime W) (rq_body req) (max_request_bytes cfg) = Ready t (Inr q)"
      "state_open_request (w_hpke W) (w_aead W) st q = Inr (pt, ctx)"
      "outcome (run_world W c cfg pt) = Some call"
proof (cases "limited_collect (w_runtime W) (rq_body req) (max_request_bytes cfg)")
  case Never
  then show thesis using assms by (simp add: outcome_exchange)
next
  case (Ready t x)
  show thesis
  proof (cases x)
    case (Inl e)
    then show thesis using assms Ready read[of e] by (simp add: outcome_exchange sends_exchange)
  next
    case (Inr q)
    show thesis
    proof (cases "state_open_request (w_hpke W) (w_aead W) st q")
      case (Inl e)
      moreover have "e = EnvelopeError" by (cases e)
      ultimately show thesis using assms Ready Inr closed[of q t]
        by (simp add: outcome_exchange sends_exchange sends_after_open outcome_after_open)
    next
      case open_ok: (Inr p)
      obtain pt ctx where "p = (pt, ctx)" by (cases p)
      then show thesis using assms Ready Inr open_ok unusable[of q t pt ctx] ran[of q ctx _ t pt]
        by (cases "sealable W")
          (auto simp: outcome_exchange sends_exchange sends_after_open outcome_after_open plaintext_500_def)
    qed
  qed
qed

lemma confidential_response_eq:
  assumes "build_confidential_response X P status n body sr = resp" and "resp \<noteq> bare 500"
  shows "resp = \<lparr>rs_status = (if status \<in> {204, 205, 304} then 200 else status), rs_headers =
      [(''content-type'', ascii ''message/ohttp-res''), (''vrpc-signature'', ascii (signature_hex X sr)),
       (''vrpc-timestamp'', ascii (dec (unat (timestamp_ms sr)))), (''vrpc-pubkey'', ascii (signed_pubkey_hex sr)),
       (''vrpc-batch-size'', ascii (dec n))], rs_body = body\<rparr>"
  using assms by (auto simp: build_confidential_response_def Let_def plaintext_500_def split: if_split_asm)

lemma confidential_response_shape:
  assumes "build_confidential_response X P status n body sr = resp" and "resp \<noteq> bare 500"
  shows "rs_status resp = (if status \<in> {204, 205, 304} then 200 else status) \<and> rs_body resp = body
    \<and> get_all ''content-type'' (rs_headers resp) = [ascii ''message/ohttp-res'']
    \<and> get_all ''vrpc-signature'' (rs_headers resp) = [ascii (signature_hex X sr)]
    \<and> get_all ''vrpc-timestamp'' (rs_headers resp) = [ascii (dec (unat (timestamp_ms sr)))]
    \<and> get_all ''vrpc-pubkey'' (rs_headers resp) = [ascii (signed_pubkey_hex sr)]
    \<and> get_all ''vrpc-batch-size'' (rs_headers resp) = [ascii (dec n)]"
  by (subst confidential_response_eq[OF assms])+ simp

section \<open>The round trip\<close>

text \<open>The crates and the runtime behave as documented, for the keys of the signing state.\<close>

definition crates_ok :: "('c, 'm) world \<Rightarrow> signing_state \<Rightarrow> bool" where
  "crates_ok W st \<longleftrightarrow>
     signing_crates (w_hex W) (w_sig W) (w_http W) \<and> hpke_correct (w_hpke W) (kem_secret st) \<and>
     hkdf_total (w_aead W) \<and> gcm_correct (w_aead W) AesGcm256 \<and> gcm_key_size (w_aead W) AesGcm256 = 32 \<and>
     bhttp_builder (w_bhttp W) \<and> bhttp_roundtrip (w_bhttp W) \<and> limited_spec (w_runtime W) \<and>
     timeout_spec (w_tokio W)"

text \<open>The fixed error bodies can be encoded, and the response builder accepts what it documents.\<close>

definition answers_encodable :: "('c, 'm) world \<Rightarrow> bool" where
  "answers_encodable W \<longleftrightarrow>
     (\<forall>e. encode_response (w_bhttp W) (inner_response_from e) \<noteq> None) \<and>
     response_builds (w_http W)"

text \<open>The nonce is drawn and the clock is usable when it is checked and when the answer is signed.\<close>

definition machine_ok :: "('c, 'm) world \<Rightarrow> bool" where
  "machine_ok W \<longleftrightarrow>
     (\<exists>nonce. w_rnd W = Some nonce \<and> length nonce = 32) \<and>
     (\<exists>ms. now_ms (w_clock0 W) = Inr ms) \<and> (\<exists>ms. now_ms (w_clock W) = Inr ms)"

lemma attested_key:
  assumes "signing_inv X G H st" and "hpke_correct H (kem_secret st)"
  shows "to_montgomery G (pubkey_bytes G st) = hpke_sk_to_pk H (kem_secret st)"
  using assms by (auto simp: signing_inv_def hpke_correct_def public_key_def try_bind_Inr_iff Let_def
      split: if_splits)

lemma seal_inner_total:
  assumes ctx: "ctx_matches A cc ctx" and A: "hkdf_total A" "gcm_correct A AesGcm256" "gcm_key_size A AesGcm256 = 32"
    and nonce: "length nonce = 32" and enc: "\<forall>e. encode_response B (inner_response_from e) \<noteq> None"
  obtains s where "seal_inner B ctx nonce result = Some s"
proof (cases "try_bind result (\<lambda>(status, msg).
    ok_or (map_option (\<lambda>buf. (status, buf)) (encode_with_nonce B msg nonce)) Internal)")
  case (Inr p)
  then obtain status msg where "p = (status, nonce @ concat (fst (bh_write B msg)))"
    by (auto simp: try_bind_Inr_iff encode_with_nonce_Some split: prod.split_asm)
  moreover obtain out where "seal_in_place ctx (nonce @ concat (fst (bh_write B msg))) = (out, Inr ())"
    using open_sealed_response[OF ctx A nonce] by metis
  ultimately show thesis using Inr that by (simp add: seal_inner_def)
next
  case (Inl e)
  obtain x where x: "encode_response B (inner_response_from e) = Some x" using enc by blast
  moreover obtain out where "seal ctx nonce x = Inr out"
    using open_sealed_response[OF ctx A nonce, of x] by metis
  ultimately show thesis using Inl that by (simp add: seal_inner_def)
qed

lemma seal_inner_status:
  assumes "seal_inner B ctx nonce result = Some s"
  shows "(\<exists>msg. result = Inr (se_inner_status s, msg)) \<or> (\<exists>e. se_inner_status s = error_status e)"
  using assms
  by (auto simp: seal_inner_def Let_def bind_eq_Some_conv try_bind_Inr_iff inner_response_from_def
      split: sum.split_asm prod.split_asm)

lemma run_inner_status:
  assumes "timeout_spec T" and "bhttp_builder B"
    and "outcome (run_inner P B J R T c cfg pt) = Some call" and "ic_result call = Inr (status, msg)"
  shows "200 \<le> status \<and> status \<le> 599"
proof -
  obtain inner t where "snd (call_upstream P B R T c cfg inner) = Ready t (Inr (status, msg))"
    using run_inner_outcome[OF assms(3)] assms(4)
    by (auto simp: inner_call_failed_def split: sum.split_asm if_split_asm)
  then have "outcome (call_upstream P B R T c cfg inner) = Some (Inr (status, msg))"
    by (simp add: outcome_Some)
  then obtain r where "outcome (read_upstream B R (max_response_bytes cfg) r) = Some (Inr (status, msg))"
    using call_upstream_answer[OF assms(1)] by (fastforce split: sum.split_asm)
  then show ?thesis using read_upstream_ok[OF _ assms(2)] by (fastforce simp: relayable_def)
qed

lemma sealed_status_range:
  assumes crates: "crates_ok W st" and call: "outcome (run_world W c cfg pt) = Some call"
    and s: "seal_inner (w_bhttp W) ctx nonce (ic_result call) = Some s"
  shows "200 \<le> se_inner_status s \<and> se_inner_status s \<le> 599"
proof -
  have laws: "timeout_spec (w_tokio W)" "bhttp_builder (w_bhttp W)"
    using crates by (simp_all add: crates_ok_def)
  show ?thesis
    using seal_inner_status[OF s]
  proof (elim disjE exE)
    show "ic_result call = Inr (se_inner_status s, msg) \<Longrightarrow> ?thesis" for msg
      using run_inner_status[OF laws call] .
    show "se_inner_status s = error_status e \<Longrightarrow> ?thesis" for e
      using error_status_range[of e] by simp
  qed
qed

text \<open>The builder takes the five headers of a sealed answer.\<close>

lemma confidential_response_built:
  assumes "signing_crates X G P" and "signing_inv X G H st" and "response_builds P"
    and "sign G st clock q body = Inr sr" and "200 \<le> status \<and> status \<le> 599"
  shows "build_confidential_response X P status n body sr \<noteq> bare 500"
proof -
  have "signed_pubkey_hex sr = prefixed_hex X (pubkey_bytes G st)"
    using assms(2,4) by (auto simp: sign_clock_spec sign_with_timestamp_def Let_def signing_inv_def split: if_splits)
  moreover have "hex_digits X" using assms(1) by (simp add: signing_crates_def)
  ultimately have "headers_fit
      [(''content-type'', ascii ''message/ohttp-res''), (''vrpc-signature'', ascii (signature_hex X sr)),
       (''vrpc-timestamp'', ascii (dec (unat (timestamp_ms sr)))), (''vrpc-pubkey'', ascii (signed_pubkey_hex sr)),
       (''vrpc-batch-size'', ascii (dec n))]"
    using signing_headers_ok[of X sr] by (simp add: headers_fit_def)
  then have "response_build_ok P (if status \<in> {204, 205, 304} then 200 else status)
      [(''content-type'', ascii ''message/ohttp-res''), (''vrpc-signature'', ascii (signature_hex X sr)),
       (''vrpc-timestamp'', ascii (dec (unat (timestamp_ms sr)))), (''vrpc-pubkey'', ascii (signed_pubkey_hex sr)),
       (''vrpc-batch-size'', ascii (dec n))]"
    using assms(3,5) by (simp add: response_builds_def)
  then show ?thesis by (simp add: build_confidential_response_def Let_def bare_def)
qed

lemma crates_signing: "crates_ok W st \<Longrightarrow> signing_crates (w_hex W) (w_sig W) (w_http W)"
  by (simp add: crates_ok_def)

lemma encodable_builds: "answers_encodable W \<Longrightarrow> response_builds (w_http W)"
  by (simp add: answers_encodable_def)

lemma finish_verifies:
  assumes crates: "crates_ok W st" and inv: "signing_inv (w_hex W) (w_sig W) (w_hpke W) st"
    and enc: "answers_encodable W" and clock: "now_ms (w_clock W) = Inr ms"
    and call: "outcome (run_world W c cfg pt) = Some call"
    and s: "seal_inner (w_bhttp W) ctx nonce (ic_result call) = Some s"
  obtains resp oc where "finish W st q ctx nonce call = (resp, oc)" "rs_body resp = se_body s"
    "rs_status resp = (if se_inner_status s \<in> {204, 205, 304} then 200 else se_inner_status s)"
    "verify_signed_response (w_hex W) (w_sig W) (w_http W) (chain_id st) q resp = Inr ()"
    "get_all ''vrpc-pubkey'' (rs_headers resp) = [ascii (prefixed_hex (w_hex W) (pubkey_bytes (w_sig W) st))]"
proof -
  let ?sr = "sign_with_timestamp (w_sig W) st q (se_body s) ms"
  let ?resp = "build_confidential_response (w_hex W) (w_http W) (se_inner_status s) (ic_batch_size call) (se_body s) ?sr"
  have signs: "sign (w_sig W) st (w_clock W) q (se_body s) = Inr ?sr"
    using clock by (simp add: sign_def)
  note shape = confidential_response_shape[OF refl
      confidential_response_built[OF crates_signing[OF crates] inv encodable_builds[OF enc] signs sealed_status_range[OF crates call s]]]
  have "verify_signed_response (w_hex W) (w_sig W) (w_http W) (chain_id st) q ?resp = Inr ()"
    using crates inv shape by (intro verify_accepts[where sr = ?sr and ts = ms]) (auto simp: crates_ok_def)
  moreover have "signed_pubkey_hex ?sr = prefixed_hex (w_hex W) (pubkey_bytes (w_sig W) st)"
    using inv by (simp add: sign_with_timestamp_def Let_def signing_inv_def)
  ultimately show thesis using that shape s signs by (simp add: finish_def Let_def)
qed

lemma sealed_class_not_cancelled:
  "seal_inner B ctx nonce result = Some s \<Longrightarrow> se_class s \<noteq> ClsCancelled"
proof -
  have "error_class e \<noteq> ClsCancelled" for e by (cases e) simp_all
  then show "seal_inner B ctx nonce result = Some s \<Longrightarrow> se_class s \<noteq> ClsCancelled"
    by (auto simp: seal_inner_def Let_def bind_eq_Some_conv split: sum.split_asm prod.split_asm)
qed

text \<open>What is recorded about an answer agrees with it.\<close>

lemma answer_sizes:
  assumes crates: "crates_ok W st" and inv: "signing_inv (w_hex W) (w_sig W) (w_hpke W) st" and enc: "answers_encodable W"
    and ex: "outcome (exchange W c st cfg req) = Some (resp, oc)"
  shows "oc_response_bytes oc = length (rs_body resp) \<and> oc_class oc \<noteq> ClsCancelled \<and>
    (get_all ''vrpc-batch-size'' (rs_headers resp) = [] \<or>
     get_all ''vrpc-batch-size'' (rs_headers resp) = [ascii (dec (oc_batch_size oc))])"
  using ex
proof (cases rule: exchange_cases)
  case (read e)
  then show ?thesis by (cases e) (simp_all add: read_failure_def outcome_plaintext_def bare_def)
next
  case (ran t q pt ctx call)
  show ?thesis
  proof (cases "plaintext_class (oc_class oc)")
    case True
    then show ?thesis using finish_plain[OF ran(1)[symmetric]]
      by (simp add: unsealable_def outcome_plaintext_def bare_def)
  next
    case False
    then obtain s sr where sealed: "seal_inner (w_bhttp W) ctx (the (w_rnd W)) (ic_result call) = Some s"
        and resp: "resp = build_confidential_response (w_hex W) (w_http W) (se_inner_status s) (ic_batch_size call) (se_body s) sr"
        and signs: "sign (w_sig W) st (w_clock W) q (se_body s) = Inr sr"
        and oc: "oc_class oc = se_class s" "oc_response_bytes oc = length (se_body s)" "oc_batch_size oc = ic_batch_size call"
      using finish_sealed[OF ran(1)[symmetric]] by (metis call_outcome.select_convs(1,3,5))
    have "resp \<noteq> bare 500"
      unfolding resp by (rule confidential_response_built[OF crates_signing[OF crates] inv encodable_builds[OF enc] signs sealed_status_range[OF crates ran(5) sealed]])
    then show ?thesis
      using confidential_response_shape[OF resp[symmetric]] oc sealed_class_not_cancelled[OF sealed] by simp
  qed
qed (simp_all add: outcome_plaintext_def unsealable_def pre_decapsulation_error_def bare_def)

section \<open>A concrete exchange\<close>

definition demo_world :: "(bytes, demo_msg) world" where
  "demo_world = \<lparr>w_hex = demo_hex, w_sig = demo_sig, w_hpke = demo_hpke_zero, w_aead = demo_aead,
     w_http = demo_http, w_bhttp = demo_bhttp, w_json = demo_json, w_runtime = demo_node,
     w_tokio = \<lparr>timeout = demo_timeout\<rparr>, w_rnd = Some (replicate 32 3), w_clock0 = 0, w_clock = 0\<rparr>"

definition demo_outer :: bytes where
  "demo_outer = vector_hdr @ pad 32 [5] @ demo_plaintext @ replicate 16 7"

definition demo_cc :: client_ctx where
  "demo_cc = \<lparr>cc_enc = pad 32 [5], cc_secret = pad 32 (pad 32 [5] @ vector_info)\<rparr>"

definition demo_post :: request where
  "demo_post = demo_request\<lparr>rq_body := Next 1 (Data demo_outer) (Eof 0)\<rparr>"

lemma demo_world_sel [simp]:
  "w_hex demo_world = demo_hex" "w_sig demo_world = demo_sig" "w_hpke demo_world = demo_hpke_zero"
  "w_aead demo_world = demo_aead" "w_http demo_world = demo_http" "w_bhttp demo_world = demo_bhttp"
  "w_json demo_world = demo_json" "w_runtime demo_world = demo_node"
  "w_tokio demo_world = \<lparr>timeout = demo_timeout\<rparr>" "w_rnd demo_world = Some (replicate 32 3)"
  "w_clock0 demo_world = 0" "w_clock demo_world = 0"
  by (simp_all add: demo_world_def)

lemma demo_hpke_zero_correct: "hpke_correct demo_hpke_zero sk"
  by (simp add: hpke_correct_def demo_hpke_zero_def demo_hpke_def)

lemma demo_node_collect [simp]: "limited_collect demo_node = demo_collect"
  by (simp add: demo_node_def demo_runtime_def)

lemma demo_crates_ok: "crates_ok demo_world demo_state"
proof -
  have "limited_spec demo_node" using demo_collect_spec by (simp add: limited_spec_def)
  then show ?thesis
    by (simp add: crates_ok_def demo_crates demo_hpke_zero_correct demo_aead_laws demo_builder demo_roundtrip
        demo_timeout_spec) (simp add: demo_aead_def)
qed

lemma demo_encodable: "answers_encodable demo_world"
proof -
  have "encode_response demo_bhttp (inner_response_from e) \<noteq> None" for e
    by (cases e; simp only:; code_simp)
  then show ?thesis by (auto simp: answers_encodable_def demo_http_builds)
qed

lemma demo_clock: "now_ms 0 = Inr 0"
  by (simp add: now_ms_def u64_try_from_def)

lemma demo_machine: "machine_ok demo_world"
  by (simp add: machine_ok_def demo_clock)

lemma demo_client_seal: "client_seal demo_hpke_zero [5] pk demo_plaintext = Some (demo_outer, demo_cc)"
  by (simp add: client_seal_def demo_hpke_zero_def demo_hpke_def demo_outer_def demo_cc_def)

lemma demo_post_body: "body_data (rq_body demo_post) = Some demo_outer" "length demo_outer = 85"
  by (simp_all add: demo_post_def demo_outer_def demo_plaintext_def vector_hdr_def)

lemma demo_opens: "\<exists>ctx. state_open_request demo_hpke_zero demo_aead demo_state demo_outer = Inr (demo_plaintext, ctx)"
  using open_client_seal[OF demo_hpke_zero_correct demo_client_seal] unfolding state_open_request_def by metis

lemma demo_batch: "batch_size demo_json [91, 93] = 2"
  by (simp add: batch_size_def deserialize_seq_eq demo_json_def usize_max_def)

lemma demo_sent: "sends (exchange demo_world demo_client demo_state demo_config demo_post) = [demo_inner_request]"
proof -
  obtain ctx where open_ok: "state_open_request demo_hpke_zero demo_aead demo_state demo_outer = Inr (demo_plaintext, ctx)"
    using demo_opens by blast
  have collect: "demo_collect (rq_body demo_post) 200 = Ready 1 (Inr demo_outer)"
    using demo_post_body(2) by (simp add: demo_post_def)
  have "ir_body demo_inner = [91, 93]" "max_batch_size demo_config = 2" "max_request_bytes demo_config = 200"
    by (simp_all add: demo_inner_def demo_config_def)
  then show ?thesis
    using open_ok collect
    by (simp add: sends_exchange sends_after_open run_inner_sends demo_decodes demo_batch demo_call
        sealable_def demo_clock)
qed

section \<open>Properties\<close>

text \<open>
  C6: The upstream sees a confidential call only after every check has passed.  If an exchange sends a
  request, the outer body was complete and within its cap, the envelope opened under the sidecar's key,
  the response nonce was drawn and the clock usable, the plaintext was a valid inner request, and its
  batch is within the limit; and it sends exactly one request, with the inner request's method and
  content.
\<close>
theorem upstream_only_after_checks:
  assumes "limited_spec (w_runtime W)" and "r \<in> set (sends (exchange W c st cfg req))"
  shows "\<exists>q pt ctx inner. body_data (rq_body req) = Some q \<and> length q \<le> max_request_bytes cfg
    \<and> state_open_request (w_hpke W) (w_aead W) st q = Inr (pt, ctx)
    \<and> w_rnd W \<noteq> None \<and> (\<exists>ms. now_ms (w_clock0 W) = Inr ms)
    \<and> decode_inner (w_http W) (w_bhttp W) pt = Inr inner
    \<and> batch_size (w_json W) (ir_body inner) \<le> max_batch_size cfg
    \<and> sends (exchange W c st cfg req) = [r] \<and> up_method r = ir_method inner \<and> up_body r = ir_body inner"
proof -
  obtain t q pt ctx inner where q: "limited_collect (w_runtime W) (rq_body req) (max_request_bytes cfg) = Ready t (Inr q)"
      and "state_open_request (w_hpke W) (w_aead W) st q = Inr (pt, ctx)" "sealable W"
      "decode_inner (w_http W) (w_bhttp W) pt = Inr inner"
      "batch_size (w_json W) (ir_body inner) \<le> max_batch_size cfg"
      and s: "sends (exchange W c st cfg req) =
        sends (call_upstream (w_http W) (w_bhttp W) (w_runtime W) (w_tokio W) c cfg inner)"
    using exchange_sent[OF assms(2)] .
  moreover have "sends (exchange W c st cfg req) = [r] \<and> up_method r = ir_method inner \<and> up_body r = ir_body inner"
    using call_upstream_one[of r] assms(2) unfolding s by blast
  ultimately show ?thesis
    using collect_within[OF assms(1) q] unfolding sealable_def by blast
qed

theorem upstream_only_after_checks_witness:
  "\<exists>q. body_data (rq_body demo_post) = Some q \<and> length q \<le> 200
     \<and> sends (exchange demo_world demo_client demo_state demo_config demo_post) = [demo_inner_request]"
proof -
  have "limited_spec (w_runtime demo_world)" using demo_crates_ok by (simp add: crates_ok_def)
  moreover have "demo_inner_request \<in> set (sends (exchange demo_world demo_client demo_state demo_config demo_post))"
    by (simp add: demo_sent)
  moreover have "max_request_bytes demo_config = 200" by (simp add: demo_config_def)
  ultimately show ?thesis
    using upstream_only_after_checks[of demo_world demo_inner_request demo_client demo_state demo_config demo_post]
    by metis
qed

text \<open>
  C17: A confidential exchange ends: once the outer body has been read (or has failed), the answer is
  there within the upstream timeout, whatever the upstream does.
\<close>
theorem exchange_terminates:
  assumes "timeout_spec (w_tokio W)"
    and "limited_collect (w_runtime W) (rq_body req) (max_request_bytes cfg) = Ready t0 x"
  shows "\<exists>t y. snd (exchange W c st cfg req) = Ready t y \<and> t0 \<le> t \<and> t \<le> t0 + upstream_timeout cfg"
proof -
  have "\<exists>t y. snd (after_open W c st cfg q) = Ready t y \<and> t \<le> upstream_timeout cfg" for q
  proof (cases "state_open_request (w_hpke W) (w_aead W) st q")
    case (Inr p)
    obtain pt ctx where p: "p = (pt, ctx)" by (cases p)
    obtain t call where t: "snd (run_world W c cfg pt) = Ready t call" "t \<le> upstream_timeout cfg"
      by (rule run_inner_terminates[OF assms(1)])
    obtain es where "run_world W c cfg pt = (es, Ready t call)" using t(1) by (metis prod.collapse)
    then show ?thesis using Inr p t(2)
      by (cases "sealable W") (simp_all add: after_open_def io_map_def io_ret_def)
  qed (simp add: after_open_def io_ret_def)
  then have "\<exists>es t y. after_open W c st cfg q = (es, Ready t y) \<and> t \<le> upstream_timeout cfg" for q
    by (metis prod.collapse)
  then obtain es t y where "after_open W c st cfg (projr x) = (es, Ready t y)" "t \<le> upstream_timeout cfg"
    by blast
  then show ?thesis
    using assms(2) by (cases x) (simp_all add: exchange_eq io_fut_def io_ret_def)
qed

theorem exchange_terminates_witness:
  "\<exists>t y. snd (exchange demo_world demo_client demo_state demo_config demo_post) = Ready t y \<and> t \<le> 26"
proof -
  have "limited_collect (w_runtime demo_world) (rq_body demo_post) (max_request_bytes demo_config) = Ready 1 (Inr demo_outer)"
    using demo_post_body(2) by (simp add: demo_post_def demo_config_def)
  moreover have "timeout_spec (w_tokio demo_world)" by (simp add: demo_timeout_spec)
  moreover have "upstream_timeout demo_config = 25" by (simp add: demo_config_def)
  ultimately show ?thesis
    using exchange_terminates[of demo_world demo_post demo_config 1 "Inr demo_outer" demo_client demo_state]
    by auto
qed

text \<open>
  C18: Every answer of the confidential endpoint is one of five kinds, and its log class says which and why.
  It is logged as too large exactly when the reader hit its limit (as it does for every complete body over
  the cap) and is then a bare 413; as a failed read exactly when the body broke, a bare 400; as
  pre-decapsulation exactly when a complete body did not open as an envelope, the fixed \<open>ohttp-key\<close> problem
  with status 400, whatever was wrong with it; in these three cases nothing is sent.  It is unsealable, a bare
  500, exactly when the envelope opened but there was no nonce or usable clock, or the answer of
  the inner call could not be sealed or signed.  Everything else is the sealed result of the inner call on
  the opened plaintext, signed over exactly the received outer body and the returned body, and logged with
  the class of that result.
\<close>
theorem exchange_answers:
  assumes "outcome (exchange W c st cfg req) = Some (resp, oc)"
  shows "let collected = limited_collect (w_runtime W) (rq_body req) (max_request_bytes cfg);
             opened = state_open_request (w_hpke W) (w_aead W) st;
             sealed = (\<lambda>ctx call. seal_inner (w_bhttp W) ctx (the (w_rnd W)) (ic_result call));
             sig = (\<lambda>q s. sign (w_sig W) st (w_clock W) q (se_body s))
    in (oc_class oc = ClsRequestTooLarge \<longleftrightarrow> (\<exists>t. collected = Ready t (Inl LengthLimit)))
     \<and> (oc_class oc = ClsRequestReadFailed \<longleftrightarrow> (\<exists>t. collected = Ready t (Inl ReadError)))
     \<and> (oc_class oc = ClsPreDecapsulation \<longleftrightarrow> (\<exists>t q. collected = Ready t (Inr q) \<and> opened q = Inl EnvelopeError))
     \<and> (oc_class oc = ClsUnsealable \<longleftrightarrow>
          (\<exists>t q pt ctx. collected = Ready t (Inr q) \<and> opened q = Inr (pt, ctx) \<and>
             (sealable W \<longrightarrow> (\<exists>call. outcome (run_world W c cfg pt) = Some call \<and>
                (\<forall>s sr. sealed ctx call = Some s \<longrightarrow> sig q s \<noteq> Inr sr)))))
     \<and> (limited_spec (w_runtime W) \<and> body_data (rq_body req) = Some b \<and> max_request_bytes cfg < length b \<longrightarrow>
          oc_class oc = ClsRequestTooLarge)
     \<and> (case oc_class oc of
          ClsRequestTooLarge \<Rightarrow> resp = bare 413 \<and> sends (exchange W c st cfg req) = []
        | ClsRequestReadFailed \<Rightarrow> resp = bare 400 \<and> sends (exchange W c st cfg req) = []
        | ClsPreDecapsulation \<Rightarrow> resp = pre_decapsulation_error \<and> sends (exchange W c st cfg req) = []
        | ClsUnsealable \<Rightarrow> resp = bare 500
        | cls \<Rightarrow> (\<exists>t q pt ctx call s sr. collected = Ready t (Inr q) \<and> opened q = Inr (pt, ctx)
              \<and> outcome (run_world W c cfg pt) = Some call \<and> sealed ctx call = Some s \<and> sig q s = Inr sr
              \<and> resp = build_confidential_response (w_hex W) (w_http W) (se_inner_status s) (ic_batch_size call) (se_body s) sr
              \<and> cls = result_class (sealed_result (w_bhttp W) (the (w_rnd W)) (ic_result call))))"
  using assms
proof (cases rule: exchange_cases)
  case (read e)
  then show ?thesis unfolding Let_def limited_spec_def
    by (cases e) (fastforce simp: read_failure_def outcome_plaintext_def)+
next
  case (closed t q)
  then show ?thesis unfolding Let_def limited_spec_def by (fastforce simp: outcome_plaintext_def)
next
  case (unusable t q pt ctx)
  then show ?thesis unfolding Let_def limited_spec_def by (fastforce simp: unsealable_def outcome_plaintext_def)
next
  case (ran t q pt ctx call)
  show ?thesis
  proof (cases "plaintext_class (oc_class oc)")
    case True
    then have "resp = bare 500" "oc_class oc = ClsUnsealable"
        "\<forall>s sr. seal_inner (w_bhttp W) ctx (the (w_rnd W)) (ic_result call) = Some s \<longrightarrow>
           sign (w_sig W) st (w_clock W) q (se_body s) \<noteq> Inr sr"
      using finish_plain[OF ran(1)[symmetric] True] by (simp_all add: unsealable_def outcome_plaintext_def)
    then show ?thesis using ran unfolding Let_def limited_spec_def by fastforce
  next
    case False
    obtain s sr where sealed: "seal_inner (w_bhttp W) ctx (the (w_rnd W)) (ic_result call) = Some s"
        "sign (w_sig W) st (w_clock W) q (se_body s) = Inr sr"
        "resp = build_confidential_response (w_hex W) (w_http W) (se_inner_status s) (ic_batch_size call) (se_body s) sr"
        "oc_class oc = se_class s"
      by (rule finish_sealed[OF ran(1)[symmetric] False]) simp
    note cls = sealed(4)[unfolded seal_inner_sel[OF sealed(1)]]
    have rest: "\<not> (limited_spec (w_runtime W) \<and> body_data (rq_body req) = Some b \<and> max_request_bytes cfg < length b)"
      using ran(3) unfolding limited_spec_def by fastforce
    have "\<exists>t q pt ctx call s sr. limited_collect (w_runtime W) (rq_body req) (max_request_bytes cfg) = Ready t (Inr q)
        \<and> state_open_request (w_hpke W) (w_aead W) st q = Inr (pt, ctx)
        \<and> outcome (run_world W c cfg pt) = Some call
        \<and> seal_inner (w_bhttp W) ctx (the (w_rnd W)) (ic_result call) = Some s
        \<and> sign (w_sig W) st (w_clock W) q (se_body s) = Inr sr
        \<and> resp = build_confidential_response (w_hex W) (w_http W) (se_inner_status s) (ic_batch_size call) (se_body s) sr
        \<and> oc_class oc = result_class (sealed_result (w_bhttp W) (the (w_rnd W)) (ic_result call))"
      using ran(3-5) sealed(1-3) cls by blast
    then show ?thesis using False ran rest sealed(1,2) unfolding Let_def
      by (cases "oc_class oc") (auto simp: plaintext_class_def)
  qed
qed

theorem exchange_answers_witness:
  "fst (the (outcome (exchange demo_world demo_client demo_state (demo_config\<lparr>max_request_bytes := 1\<rparr>) demo_post)))
     = bare 413"
proof -
  let ?cfg = "demo_config\<lparr>max_request_bytes := 1\<rparr>"
  obtain resp oc where out: "outcome (exchange demo_world demo_client demo_state ?cfg demo_post) = Some (resp, oc)"
    using demo_post_body(2) by (simp add: outcome_exchange demo_post_def) (metis prod.collapse)
  have big: "limited_spec (w_runtime demo_world) \<and> body_data (rq_body demo_post) = Some demo_outer
      \<and> max_request_bytes ?cfg < length demo_outer"
    using demo_crates_ok demo_post_body by (simp add: crates_ok_def)
  note answer = exchange_answers[OF out, of demo_outer, unfolded Let_def]
  have "oc_class oc = ClsRequestTooLarge" using answer big by blast
  then have "resp = bare 413"
    using answer[THEN conjunct2, THEN conjunct2, THEN conjunct2, THEN conjunct2, THEN conjunct2] by simp
  then show ?thesis using out by simp
qed

text \<open>
  C20: What an observer of a sealed answer sees.  Whatever the upstream answered, the outer response of a
  sealed exchange has exactly five headers, so no header of the upstream is visible outside the
  envelope: the fixed content type, the signature, timestamp and key of this answer, and the batch size, which is
  the count of the opened request (1 when it was not a request), not something the upstream chose.  Its status
  is a final one that allows a body: the inner status, with 200 in place of 204, 205 and 304.
\<close>
theorem sealed_answer_headers:
  assumes crates: "crates_ok W st" and inv: "signing_inv (w_hex W) (w_sig W) (w_hpke W) st" and enc: "answers_encodable W"
    and out: "outcome (exchange W c st cfg req) = Some (resp, oc)" and sealed: "\<not> plaintext_class (oc_class oc)"
  shows "\<exists>t q pt ctx sr. limited_collect (w_runtime W) (rq_body req) (max_request_bytes cfg) = Ready t (Inr q)
    \<and> state_open_request (w_hpke W) (w_aead W) st q = Inr (pt, ctx)
    \<and> sign (w_sig W) st (w_clock W) q (rs_body resp) = Inr sr
    \<and> map fst (rs_headers resp) = [''content-type'', ''vrpc-signature'', ''vrpc-timestamp'', ''vrpc-pubkey'', ''vrpc-batch-size'']
    \<and> map snd (rs_headers resp) =
        [ascii ''message/ohttp-res'', ascii (signature_hex (w_hex W) sr), ascii (dec (unat (timestamp_ms sr))),
         ascii (prefixed_hex (w_hex W) (pubkey_bytes (w_sig W) st)),
         ascii (dec (case decode_inner (w_http W) (w_bhttp W) pt of Inl _ \<Rightarrow> 1 | Inr r \<Rightarrow> batch_size (w_json W) (ir_body r)))]
    \<and> rs_status resp = (if oc_inner_status oc \<in> {204, 205, 304} then 200 else oc_inner_status oc)
    \<and> 200 \<le> rs_status resp \<and> rs_status resp \<le> 599 \<and> rs_status resp \<notin> {204, 205, 304}"
  using out
proof (cases rule: exchange_cases)
  case (read e)
  then show ?thesis using sealed by (cases e) (simp_all add: read_failure_def outcome_plaintext_def plaintext_class_def)
next
  case (ran t q pt ctx call)
  obtain s sr where s: "seal_inner (w_bhttp W) ctx (the (w_rnd W)) (ic_result call) = Some s"
      "sign (w_sig W) st (w_clock W) q (se_body s) = Inr sr"
      "resp = build_confidential_response (w_hex W) (w_http W) (se_inner_status s) (ic_batch_size call) (se_body s) sr"
      "oc_inner_status oc = se_inner_status s"
    by (rule finish_sealed[OF ran(1)[symmetric] sealed]) auto
  have range: "200 \<le> se_inner_status s \<and> se_inner_status s \<le> 599" by (rule sealed_status_range[OF crates ran(5) s(1)])
  have "resp \<noteq> bare 500" unfolding s(3) by (rule confidential_response_built[OF crates_signing[OF crates] inv encodable_builds[OF enc] s(2) range])
  note resp = confidential_response_eq[OF s(3)[symmetric] this]
  have pk: "signed_pubkey_hex sr = prefixed_hex (w_hex W) (pubkey_bytes (w_sig W) st)"
    using inv s(2) by (auto simp: sign_clock_spec sign_with_timestamp_def Let_def signing_inv_def split: if_splits)
  have batch: "ic_batch_size call =
      (case decode_inner (w_http W) (w_bhttp W) pt of Inl _ \<Rightarrow> 1 | Inr r \<Rightarrow> batch_size (w_json W) (ir_body r))"
    using run_inner_outcome[OF ran(5)] by (auto simp: inner_call_failed_def split: sum.splits)
  show ?thesis
    using ran(3,4) s(2,4) range by (auto simp: resp pk batch)
qed (use sealed in \<open>simp_all add: outcome_plaintext_def unsealable_def plaintext_class_def\<close>)

lemma exchange_roundtrip:
  assumes crates: "crates_ok W st" and inv: "signing_inv (w_hex W) (w_sig W) (w_hpke W) st"
    and enc: "answers_encodable W" and machine: "machine_ok W"
    and client: "client_seal (w_hpke W) rnd (to_montgomery (w_sig W) (pubkey_bytes (w_sig W) st)) pt = Some (q, cc)"
    and body: "body_data (rq_body req) = Some q" "length q \<le> max_request_bytes cfg"
  shows "\<exists>resp oc call s m.
    outcome (exchange W c st cfg req) = Some (resp, oc)
    \<and> verify_signed_response (w_hex W) (w_sig W) (w_http W) (chain_id st) q resp = Inr ()
    \<and> outcome (run_world W c cfg pt) = Some call
    \<and> client_inner_response (w_aead W) (w_bhttp W) cc (rs_body resp) = Some m
    \<and> client_sees (w_bhttp W) m (sealed_result (w_bhttp W) (the (w_rnd W)) (ic_result call)) s
    \<and> get_all ''vrpc-pubkey'' (rs_headers resp) = [ascii (prefixed_hex (w_hex W) (pubkey_bytes (w_sig W) st))]
    \<and> rs_status resp = (if se_inner_status s \<in> {204, 205, 304} then 200 else se_inner_status s)"
proof -
  have A: "hkdf_total (w_aead W)" "gcm_correct (w_aead W) AesGcm256" "gcm_key_size (w_aead W) AesGcm256 = 32"
    and B: "bhttp_builder (w_bhttp W)" "bhttp_roundtrip (w_bhttp W)" and H: "hpke_correct (w_hpke W) (kem_secret st)"
    and rt: "limited_spec (w_runtime W)" "timeout_spec (w_tokio W)"
    using crates by (simp_all add: crates_ok_def)
  obtain nonce ms where nonce: "w_rnd W = Some nonce" "length nonce = 32" and clock: "now_ms (w_clock W) = Inr ms"
      and able: "sealable W"
    using machine by (auto simp: machine_ok_def sealable_def)
  obtain t where read: "limited_collect (w_runtime W) (rq_body req) (max_request_bytes cfg) = Ready t (Inr q)"
    using rt(1) body unfolding limited_spec_def by blast
  obtain ctx where open_ok: "open_request (w_hpke W) (w_aead W) (kem_secret st) q = Inr (pt, ctx)"
      and ctx: "ctx_matches (w_aead W) cc ctx"
    using open_client_seal[OF H client[unfolded attested_key[OF inv H]]] .
  obtain t' call where "snd (run_world W c cfg pt) = Ready t' call"
    using run_inner_terminates[OF rt(2)] .
  then have call: "outcome (run_world W c cfg pt) = Some call" by (simp add: outcome_Some)
  obtain s where s: "seal_inner (w_bhttp W) ctx nonce (ic_result call) = Some s"
    using seal_inner_total[OF ctx A nonce(2)] enc unfolding answers_encodable_def by metis
  obtain resp oc where fin: "finish W st q ctx nonce call = (resp, oc)" "rs_body resp = se_body s"
      "rs_status resp = (if se_inner_status s \<in> {204, 205, 304} then 200 else se_inner_status s)"
      "verify_signed_response (w_hex W) (w_sig W) (w_http W) (chain_id st) q resp = Inr ()"
      "get_all ''vrpc-pubkey'' (rs_headers resp) = [ascii (prefixed_hex (w_hex W) (pubkey_bytes (w_sig W) st))]"
    using finish_verifies[OF crates inv enc clock call s] .
  have "outcome (exchange W c st cfg req) = Some (resp, oc)"
    using read open_ok able call fin(1) nonce(1)
    by (simp add: outcome_exchange outcome_after_open state_open_request_def)
  then show ?thesis
    using fin(2-5) call seal_inner_opens[OF ctx A nonce(2) B s] nonce(1) by (metis option.sel)
qed

lemma plain_unsigned:
  assumes "outcome (exchange W c st cfg req) = Some (resp, oc)" and "plaintext_class (oc_class oc)"
  shows "get_all ''vrpc-pubkey'' (rs_headers resp) = []"
  using assms(1)
proof (cases rule: exchange_cases)
  case (read e)
  then show ?thesis by (cases e) (simp_all add: read_failure_def bare_def)
next
  case (ran t q pt ctx call)
  then show ?thesis using finish_plain[OF ran(1)[symmetric] assms(2)] by (simp add: bare_def)
qed (simp_all add: pre_decapsulation_error_def bare_def)

lemma demo_sealed:
  obtains resp oc where "outcome (exchange demo_world demo_client demo_state demo_config demo_post) = Some (resp, oc)"
    "\<not> plaintext_class (oc_class oc)"
proof -
  have "length demo_outer \<le> max_request_bytes demo_config"
    using demo_post_body(2) by (simp add: demo_config_def)
  then obtain resp oc where "outcome (exchange demo_world demo_client demo_state demo_config demo_post) = Some (resp, oc)"
      "get_all ''vrpc-pubkey'' (rs_headers resp) = [ascii (prefixed_hex demo_hex (pubkey_bytes demo_sig demo_state))]"
    using exchange_roundtrip[OF demo_crates_ok _ demo_encodable demo_machine _ demo_post_body(1),
        of "[5]" demo_plaintext demo_cc demo_config demo_client] demo_state_inv(1) demo_client_seal
    by auto
  then show thesis using that plain_unsigned by fastforce
qed

theorem sealed_answer_headers_witness:
  "\<exists>resp oc. outcome (exchange demo_world demo_client demo_state demo_config demo_post) = Some (resp, oc)
     \<and> map fst (rs_headers resp) = [''content-type'', ''vrpc-signature'', ''vrpc-timestamp'', ''vrpc-pubkey'', ''vrpc-batch-size'']"
proof -
  obtain resp oc where out: "outcome (exchange demo_world demo_client demo_state demo_config demo_post) = Some (resp, oc)"
      "\<not> plaintext_class (oc_class oc)"
    by (rule demo_sealed)
  then show ?thesis
    using sealed_answer_headers[OF demo_crates_ok _ demo_encodable out] demo_state_inv(1) by auto
qed

text \<open>
  C2: The confidential round trip.  A client that encapsulates any plaintext for the X25519 form of the
  attested Ed25519 key and posts it within the size cap gets an answer, and can verify and open it: the
  signature verifies over the bytes it sent and received under the announced key, which is that key, and the envelope opens to a BHTTP response
  that carries exactly what the inner call produced, status, content types and body of the
  upstream's answer, or the fixed problem body of the error (500 if the answer itself cannot be
  encoded); the outer status is the inner one, with 200 for the statuses without a body.
\<close>
theorem confidential_roundtrip:
  assumes crates: "crates_ok W st" and inv: "signing_inv (w_hex W) (w_sig W) (w_hpke W) st"
    and enc: "answers_encodable W" and machine: "machine_ok W"
    and client: "client_seal (w_hpke W) rnd (to_montgomery (w_sig W) (pubkey_bytes (w_sig W) st)) pt = Some (q, cc)"
    and body: "body_data (rq_body req) = Some q" "length q \<le> max_request_bytes cfg"
  shows "\<exists>resp oc call s m.
    outcome (exchange W c st cfg req) = Some (resp, oc)
    \<and> verify_signed_response (w_hex W) (w_sig W) (w_http W) (chain_id st) q resp = Inr ()
    \<and> outcome (run_world W c cfg pt) = Some call
    \<and> client_inner_response (w_aead W) (w_bhttp W) cc (rs_body resp) = Some m
    \<and> client_sees (w_bhttp W) m (sealed_result (w_bhttp W) (the (w_rnd W)) (ic_result call)) s
    \<and> get_all ''vrpc-pubkey'' (rs_headers resp) = [ascii (prefixed_hex (w_hex W) (pubkey_bytes (w_sig W) st))]
    \<and> rs_status resp = (if se_inner_status s \<in> {204, 205, 304} then 200 else se_inner_status s)"
  by (rule exchange_roundtrip[OF assms])

theorem confidential_roundtrip_witness:
  "\<exists>resp oc m. outcome (exchange demo_world demo_client demo_state demo_config demo_post) = Some (resp, oc)
     \<and> verify_signed_response demo_hex demo_sig demo_http (chain_id demo_state) demo_outer resp = Inr ()
     \<and> client_inner_response demo_aead demo_bhttp demo_cc (rs_body resp) = Some m"
proof -
  have "length demo_outer \<le> max_request_bytes demo_config"
    using demo_post_body(2) by (simp add: demo_config_def)
  then show ?thesis
    using confidential_roundtrip[OF demo_crates_ok _ demo_encodable demo_machine _ demo_post_body(1),
        of "[5]" demo_plaintext demo_cc demo_config demo_client] demo_state_inv(1) demo_client_seal
    by auto
qed

text \<open>
  C19: The log line of a completed call matches the answer the client got: its status, the size of its
  body and, where the answer announces one, the batch size; a completed call is never logged as cancelled.
\<close>
theorem log_matches_answer:
  assumes crates: "crates_ok W st" and inv: "signing_inv (w_hex W) (w_sig W) (w_hpke W) st" and enc: "answers_encodable W"
    and fin: "outcome (confidential_exchange W c st cfg started req) = Some (resp, g)"
  shows "ll_status (guard_drop g now) = rs_status resp
    \<and> ll_response_bytes (guard_drop g now) = length (rs_body resp)
    \<and> ll_outcome (guard_drop g now) \<noteq> ''cancelled''
    \<and> get_all ''vrpc-batch-size'' (rs_headers resp) \<in>
        {[], [ascii (dec (ll_batch_size (guard_drop g now)))]}"
proof -
  obtain oc where ex: "outcome (exchange W c st cfg req) = Some (resp, oc)"
      and g: "og_done g = Some (oc, rs_status resp)"
    using fin by (auto simp: confidential_exchange_def)
  have line: "ll_status (guard_drop g now) = rs_status resp" "ll_outcome (guard_drop g now) = class_as_str (oc_class oc)"
    "ll_response_bytes (guard_drop g now) = oc_response_bytes oc" "ll_batch_size (guard_drop g now) = oc_batch_size oc"
    by (simp_all add: guard_drop_def g log_outcome_def)
  show ?thesis
    using answer_sizes[OF crates inv enc ex] class_as_str_inj[of "oc_class oc" ClsCancelled] unfolding line by auto
qed

theorem log_matches_answer_witness:
  "\<exists>resp g. outcome (confidential_exchange demo_world demo_client demo_state (demo_config\<lparr>max_request_bytes := 1\<rparr>) 0 demo_post)
     = Some (resp, g) \<and> ll_status (guard_drop g 9) = rs_status resp"
proof -
  let ?cfg = "demo_config\<lparr>max_request_bytes := 1\<rparr>"
  have "\<exists>resp g. outcome (confidential_exchange demo_world demo_client demo_state ?cfg 0 demo_post) = Some (resp, g)"
    using demo_post_body(2)
    by (simp add: confidential_exchange_def outcome_exchange demo_post_def split: prod.splits)
  then show ?thesis using log_matches_answer[OF demo_crates_ok _ demo_encodable] demo_state_inv(1) by auto
qed

end
