(* ===== verification/Attestation.thy ===== *)
theory Attestation
  imports Verifier
begin

text \<open>
  \<open>src/src/attestation.rs\<close>: the \<open>/attestation\<close> and \<open>/info\<close> endpoints.  The state caches what dstack
  reported at boot; every request asks dstack for a new quote over the signing key and the caller's
  nonce, and waits for it without a deadline.  \<open>D\<close> is the dstack guest agent and \<open>'q\<close> its quote.
\<close>

section \<open>State\<close>

definition REPORT_DATA_LEN :: nat where "REPORT_DATA_LEN = 64"
definition REPORT_DATA_PUBKEY_OFFSET :: nat where "REPORT_DATA_PUBKEY_OFFSET = 0"
definition REPORT_DATA_NONCE_OFFSET :: nat where "REPORT_DATA_NONCE_OFFSET = 32"

lemmas report_consts = REPORT_DATA_LEN_def REPORT_DATA_PUBKEY_OFFSET_def REPORT_DATA_NONCE_OFFSET_def

record 'q attestation_state =
  as_dstack :: "'q dstack"
  as_signing_pubkey :: bytes
  as_compose_hash :: ustr
  as_app_compose :: ustr
  as_info_json :: bytes

record 'q attestation_response =
  ar_quote :: 'q
  ar_pubkey :: string
  ar_compose_hash :: ustr
  ar_app_compose :: ustr

text \<open>The derived \<open>Serialize\<close>: the fields in order, \<open>compose_hash\<close> renamed.\<close>

definition attestation_json :: "'q dstack \<Rightarrow> 'q attestation_response \<Rightarrow> json" where
  "attestation_json D r =
     JObject [(''quote'', ds_quote_json D (ar_quote r)), (''pubkey'', JString (chars (ar_pubkey r))),
              (''composeHash'', JString (ar_compose_hash r)), (''app_compose'', JString (ar_app_compose r))]"

text \<open>The errors of the module, by the context \<open>anyhow\<close> attaches to them.\<close>

datatype attestation_error =
  DstackInfo | SerialiseInfo | NoComposeHash | DstackGetQuote | MissingNonce | NonceNotHex | NonceLength nat

section \<open>Operations\<close>

definition resolve_compose_hash :: "ustr \<Rightarrow> bool \<Rightarrow> attestation_error + ustr" where
  "resolve_compose_hash info_hash allow_empty =
     (if info_hash \<noteq> [] then Inr info_hash
      else if allow_empty then Inr []
      else Inl NoComposeHash)"

definition attestation_bootstrap ::
  "'q dstack \<Rightarrow> bytes \<Rightarrow> bool \<Rightarrow> (attestation_error + 'q attestation_state) fut" where
  "attestation_bootstrap D pk allow_empty =
     fut_try (fut_map (\<lambda>r. ok_or r DstackInfo) (ds_info D)) (\<lambda>info. Ready 0 (
     try_bind (ok_or (ds_info_json D info) SerialiseInfo) (\<lambda>json.
     let app_compose = info_app_compose info in
     try_bind (resolve_compose_hash (info_compose_hash info) allow_empty) (\<lambda>hash.
       Inr \<lparr>as_dstack = D, as_signing_pubkey = pk, as_compose_hash = hash,
            as_app_compose = app_compose, as_info_json = json\<rparr>))))"

definition build_report_data :: "bytes \<Rightarrow> bytes \<Rightarrow> bytes" where
  "build_report_data pk nonce =
     (let buf = replicate REPORT_DATA_LEN 0;
          buf = overwrite buf REPORT_DATA_PUBKEY_OFFSET pk
      in overwrite buf REPORT_DATA_NONCE_OFFSET nonce)"

definition attestation_get ::
  "hex_crate \<Rightarrow> 'q attestation_state \<Rightarrow> bytes \<Rightarrow> (attestation_error + 'q attestation_response) fut" where
  "attestation_get X st nonce =
     (let report_data = build_report_data (as_signing_pubkey st) nonce in
      fut_try (fut_map (\<lambda>r. ok_or r DstackGetQuote) (ds_get_quote (as_dstack st) report_data)) (\<lambda>quote.
        Ready 0 (Inr \<lparr>ar_quote = quote, ar_pubkey = prefixed_hex X (as_signing_pubkey st),
             ar_compose_hash = as_compose_hash st, ar_app_compose = as_app_compose st\<rparr>)))"

definition parse_user_nonce :: "hex_crate \<Rightarrow> ustr \<Rightarrow> attestation_error + bytes" where
  "parse_user_nonce X s =
     (let trimmed = trim_start_matches (chars ''0X'') (trim_start_matches (chars ''0x'') (trim s)) in
      try_bind (ok_or (hex_decode X (utf8 trimmed)) NonceNotHex) (\<lambda>bs.
        if length bs = 32 then Inr bs else Inl (NonceLength (length bs))))"

definition extract_nonce :: "hex_crate \<Rightarrow> ustr option \<Rightarrow> attestation_error + bytes" where
  "extract_nonce X query = try_bind (ok_or query MissingNonce) (parse_user_nonce X)"

text \<open>The handlers: a status and the error text, or the JSON answer.\<close>

definition attestation_handler ::
  "hex_crate \<Rightarrow> 'q attestation_state \<Rightarrow> ustr option \<Rightarrow> ((nat \<times> attestation_error) + 'q attestation_response) fut" where
  "attestation_handler X st query =
     fut_try (Ready 0 (map_err (\<lambda>e. (400, e)) (extract_nonce X query))) (\<lambda>nonce.
       fut_map (map_err (\<lambda>e. (502, e))) (attestation_get X st nonce))"

definition info_handler :: "'q attestation_state \<Rightarrow> response" where
  "info_handler st =
     \<lparr>rs_status = 200, rs_headers = [(''content-type'', ascii ''application/json'')],
      rs_body = as_info_json st\<rparr>"

section \<open>Report data\<close>

lemma build_report_data_eq:
  assumes "length pk = 32" and "length nonce = 32"
  shows "build_report_data pk nonce = pk @ nonce"
  using assms by (simp add: build_report_data_def report_consts Let_def overwrite_def)

definition report_ok :: "bytes \<times> bytes \<Rightarrow> bool" where
  "report_ok p \<longleftrightarrow> length (fst p) = 32 \<and> length (snd p) = 32"

interpretation report: fixed_layout "\<lambda>(pk, nonce). build_report_data pk nonce" report_ok REPORT_DATA_LEN
proof
  show "report_ok a \<Longrightarrow> length (case a of (pk, n) \<Rightarrow> build_report_data pk n) = REPORT_DATA_LEN" for a
    by (cases a) (simp add: report_ok_def build_report_data_eq report_consts)
  show "report_ok a \<Longrightarrow> report_ok b \<Longrightarrow>
      (case a of (pk, n) \<Rightarrow> build_report_data pk n) = (case b of (pk, n) \<Rightarrow> build_report_data pk n) \<Longrightarrow> a = b" for a b
    by (cases a; cases b) (simp add: report_ok_def build_report_data_eq append_eq_parts)
qed

text \<open>A dstack agent whose quotes carry the report data they were asked for.\<close>

definition quotes_bind :: "'q dstack \<Rightarrow> ('q \<Rightarrow> bytes) \<Rightarrow> bool" where
  "quotes_bind D report_data \<longleftrightarrow> (\<forall>d t q. ds_get_quote D d = Ready t (Some q) \<longrightarrow> report_data q = d)"

text \<open>The handler as a case distinction: on the nonce, then on what dstack answers, if it does.\<close>

lemma attestation_handler_eq:
  "attestation_handler X st query =
     (case extract_nonce X query of
        Inl e \<Rightarrow> Ready 0 (Inl (400, e))
      | Inr nonce \<Rightarrow>
          fut_map (\<lambda>r. case r of
              None \<Rightarrow> Inl (502, DstackGetQuote)
            | Some quote \<Rightarrow> Inr \<lparr>ar_quote = quote, ar_pubkey = prefixed_hex X (as_signing_pubkey st),
                ar_compose_hash = as_compose_hash st, ar_app_compose = as_app_compose st\<rparr>)
            (ds_get_quote (as_dstack st) (build_report_data (as_signing_pubkey st) nonce)))"
proof (cases "extract_nonce X query")
  case (Inr nonce)
  let ?q = "ds_get_quote (as_dstack st) (build_report_data (as_signing_pubkey st) nonce)"
  show ?thesis
  proof (cases ?q)
    case (Ready t r)
    then show ?thesis using Inr by (cases r) (simp_all add: attestation_handler_def attestation_get_def Let_def)
  qed (simp add: Inr attestation_handler_def attestation_get_def Let_def)
qed (simp add: attestation_handler_def)

section \<open>Nonces\<close>

lemma trim_start_repeat:
  assumes "pat \<noteq> []"
  shows "trim_start_matches pat (concat (replicate k pat) @ s) = trim_start_matches pat s"
proof (induction k)
  case (Suc k)
  show ?case
    by (subst trim_start_matches.simps) (simp add: assms Suc)
qed simp

lemma trim_start_stop:
  assumes "take (length pat) s \<noteq> pat"
  shows "trim_start_matches pat s = s"
  using assms by (subst trim_start_matches.simps) simp

lemma extract_nonce_length: "extract_nonce X query = Inr n \<Longrightarrow> length n = 32"
  by (auto simp: extract_nonce_def parse_user_nonce_def Let_def try_bind_Inr_iff split: if_splits)

lemma chars_append: "chars (s @ t) = chars s @ chars t"
  by (simp add: chars_def)

lemma chars_concat_replicate: "chars (concat (replicate k s)) = concat (replicate k (chars s))"
  by (induction k) (simp_all add: chars_append chars_def)

lemma hex_no_prefix:
  assumes "hex_digits X" and "c = CHR ''x'' \<or> c = CHR ''X''"
  shows "take 2 (chars (hex_encode X bs)) \<noteq> chars [CHR ''0'', c]"
proof
  let ?h = "hex_encode X bs"
  assume "take 2 (chars ?h) = chars [CHR ''0'', c]"
  then have "take 2 ?h = [CHR ''0'', c]" by (metis chars_def chars_inj take_map)
  then have "c \<in> set (take 2 ?h)" by simp
  then have "c \<in> set ?h" using in_set_takeD by fast
  then have "c \<in> set ''0123456789abcdef''" using assms(1) unfolding hex_digits_def by (meson subsetD)
  then show False using assms(2) by auto
qed

lemma parse_nonce_text:
  assumes "hex_digits X" and "hex_roundtrip X" and "length n = 32"
  shows "parse_user_nonce X (chars (concat (replicate i ''0x'') @ concat (replicate j ''0X'') @ hex_encode X n)) = Inr n"
proof -
  let ?h = "hex_encode X n"
  let ?s = "concat (replicate i ''0x'') @ concat (replicate j ''0X'') @ ?h"
  have "\<not> is_whitespace (of_char c)" if "c \<in> set ?s" for c
    using that hex_text[OF assms(1), of c n]
    by (auto simp: is_whitespace_def split: if_splits)
  then have trim: "trim (chars ?s) = chars ?s"
    unfolding chars_def by (intro trim_no_whitespace) (simp only: list_all_iff set_map, blast)
  have len: "length (chars ''0x'') = 2" "length (chars ''0X'') = 2" and ne: "chars ''0x'' \<noteq> []" "chars ''0X'' \<noteq> []"
    by (simp_all add: chars_def)
  have "take 2 (chars (concat (replicate j ''0X'') @ ?h)) \<noteq> chars ''0x''"
    using hex_no_prefix[OF assms(1), of "CHR ''x''" n] by (cases j) (simp_all add: chars_append chars_def)
  then have "trim_start_matches (chars ''0x'') (chars (concat (replicate j ''0X'') @ ?h)) =
      chars (concat (replicate j ''0X'') @ ?h)"
    by (intro trim_start_stop) (simp only: len not_False_eq_True)
  then have x: "trim_start_matches (chars ''0x'') (chars ?s) = chars (concat (replicate j ''0X'') @ ?h)"
    unfolding chars_append[of "concat (replicate i ''0x'')"] chars_concat_replicate[of i]
    by (simp only: trim_start_repeat[OF ne(1)])
  have "trim_start_matches (chars ''0X'') (chars ?h) = chars ?h"
    using hex_no_prefix[OF assms(1), of "CHR ''X''" n]
    by (intro trim_start_stop) (simp only: len simp_thms)
  then have X: "trim_start_matches (chars ''0X'') (chars (concat (replicate j ''0X'') @ ?h)) = chars ?h"
    unfolding chars_append chars_concat_replicate by (simp only: trim_start_repeat[OF ne(2)])
  have "utf8 (chars ?h) = ascii ?h"
    by (rule utf8_ascii) (use hex_text[OF assms(1)] in fastforce)
  then show ?thesis
    using assms(2,3) by (simp add: parse_user_nonce_def trim x X hex_roundtrip_def)
qed

section \<open>Properties\<close>

lemma attestation_handler_quote:
  assumes "attestation_handler X st query = Ready t (Inr r)" and "quotes_bind (as_dstack st) rd"
  obtains nonce where "extract_nonce X query = Inr nonce"
    "rd (ar_quote r) = build_report_data (as_signing_pubkey st) nonce"
    "ar_pubkey r = prefixed_hex X (as_signing_pubkey st)" "ar_compose_hash r = as_compose_hash st"
    "ar_app_compose r = as_app_compose st"
  using assms
  by (fastforce simp: attestation_handler_eq fut_map_iff quotes_bind_def split: sum.split_asm option.split_asm)

text \<open>
  A served quote is bound to the signing key and to the caller's nonce.  When \<open>/attestation\<close> answers,
  the nonce had 32 bytes, the quote's report data is exactly the 64 bytes key, nonce, no other key and
  nonce give the same report data, and the \<open>pubkey\<close> field decodes to the quoted key.
\<close>
theorem attestation_binds:
  assumes "attestation_handler X st query = Ready t (Inr r)" and "quotes_bind (as_dstack st) rd"
    and "length (as_signing_pubkey st) = 32" and "hex_digits X" and "hex_roundtrip X"
  shows "\<exists>nonce. extract_nonce X query = Inr nonce \<and> length nonce = 32
    \<and> rd (ar_quote r) = as_signing_pubkey st @ nonce \<and> length (rd (ar_quote r)) = REPORT_DATA_LEN
    \<and> (\<forall>pk n. length pk = 32 \<and> length n = 32 \<and> build_report_data pk n = rd (ar_quote r) \<longrightarrow>
         pk = as_signing_pubkey st \<and> n = nonce)
    \<and> decode_hex_0x X (chars (ar_pubkey r)) = Some (as_signing_pubkey st)
    \<and> ar_compose_hash r = as_compose_hash st \<and> ar_app_compose r = as_app_compose st"
proof -
  obtain nonce where n: "extract_nonce X query = Inr nonce"
    and r: "rd (ar_quote r) = build_report_data (as_signing_pubkey st) nonce"
      "ar_pubkey r = prefixed_hex X (as_signing_pubkey st)" "ar_compose_hash r = as_compose_hash st"
      "ar_app_compose r = as_app_compose st"
    using attestation_handler_quote[OF assms(1,2)] .
  have len: "length nonce = 32" using n by (rule extract_nonce_length)
  have "(pk, n') = (as_signing_pubkey st, nonce)"
    if "length pk = 32 \<and> length n' = 32 \<and> build_report_data pk n' = rd (ar_quote r)" for pk n'
    using report.enc_inj[of "(pk, n')" "(as_signing_pubkey st, nonce)"] that len assms(3) r(1)
    by (simp add: report_ok_def)
  moreover have "length (rd (ar_quote r)) = REPORT_DATA_LEN"
    using report.enc_length[of "(as_signing_pubkey st, nonce)"] len assms(3) r(1) by (simp add: report_ok_def)
  ultimately show ?thesis
    using n len r build_report_data_eq[OF assms(3) len] decode_prefixed_hex[OF assms(4,5)] by auto
qed

definition demo_dstack :: "bytes dstack" where
  "demo_dstack = \<lparr>ds_get_key = (\<lambda>p u. Ready 3 (Some (chars (demo_hex_encode (replicate 32 0))))),
     ds_info = Ready 2 (Some \<lparr>info_compose_hash = [97], info_app_compose = [98]\<rparr>),
     ds_info_json = (\<lambda>i. Some [123, 125]), ds_get_quote = (\<lambda>d. Ready 4 (Some d)),
     ds_quote_json = (\<lambda>q. JObject [(''quote'', JString (map unat q))])\<rparr>"

definition demo_attestation :: "bytes attestation_state" where
  "demo_attestation = \<lparr>as_dstack = demo_dstack, as_signing_pubkey = replicate 32 0, as_compose_hash = [97],
     as_app_compose = [98], as_info_json = [123, 125]\<rparr>"

lemma demo_attested:
  "\<exists>r. attestation_handler demo_hex demo_attestation
     (Some (chars (demo_hex_encode (replicate 32 7)))) = Ready 4 (Inr r)"
proof -
  have "parse_user_nonce demo_hex (chars (concat (replicate 0 ''0x'') @ concat (replicate 0 ''0X'') @
      hex_encode demo_hex (replicate 32 7))) = Inr (replicate 32 7)"
    by (rule parse_nonce_text[OF demo_hex_digits demo_hex_roundtrip]) simp
  then show ?thesis
    by (simp add: attestation_handler_eq extract_nonce_def demo_attestation_def demo_dstack_def demo_hex_def)
qed

theorem attestation_binds_witness:
  "\<exists>r nonce. attestation_handler demo_hex demo_attestation
       (Some (chars (demo_hex_encode (replicate 32 7)))) = Ready 4 (Inr r)
     \<and> ar_quote r = replicate 32 0 @ nonce \<and> length nonce = 32"
proof -
  obtain r where r: "attestation_handler demo_hex demo_attestation
      (Some (chars (demo_hex_encode (replicate 32 7)))) = Ready 4 (Inr r)"
    using demo_attested by blast
  have "quotes_bind (as_dstack demo_attestation) (\<lambda>q. q)"
    by (simp add: quotes_bind_def demo_attestation_def demo_dstack_def)
  moreover have "as_signing_pubkey demo_attestation = replicate 32 0" by (simp add: demo_attestation_def)
  ultimately show ?thesis
    using attestation_binds[OF r, of "\<lambda>q. q"] demo_hex_digits demo_hex_roundtrip r by auto
qed

text \<open>
  C37: Which nonces are accepted.  Any 32-byte nonce in hexadecimal is, bare or behind any number of \<open>0x\<close>
  followed by any number of \<open>0X\<close> prefixes; whatever is accepted has exactly 32 bytes; without a \<open>nonce\<close>
  parameter the request is refused.
\<close>
theorem nonce_parsing:
  assumes "hex_digits X" and "hex_roundtrip X" and "length n = 32"
  shows "extract_nonce X (Some (chars (concat (replicate i ''0x'') @ concat (replicate j ''0X'') @ hex_encode X n))) = Inr n
    \<and> (extract_nonce X query = Inr m \<longrightarrow> length m = 32)
    \<and> extract_nonce X None = Inl MissingNonce"
  using parse_nonce_text[OF assms] extract_nonce_length[of X query m] by (simp add: extract_nonce_def)

theorem nonce_parsing_witness:
  "extract_nonce demo_hex (Some (chars (''0x0x'' @ demo_hex_encode (replicate 32 7)))) = Inr (replicate 32 7)"
  using nonce_parsing[OF demo_hex_digits demo_hex_roundtrip, of "replicate 32 7" 2 0]
  by (simp add: demo_hex_def numeral_2_eq_2)

text \<open>
  The errors of \<open>/attestation\<close>: 400 exactly when the nonce is missing, not hexadecimal or not 32
  bytes, and 502 exactly when dstack answers the request for a quote over the key and the nonce with an error.
\<close>
theorem attestation_errors:
  "attestation_handler X st query = Ready t (Inl (code, e)) \<longleftrightarrow>
     (code = 400 \<and> t = 0 \<and> extract_nonce X query = Inl e) \<or>
     (code = 502 \<and> e = DstackGetQuote \<and>
       (\<exists>nonce. extract_nonce X query = Inr nonce \<and>
          ds_get_quote (as_dstack st) (build_report_data (as_signing_pubkey st) nonce) = Ready t None))"
  by (auto simp: attestation_handler_eq fut_map_iff split: sum.splits option.splits)

end
