(* ===== verification/Server.thy ===== *)
theory Server
  imports Exchange Attestation
begin

text \<open>
  \<open>src/src/server.rs\<close> with the handlers it routes to (\<open>proxy_handler\<close> of \<open>proxy.rs\<close>,
  \<open>confidential_handler\<close> of \<open>confidential.rs\<close>).  \<open>build_router\<close> is the tree of builder calls the source
  writes; what axum does with such a tree, its extractors and its layers, are the parameter \<open>A\<close>, and
  \<open>axum_routes\<close> states the routing rules axum documents for each builder call.
\<close>

section \<open>Routers as data\<close>

datatype handler =
  AttestationHandler | InfoHandler | ConfidentialHandler | ConfidentialMethodNotAllowed | ProxyHandler

datatype methods = Get | Post | AnyMethod

record method_router =
  mr_methods :: methods
  mr_handler :: handler
  mr_fallback :: "handler option"

text \<open>\<open>DefaultBodyLimit None\<close> is \<open>DefaultBodyLimit::disable()\<close>.\<close>

datatype layer = DefaultBodyLimit "nat option" | CompressionLayer

datatype router =
    NewRouter
  | Route router bytes method_router
  | Fallback router method_router
  | Layered router layer
  | Merged router router

record 'q app_state =
  app_upstream :: upstream_client
  app_signing :: signing_state
  app_attestation :: "'q attestation_state"
  app_confidential :: confidential_config

definition on_methods :: "methods \<Rightarrow> handler \<Rightarrow> method_router" where
  "on_methods ms h = \<lparr>mr_methods = ms, mr_handler = h, mr_fallback = None\<rparr>"

definition build_router :: "'q app_state \<Rightarrow> nat option \<Rightarrow> router \<times> 'q app_state" where
  "build_router state max_body =
     (let body_limit = (case max_body of Some n \<Rightarrow> DefaultBodyLimit (Some n) | None \<Rightarrow> DefaultBodyLimit None);
          passthrough =
            Layered (Layered
              (Fallback
                (Route (Route NewRouter (ascii ''/attestation'') (on_methods Get AttestationHandler))
                  (ascii ''/info'') (on_methods Get InfoHandler))
                (on_methods AnyMethod ProxyHandler))
              body_limit) CompressionLayer
      in (Merged
           (Route NewRouter (ascii ''/confidential'')
             ((on_methods Post ConfidentialHandler)\<lparr>mr_fallback := Some ConfidentialMethodNotAllowed\<rparr>))
           passthrough, state))"

section \<open>axum\<close>

datatype target = Call handler | MethodNotAllowed | NotFound

text \<open>
  \<open>ax_dispatch\<close> gives the service a request reaches, by path and method, and the layers around it,
  outermost first.  \<open>ax_query\<close> is the \<open>Query<AttestationQuery>\<close> extractor with its rejection, \<open>ax_json\<close> and
  \<open>ax_text\<close> the \<open>into_response\<close> of \<open>Json\<close> and of a status with a text, \<open>ax_compress\<close> what the compression layer
  makes of a response, \<open>ax_default\<close> the answer when no handler takes the request, and \<open>ax_finish\<close> what the
  outermost route does to an answer (content length, the allowed methods, no body for \<open>HEAD\<close>).
\<close>

record 'q axum =
  ax_dispatch :: "router \<Rightarrow> bytes \<Rightarrow> bytes \<Rightarrow> target \<times> layer list"
  ax_query :: "request \<Rightarrow> response + ustr option"
  ax_json :: "json \<Rightarrow> response"
  ax_text :: "nat \<Rightarrow> string \<Rightarrow> response"
  ax_compress :: "request \<Rightarrow> response \<Rightarrow> response"
  ax_default :: "nat \<Rightarrow> response"
  ax_finish :: "request \<Rightarrow> response \<Rightarrow> response"

text \<open>A handler added with \<open>get\<close> also serves \<open>HEAD\<close>.\<close>

primrec takes :: "methods \<Rightarrow> bytes \<Rightarrow> bool" where
  "takes Get m = (m = ascii ''GET'' \<or> m = ascii ''HEAD'')"
| "takes Post m = (m = ascii ''POST'')"
| "takes AnyMethod m = True"

definition method_target :: "method_router \<Rightarrow> bytes \<Rightarrow> target" where
  "method_target mr m =
     (if takes (mr_methods mr) m then Call (mr_handler mr)
      else case mr_fallback mr of Some h \<Rightarrow> Call h | None \<Rightarrow> MethodNotAllowed)"

primrec routed :: "router \<Rightarrow> bytes \<Rightarrow> bool" where
  "routed NewRouter p = False"
| "routed (Route r q mr) p = (p = q \<or> routed r p)"
| "routed (Fallback r mr) p = routed r p"
| "routed (Layered r l) p = routed r p"
| "routed (Merged r s) p = (routed r p \<or> routed s p)"

text \<open>
  The documented rules: a literal path is matched as a whole and its method router answers for every
  method; the fallback takes the paths that no route matches; a layer wraps what was added before it;
  a merged router has the routes of both and the fallback of the second.
\<close>

definition axum_routes :: "'q axum \<Rightarrow> bool" where
  "axum_routes A \<longleftrightarrow>
     (\<forall>p m. ax_dispatch A NewRouter p m = (NotFound, [])) \<and>
     (\<forall>r q mr p m. ax_dispatch A (Route r q mr) p m = (if p = q then (method_target mr m, []) else ax_dispatch A r p m)) \<and>
     (\<forall>r mr p m. ax_dispatch A (Fallback r mr) p m = (if routed r p then ax_dispatch A r p m else (method_target mr m, []))) \<and>
     (\<forall>r l p m. ax_dispatch A (Layered r l) p m = apsnd (Cons l) (ax_dispatch A r p m)) \<and>
     (\<forall>r s p m. ax_dispatch A (Merged r s) p m = (if routed r p then ax_dispatch A r p m else ax_dispatch A s p m))"

definition axum_finish :: "'q axum \<Rightarrow> bool" where
  "axum_finish A \<longleftrightarrow>
     (\<forall>req resp. rs_status (ax_finish A req resp) = rs_status resp \<and>
        (rq_method req \<noteq> ascii ''HEAD'' \<longrightarrow> rs_body (ax_finish A req resp) = rs_body resp) \<and>
        (\<forall>n. n \<notin> {''content-length'', ''transfer-encoding'', ''allow''} \<longrightarrow>
           get_all n (rs_headers (ax_finish A req resp)) = get_all n (rs_headers resp)))"

text \<open>
  A client undoes the content encodings an answer announces.  The compression layer keeps the status and
  every header but the ones that describe the encoding, and what it encodes decodes to the body it was given.
\<close>

definition decoded :: "(bytes list \<Rightarrow> bytes \<Rightarrow> bytes) \<Rightarrow> response \<Rightarrow> response" where
  "decoded decode resp = resp\<lparr>rs_body := decode (get_all ''content-encoding'' (rs_headers resp)) (rs_body resp)\<rparr>"

definition compression_lossless :: "'q axum \<Rightarrow> (bytes list \<Rightarrow> bytes \<Rightarrow> bytes) \<Rightarrow> bool" where
  "compression_lossless A decode \<longleftrightarrow>
     (\<forall>req resp. get_all ''content-encoding'' (rs_headers resp) = [] \<longrightarrow>
        rs_status (ax_compress A req resp) = rs_status resp \<and>
        rs_body (decoded decode (ax_compress A req resp)) = rs_body resp \<and>
        (\<forall>n. n \<notin> {''content-encoding'', ''content-length'', ''vary'', ''accept-ranges''} \<longrightarrow>
           get_all n (rs_headers (ax_compress A req resp)) = get_all n (rs_headers resp)))"

text \<open>
  What the client makes of the answers of the extractors: \<open>Json\<close> is a 200 whose body its parser reads back,
  a status with a text is that status and text, a query that does not parse is a 400.
\<close>

definition axum_answers :: "'q axum \<Rightarrow> (bytes \<Rightarrow> json option) \<Rightarrow> bool" where
  "axum_answers A parse \<longleftrightarrow>
     (\<forall>v. rs_status (ax_json A v) = 200 \<and> get_all ''content-encoding'' (rs_headers (ax_json A v)) = [] \<and>
        parse (rs_body (ax_json A v)) = Some v) \<and>
     (\<forall>s t. rs_status (ax_text A s t) = s \<and> get_all ''content-encoding'' (rs_headers (ax_text A s t)) = [] \<and>
        rs_body (ax_text A s t) = ascii t) \<and>
     (\<forall>req resp. ax_query A req = Inl resp \<longrightarrow>
        rs_status resp = 400 \<and> get_all ''content-encoding'' (rs_headers resp) = [])"

section \<open>Handlers\<close>

text \<open>The text of the errors a client can see.\<close>

primrec attestation_error_text :: "attestation_error \<Rightarrow> string" where
  "attestation_error_text DstackInfo = ''dstack info''"
| "attestation_error_text SerialiseInfo = ''serialise dstack info''"
| "attestation_error_text NoComposeHash =
     ''dstack info returned no compose_hash; refuse to boot. Pass --allow-empty-compose-hash to override (dev/test only).''"
| "attestation_error_text DstackGetQuote = ''dstack get_quote''"
| "attestation_error_text MissingNonce = ''missing required ?nonce=<32B hex>''"
| "attestation_error_text NonceNotHex = ''user_nonce must be hex''"
| "attestation_error_text (NonceLength n) = ''user_nonce must be 32 bytes, got '' @ dec n"

definition attestation_endpoint :: "('c, 'm) world \<Rightarrow> 'q axum \<Rightarrow> 'q app_state \<Rightarrow> request \<Rightarrow> response fut" where
  "attestation_endpoint W A state req =
     (case ax_query A req of
        Inl rejection \<Rightarrow> Ready 0 rejection
      | Inr query \<Rightarrow>
          fut_map (\<lambda>r. case r of
              Inr r \<Rightarrow> ax_json A (attestation_json (as_dstack (app_attestation state)) r)
            | Inl (code, e) \<Rightarrow> ax_text A code (attestation_error_text e))
            (attestation_handler (w_hex W) (app_attestation state) query))"

definition proxy_handler :: "('c, 'm) world \<Rightarrow> 'q app_state \<Rightarrow> request \<Rightarrow> response io" where
  "proxy_handler W state req =
     forward (w_hex W) (w_sig W) (w_http W) (w_runtime W) (app_upstream state) req (app_signing state) (w_clock W)"

definition confidential_handler ::
  "('c, 'm) world \<Rightarrow> 'q app_state \<Rightarrow> nat \<Rightarrow> request \<Rightarrow> (response \<times> outcome_guard) io" where
  "confidential_handler W state started req =
     confidential_exchange W (app_upstream state) (app_signing state) (app_confidential state) started req"

section \<open>Serving a request\<close>

definition run_handler ::
  "('c, 'm) world \<Rightarrow> 'q axum \<Rightarrow> 'q app_state \<Rightarrow> nat \<Rightarrow> request \<Rightarrow> handler \<Rightarrow> response io" where
  "run_handler W A state started req h =
     (case h of
        AttestationHandler \<Rightarrow> io_fut (attestation_endpoint W A state req)
      | InfoHandler \<Rightarrow> io_ret (info_handler (app_attestation state))
      | ConfidentialHandler \<Rightarrow> io_map fst (confidential_handler W state started req)
      | ConfidentialMethodNotAllowed \<Rightarrow> io_ret (fst confidential_method_not_allowed)
      | ProxyHandler \<Rightarrow> proxy_handler W state req)"

text \<open>
  The body limit is a request extension that only body extractors read; the handlers here take the whole
  \<open>Request\<close>, so it does not act on them.
\<close>

fun through_layers :: "'q axum \<Rightarrow> request \<Rightarrow> layer list \<Rightarrow> response \<Rightarrow> response" where
  "through_layers A req [] resp = resp"
| "through_layers A req (DefaultBodyLimit n # ls) resp = through_layers A req ls resp"
| "through_layers A req (CompressionLayer # ls) resp = ax_compress A req (through_layers A req ls resp)"

definition serve ::
  "('c, 'm) world \<Rightarrow> 'q axum \<Rightarrow> router \<times> 'q app_state \<Rightarrow> nat \<Rightarrow> request \<Rightarrow> response io" where
  "serve W A app started req =
     (case ax_dispatch A (fst app) (u_path (rq_uri req)) (rq_method req) of (t, layers) \<Rightarrow>
        io_map (\<lambda>resp. ax_finish A req (through_layers A req layers resp))
          (case t of
             Call h \<Rightarrow> run_handler W A (snd app) started req h
           | MethodNotAllowed \<Rightarrow> io_ret (ax_default A 405)
           | NotFound \<Rightarrow> io_ret (ax_default A 404)))"

section \<open>Answers as the client sees them\<close>

lemma io_map_fut: "io_map g (io_fut f) = io_fut (fut_map g f)"
  by (cases f) (simp_all add: io_map_def io_fut_def io_ret_def)

lemma snd_io_fut [simp]: "snd (io_fut f) = f"
  by (simp add: io_fut_def)

lemma finish_keeps:
  assumes "axum_finish A" and "rq_method req \<noteq> ascii ''HEAD''"
  shows "rs_body (ax_finish A req resp) = rs_body resp"
    and "n \<notin> {''content-length'', ''transfer-encoding'', ''allow''} \<Longrightarrow>
      get_all n (rs_headers (ax_finish A req resp)) = get_all n (rs_headers resp)"
  using assms by (simp_all add: axum_finish_def)

lemma verify_finished:
  assumes "axum_finish A" and "rq_method req \<noteq> ascii ''HEAD''"
  shows "verify_signed_response X G P cid q (ax_finish A req resp) = verify_signed_response X G P cid q resp"
proof -
  have hdr: "header_str P (rs_headers (ax_finish A req resp)) n = header_str P (rs_headers resp) n"
    if "n \<notin> {''content-length'', ''transfer-encoding'', ''allow''}" for n
    by (simp only: header_str_def finish_keeps(2)[OF assms that])
  note hdrs = hdr[of "''vrpc-signature''", simplified] hdr[of "''vrpc-timestamp''", simplified] hdr[of "''vrpc-pubkey''", simplified]
  show ?thesis by (simp only: verify_signed_response_def hdrs finish_keeps(1)[OF assms])
qed

section \<open>Routing\<close>

text \<open>What the routing rules make of the tree, one table for every request.\<close>

definition route_table :: "nat option \<Rightarrow> bytes \<Rightarrow> bytes \<Rightarrow> target \<times> layer list" where
  "route_table max_body p m =
     (let layers = [CompressionLayer, DefaultBodyLimit max_body];
          get = (if m = ascii ''GET'' \<or> m = ascii ''HEAD'' then Call else (\<lambda>_. MethodNotAllowed))
      in if p = ascii ''/confidential''
         then (Call (if m = ascii ''POST'' then ConfidentialHandler else ConfidentialMethodNotAllowed), [])
         else if p = ascii ''/attestation'' then (get AttestationHandler, layers)
         else if p = ascii ''/info'' then (get InfoHandler, layers)
         else (Call ProxyHandler, layers))"

lemma dispatch_table:
  assumes "axum_routes A"
  shows "ax_dispatch A (fst (build_router state max_body)) p m = route_table max_body p m"
proof -
  note rules = assms[unfolded axum_routes_def]
  have [simp]: "(case max_body of None \<Rightarrow> DefaultBodyLimit None | Some n \<Rightarrow> DefaultBodyLimit (Some n)) = DefaultBodyLimit max_body"
    by (cases max_body) simp_all
  show ?thesis
    by (simp add: build_router_def route_table_def rules on_methods_def method_target_def Let_def)
qed

lemma build_router_state [simp]: "snd (build_router state max_body) = state"
  by (simp add: build_router_def Let_def)

abbreviation app_paths :: "bytes set" where
  "app_paths \<equiv> {ascii ''/confidential'', ascii ''/attestation'', ascii ''/info''}"

lemma serve_table:
  assumes "axum_routes A"
  shows "serve W A (build_router state max_body) started req =
     (case route_table max_body (u_path (rq_uri req)) (rq_method req) of (t, layers) \<Rightarrow>
        io_map (\<lambda>resp. ax_finish A req (through_layers A req layers resp))
          (case t of
             Call h \<Rightarrow> run_handler W A state started req h
           | MethodNotAllowed \<Rightarrow> io_ret (ax_default A 405)
           | NotFound \<Rightarrow> io_ret (ax_default A 404)))"
  by (simp add: serve_def dispatch_table[OF assms] split: prod.split target.split)

lemma serve_proxy:
  assumes "axum_routes A" and "u_path (rq_uri req) \<notin> app_paths"
  shows "serve W A (build_router state max_body) started req =
    io_map (\<lambda>resp. ax_finish A req (ax_compress A req resp)) (proxy_handler W state req)"
  using assms by (simp add: serve_table route_table_def Let_def run_handler_def)

lemma serve_confidential:
  assumes "axum_routes A" and "u_path (rq_uri req) = ascii ''/confidential''" and "rq_method req = ascii ''POST''"
  shows "outcome (serve W A (build_router state max_body) started req) =
      map_option (\<lambda>x. ax_finish A req (fst x))
        (outcome (exchange W (app_upstream state) (app_signing state) (app_confidential state) req))"
    and "sends (serve W A (build_router state max_body) started req) =
      sends (exchange W (app_upstream state) (app_signing state) (app_confidential state) req)"
  using assms
  by (auto simp: serve_table route_table_def Let_def run_handler_def confidential_handler_def
      confidential_exchange_def option.map_comp comp_def case_prod_beta)

section \<open>Properties\<close>

text \<open>
  C22: Routing.  \<open>POST /confidential\<close> runs the confidential exchange and its answer is not compressed; any other method there is a 405; \<open>GET\<close> and \<open>HEAD\<close> on \<open>/attestation\<close> and \<open>/info\<close> reach
  their handlers, other methods are refused without reaching the upstream; every other path, whatever the
  method, is proxied.  The upstream is contacted only for proxied paths and for \<open>POST /confidential\<close>.
\<close>
theorem serve_routes:
  assumes "axum_routes A"
  shows "let p = u_path (rq_uri req); m = rq_method req;
             out = serve W A (build_router state max_body) started req in
     (p = ascii ''/confidential'' \<and> m = ascii ''POST'' \<longrightarrow>
        outcome out = map_option (\<lambda>x. ax_finish A req (fst x))
          (outcome (exchange W (app_upstream state) (app_signing state) (app_confidential state) req)))
   \<and> (p = ascii ''/confidential'' \<and> m \<noteq> ascii ''POST'' \<longrightarrow> outcome out = Some (ax_finish A req (bare 405)))
   \<and> (p = ascii ''/attestation'' \<and> m \<in> {ascii ''GET'', ascii ''HEAD''} \<longrightarrow>
        out = io_fut (fut_map (\<lambda>resp. ax_finish A req (ax_compress A req resp)) (attestation_endpoint W A state req)))
   \<and> (p = ascii ''/info'' \<and> m \<in> {ascii ''GET'', ascii ''HEAD''} \<longrightarrow>
        outcome out = Some (ax_finish A req (ax_compress A req (info_handler (app_attestation state)))))
   \<and> (p \<in> {ascii ''/attestation'', ascii ''/info''} \<and> m \<notin> {ascii ''GET'', ascii ''HEAD''} \<longrightarrow>
        outcome out = Some (ax_finish A req (ax_compress A req (ax_default A 405))))
   \<and> (p \<notin> app_paths \<longrightarrow> 
        out = io_map (\<lambda>resp. ax_finish A req (ax_compress A req resp)) (proxy_handler W state req))
   \<and> (sends out \<noteq> [] \<longrightarrow> p \<notin> app_paths \<or> p = ascii ''/confidential'' \<and> m = ascii ''POST'')"
proof -
  note t = serve_table[OF assms] route_table_def Let_def run_handler_def
  show ?thesis
    unfolding Let_def
    using serve_confidential(1)[OF assms, of req] serve_proxy[OF assms, of req]
    by (intro conjI impI) (auto simp: t confidential_method_not_allowed_def io_map_fut split: if_splits)
qed

text \<open>What the layers leave of an answer that carries no content encoding of its own.\<close>

lemma layers_keep:
  assumes "compression_lossless A decode" and "axum_finish A" and "rq_method req \<noteq> ascii ''HEAD''"
    and "get_all ''content-encoding'' (rs_headers inner) = []"
  shows "let resp = ax_finish A req (ax_compress A req inner) in
      rs_status resp = rs_status inner \<and> rs_body (decoded decode resp) = rs_body inner \<and>
      (\<forall>n. n \<notin> {''content-encoding'', ''content-length'', ''vary'', ''accept-ranges'', ''transfer-encoding'', ''allow''} \<longrightarrow>
         get_all n (rs_headers resp) = get_all n (rs_headers inner))"
  using assms finish_keeps[OF assms(2,3)]
  by (simp add: compression_lossless_def axum_finish_def decoded_def Let_def)

lemma passthrough_accepted:
  assumes A: "axum_routes A" "compression_lossless A decode" "axum_finish A" and get: "rq_method req \<noteq> ascii ''HEAD''"
    and crates: "signing_crates (w_hex W) (w_sig W) (w_http W)" and R: "limited_spec (w_runtime W)"
    and inv: "signing_inv (w_hex W) (w_sig W) H (app_signing state)"
    and path: "u_path (rq_uri req) \<notin> app_paths"
    and out: "outcome (serve W A (build_router state max_body) started req) = Some resp"
    and hdr: "get_all ''vrpc-signature'' (rs_headers resp) \<noteq> []"
    and q: "body_data (rq_body req) = Some q"
    and up: "\<forall>r up t. sends (serve W A (build_router state max_body) started req) = [r] \<longrightarrow> network (w_runtime W) r = Ready t (Inr up) \<longrightarrow>
       (\<forall>n \<in> {''vrpc-signature'', ''vrpc-timestamp'', ''vrpc-pubkey''}. get_all n (ur_headers up) = [])"
  shows "verify_signed_response (w_hex W) (w_sig W) (w_http W) (chain_id (app_signing state)) q
       (decoded decode resp) = Inr ()
    \<and> get_all ''vrpc-pubkey'' (rs_headers resp) = [ascii (prefixed_hex (w_hex W) (pubkey_bytes (w_sig W) (app_signing state)))]"
proof -
  let ?st = "app_signing state"
  obtain inner where inner: "outcome (proxy_handler W state req) = Some inner" 
      "resp = ax_finish A req (ax_compress A req inner)"
    using out by (auto simp: serve_proxy[OF A(1) path])
  have keep: "get_all ''content-encoding'' (rs_headers inner) = [] \<Longrightarrow> rs_body (decoded decode resp) = rs_body inner
      \<and> get_all ''vrpc-signature'' (rs_headers resp) = get_all ''vrpc-signature'' (rs_headers inner)
      \<and> get_all ''vrpc-timestamp'' (rs_headers resp) = get_all ''vrpc-timestamp'' (rs_headers inner)
      \<and> get_all ''vrpc-pubkey'' (rs_headers resp) = get_all ''vrpc-pubkey'' (rs_headers inner)"
    using layers_keep[OF A(2,3) get, of inner] inner(2) by (simp add: Let_def)
  have "inner \<noteq> bare s" for s
    using keep hdr by (auto simp: bare_def)
  then have ne: "inner \<notin> {bare 413, bare 500, bare 502}" "inner \<noteq> bare 500" by auto
  obtain r u a sr where net: "\<exists>t. network (w_runtime W) r = Ready t (Inr u)"
      and sr: "sign (w_sig W) ?st (w_clock W) q a = Inr sr"
      and built: "inner = build_signed_response (w_hex W) (w_http W) u a sr"
      and sent: "sends (forward (w_hex W) (w_sig W) (w_http W) (w_runtime W) (app_upstream state) req ?st (w_clock W)) = [r]"
    by (rule forward_signed[OF R inner(1)[unfolded proxy_handler_def] ne(1) q])
  note h = build_signed_response_structure[OF built[symmetric] ne(2)]
  have k: "rs_body (decoded decode resp) = a" "rs_headers (decoded decode resp) = rs_headers resp"
    "get_all ''vrpc-signature'' (rs_headers resp) = [ascii (signature_hex (w_hex W) sr)]"
    "get_all ''vrpc-timestamp'' (rs_headers resp) = [ascii (dec (unat (timestamp_ms sr)))]"
    "get_all ''vrpc-pubkey'' (rs_headers resp) = [ascii (signed_pubkey_hex sr)]"
    using keep h net up sent by (auto simp: decoded_def serve_proxy[OF A(1) path] proxy_handler_def)
  obtain ts where ts: "sr = sign_with_timestamp (w_sig W) ?st q a ts"
    using sr by (auto simp: sign_def try_bind_Inr_iff)
  moreover have "signed_pubkey_hex sr = prefixed_hex (w_hex W) (pubkey_bytes (w_sig W) ?st)"
    using inv ts by (simp add: sign_with_timestamp_def Let_def signing_inv_def)
  ultimately show ?thesis
    using k by (auto intro!: verify_accepts[OF crates inv, where sr = sr and ts = ts])
qed

text \<open>
  C3: Compression does not break signatures.  A client of a proxied path that used a method other than \<open>HEAD\<close>,
  undoes the content encoding of the answer and finds a signature, verifies it over its own request body and
  the decoded body, with the announced key being the sidecar's, whatever encoding the compression layer chose:
  the layer runs after signing and upstream encodings are stripped.  The hypothesis on the upstream is that its answer
  to this request carries none of the headers \<open>vRPC-Signature\<close>, \<open>vRPC-Timestamp\<close> and \<open>vRPC-Pubkey\<close> itself (the proxy
  would relay them before its own).
\<close>
theorem served_answer_verifies:
  assumes "axum_routes A" and "compression_lossless A decode" and "axum_finish A" and "rq_method req \<noteq> ascii ''HEAD''"
    and "signing_crates (w_hex W) (w_sig W) (w_http W)" and "limited_spec (w_runtime W)"
    and "signing_inv (w_hex W) (w_sig W) H (app_signing state)"
    and "u_path (rq_uri req) \<notin> app_paths"
    and "outcome (serve W A (build_router state max_body) started req) = Some resp"
    and "get_all ''vrpc-signature'' (rs_headers resp) \<noteq> []"
    and "body_data (rq_body req) = Some q"
    and "\<forall>r up t. sends (serve W A (build_router state max_body) started req) = [r] \<longrightarrow> network (w_runtime W) r = Ready t (Inr up) \<longrightarrow>
       (\<forall>n \<in> {''vrpc-signature'', ''vrpc-timestamp'', ''vrpc-pubkey''}. get_all n (ur_headers up) = [])"
  shows "verify_signed_response (w_hex W) (w_sig W) (w_http W) (chain_id (app_signing state)) q
       (decoded decode resp) = Inr ()
    \<and> get_all ''vrpc-pubkey'' (rs_headers resp) = [ascii (prefixed_hex (w_hex W) (pubkey_bytes (w_sig W) (app_signing state)))]"
  by (rule passthrough_accepted[OF assms])

lemma serve_attestation:
  assumes "axum_routes A" and "u_path (rq_uri req) = ascii ''/attestation''" and "rq_method req = ascii ''GET''"
  shows "serve W A (build_router state max_body) started req =
    io_fut (fut_map (\<lambda>resp. ax_finish A req (ax_compress A req resp)) (attestation_endpoint W A state req))"
  using assms by (simp add: serve_table route_table_def Let_def run_handler_def io_map_fut)

text \<open>An answer of the attestation endpoint reaches the client as it was made.\<close>

lemma served_endpoint:
  assumes A: "axum_routes A" "compression_lossless A decode" "axum_finish A" "axum_answers A parse"
    and req: "u_path (rq_uri req) = ascii ''/attestation''" "rq_method req = ascii ''GET''"
    and e: "attestation_endpoint W A state req = Ready t e"
  shows "\<exists>resp. snd (serve W A (build_router state max_body) started req) = Ready t resp
    \<and> rs_status resp = rs_status e \<and> rs_body (decoded decode resp) = rs_body e"
proof -
  have plain: "get_all ''content-encoding'' (rs_headers e) = []"
  proof (cases "ax_query A req")
    case (Inl rejection)
    then show ?thesis using e A(4) by (simp add: attestation_endpoint_def axum_answers_def)
  next
    case (Inr query)
    have "get_all ''content-encoding'' (rs_headers (case r of
        Inr r \<Rightarrow> ax_json A (attestation_json (as_dstack (app_attestation state)) r)
      | Inl (code, e) \<Rightarrow> ax_text A code (attestation_error_text e))) = []" for r
      using A(4) by (cases r) (simp_all add: axum_answers_def split: prod.split)
    then show ?thesis using e Inr unfolding attestation_endpoint_def by (fastforce simp: fut_map_iff(1))
  qed
  have "rq_method req \<noteq> ascii ''HEAD''" using req(2) by simp
  from layers_keep[OF A(2,3) this plain] show ?thesis
    by (simp add: serve_attestation[OF A(1) req] e Let_def)
qed

text \<open>
  C16: The attestation endpoint as the client sees it.  \<open>GET /attestation\<close> never reaches the upstream, and is
  answered unless dstack never answers the request for a quote, which the endpoint waits for without a deadline.
  A query that does not parse, and a nonce that is missing or not 32 bytes of hexadecimal, is a 400, the
  latter with its message, without asking dstack.  Otherwise dstack is asked for a quote over the signing key and the
  nonce, and when it answers, the client is answered then: with 502 and a message if it failed, and otherwise with
  200 and a JSON that has that quote, the signing key in hexadecimal, the compose hash under the
  name \<open>composeHash\<close> and the compose text, whatever the compression layer does.
\<close>
theorem served_attestation:
  assumes A: "axum_routes A" "compression_lossless A decode" "axum_finish A" "axum_answers A parse"
    and req: "u_path (rq_uri req) = ascii ''/attestation''" "rq_method req = ascii ''GET''"
    and hex: "hex_digits (w_hex W)" "hex_roundtrip (w_hex W)"
    and len: "length (as_signing_pubkey (app_attestation state)) = 32"
  shows "let att = app_attestation state; D = as_dstack att; pk = as_signing_pubkey att;
             out = serve W A (build_router state max_body) started req;
             answered = (\<lambda>t status ok. \<exists>resp. snd out = Ready t resp \<and> rs_status resp = status \<and> ok (rs_body (decoded decode resp))) in
     sends out = [] \<and>
     (case map_sum id (extract_nonce (w_hex W)) (ax_query A req) of
        Inl rejection \<Rightarrow> answered 0 400 (\<lambda>body. True)
      | Inr (Inl e) \<Rightarrow> answered 0 400 (\<lambda>body. body = ascii (attestation_error_text e))
      | Inr (Inr nonce) \<Rightarrow>
          (case ds_get_quote D (pk @ nonce) of
             Never \<Rightarrow> snd out = Never
           | Ready t None \<Rightarrow> answered t 502 (\<lambda>body. body = ascii ''dstack get_quote'')
           | Ready t (Some q) \<Rightarrow> answered t 200 (\<lambda>body. \<exists>v hex.
                parse body = Some v \<and> json_field ''quote'' v = Some (ds_quote_json D q)
                \<and> json_field ''pubkey'' v = Some (JString hex) \<and> decode_hex_0x (w_hex W) hex = Some pk
                \<and> json_field ''composeHash'' v = Some (JString (as_compose_hash att))
                \<and> json_field ''app_compose'' v = Some (JString (as_app_compose att)))))"
proof -
  let ?e = "attestation_endpoint W A state req" and ?att = "app_attestation state"
  let ?pk = "as_signing_pubkey ?att"
  have silent: "sends (serve W A (build_router state max_body) started req) = []"
    by (simp add: serve_attestation[OF A(1) req])
  note served = served_endpoint[OF A req, of W state _ _ max_body started]
  note answers = A(4)[unfolded axum_answers_def]
  show ?thesis
  proof (cases "ax_query A req")
    case (Inl rejection)
    then have "?e = Ready 0 rejection" by (simp add: attestation_endpoint_def)
    then show ?thesis using served[of 0 rejection] silent answers Inl by (auto simp: Let_def)
  next
    case query: (Inr query)
    show ?thesis
    proof (cases "extract_nonce (w_hex W) query")
      case (Inl e)
      then have "?e = Ready 0 (ax_text A 400 (attestation_error_text e))"
        by (simp add: attestation_endpoint_def query attestation_handler_eq)
      then show ?thesis using served[of 0] silent answers Inl query by (auto simp: Let_def)
    next
      case (Inr nonce)
      have e: "?e = fut_map (\<lambda>r. case r of
            None \<Rightarrow> ax_text A 502 ''dstack get_quote''
          | Some q \<Rightarrow> ax_json A (attestation_json (as_dstack ?att)
              \<lparr>ar_quote = q, ar_pubkey = prefixed_hex (w_hex W) ?pk, ar_compose_hash = as_compose_hash ?att,
               ar_app_compose = as_app_compose ?att\<rparr>)) (ds_get_quote (as_dstack ?att) (?pk @ nonce))"
        using build_report_data_eq[OF len extract_nonce_length[OF Inr]]
        by (cases "ds_get_quote (as_dstack ?att) (?pk @ nonce)")
          (simp_all add: attestation_endpoint_def query attestation_handler_eq Inr split: option.split)
      show ?thesis
      proof (cases "ds_get_quote (as_dstack ?att) (?pk @ nonce)")
        case Never
        then show ?thesis using silent query Inr e by (simp add: Let_def serve_attestation[OF A(1) req])
      next
        case (Ready t r)
        then show ?thesis
          using served[OF e[unfolded Ready fut_map_simps]] silent answers query Inr decode_prefixed_hex[OF hex]
          by (cases r) (auto simp: Let_def json_field_def attestation_json_def)
      qed
    qed
  qed
qed

text \<open>A request within the limits whose upstream answers within the limits is answered with a signed relay.\<close>

lemma forward_relays:
  assumes "limited_spec R" and "body_data (rq_body req) = Some q" "length q \<le> body_cap c"
    and "sends (forward X G P R c req st clock) = [r]" and "network R r = Ready t (Inr up)"
    and "body_data (ur_body up) = Some a" "length a \<le> body_cap c" and "now_ms clock = Inr ms"
  shows "outcome (forward X G P R c req st clock) =
     Some (build_signed_response X P up a (sign_with_timestamp G st q a ms))"
proof -
  obtain t1 t2 where lc: "limited_collect R (rq_body req) (body_cap c) = Ready t1 (Inr q)"
      "limited_collect R (ur_body up) (body_cap c) = Ready t2 (Inr a)"
    using assms(1-3,6,7) unfolding limited_spec_def by meson
  have "sends (send_upstream P R c req q) = [r]"
    using assms(4) lc(1) by (simp add: sends_forward)
  then show ?thesis
    using assms(5,8) lc send_upstream_eq[of P R c req q r]
    by (simp add: outcome_forward outcome_run_pipeline sign_or_500_def sign_def)
qed

lemma signed_response_built:
  assumes "response_builds P" and "100 \<le> ur_status up" "ur_status up \<le> 999"
    and "list_all header_ok (ur_headers up)" "length (ur_headers up) \<le> 1000"
    and "hex_digits X" and "signed_pubkey_hex sr = prefixed_hex X pk"
  shows "build_signed_response X P up a sr \<noteq> bare 500"
proof -
  let ?hs = "filter (\<lambda>(name, value). \<not> is_hop_by_hop name \<and> name \<noteq> ''content-encoding'') (ur_headers up)
    @ [(''vrpc-signature'', ascii (signature_hex X sr)), (''vrpc-timestamp'', ascii (dec (unat (timestamp_ms sr)))),
       (''vrpc-pubkey'', ascii (signed_pubkey_hex sr))]"
  have "headers_fit ?hs"
    using assms(4) signing_headers_ok[OF assms(6,7)]
    by (auto simp: headers_fit_def list_all_iff intro: order_trans[OF order_trans[OF length_filter_le assms(5)]])
  then have "response_build_ok P (ur_status up) ?hs" using assms(1-3) by (simp add: response_builds_def)
  then show ?thesis by (simp add: build_signed_response_def Let_def bare_def)
qed

text \<open>
  C5: The pass-through delivers.  A request to a proxied path with a method other than \<open>HEAD\<close>, whose body is within the
  cap and which goes out upstream as \<open>r\<close>, and to which the upstream answers within the cap, is answered: the client sees the
  upstream's status, its body after undoing the content encoding, and each of its headers apart from the
  hop-by-hop ones and those the server owns, and its verifier accepts the signature over the body it
  sent and the body it got.  The hypotheses are a clock that can be signed with, an upstream answer with a three-digit
  status and at most 1000 well-formed headers, none of which is \<open>vRPC-Signature\<close>, \<open>vRPC-Timestamp\<close> or
  \<open>vRPC-Pubkey\<close> (the proxy would relay those before its own).
\<close>
theorem passthrough_delivers:
  assumes A: "axum_routes A" "compression_lossless A decode" "axum_finish A" and get: "rq_method req \<noteq> ascii ''HEAD''"
    and crates: "signing_crates (w_hex W) (w_sig W) (w_http W)" and R: "limited_spec (w_runtime W)"
    and inv: "signing_inv (w_hex W) (w_sig W) H (app_signing state)" and clock: "now_ms (w_clock W) = Inr ms"
    and path: "u_path (rq_uri req) \<notin> app_paths"
    and q: "body_data (rq_body req) = Some q" "length q \<le> body_cap (app_upstream state)"
    and sent: "sends (serve W A (build_router state max_body) started req) = [r]"
    and net: "network (w_runtime W) r = Ready t (Inr up)"
    and a: "body_data (ur_body up) = Some a" "length a \<le> body_cap (app_upstream state)"
    and quiet: "\<forall>n \<in> {''vrpc-signature'', ''vrpc-timestamp'', ''vrpc-pubkey''}. get_all n (ur_headers up) = []"
    and valid: "response_builds (w_http W)" "100 \<le> ur_status up" "ur_status up \<le> 999"
      "list_all header_ok (ur_headers up)" "length (ur_headers up) \<le> 1000"
  shows "\<exists>resp. outcome (serve W A (build_router state max_body) started req) = Some resp
    \<and> rs_status resp = ur_status up \<and> rs_body (decoded decode resp) = a
    \<and> verify_signed_response (w_hex W) (w_sig W) (w_http W) (chain_id (app_signing state)) q (decoded decode resp) = Inr ()
    \<and> (\<forall>n. \<not> is_hop_by_hop n \<and> n \<notin> {''content-encoding'', ''content-length'', ''vary'', ''accept-ranges'', ''allow'',
            ''vrpc-signature'', ''vrpc-timestamp'', ''vrpc-pubkey''} \<longrightarrow>
         get_all n (rs_headers resp) = get_all n (ur_headers up))"
proof -
  let ?sr = "sign_with_timestamp (w_sig W) (app_signing state) q a ms"
  let ?inner = "build_signed_response (w_hex W) (w_http W) up a ?sr"
  let ?resp = "ax_finish A req (ax_compress A req ?inner)"
  have "sends (proxy_handler W state req) = [r]" using sent by (simp add: serve_proxy[OF A(1) path])
  then have "outcome (proxy_handler W state req) = Some ?inner"
    unfolding proxy_handler_def by (rule forward_relays[OF R q _ net a clock])
  then have out: "outcome (serve W A (build_router state max_body) started req) = Some ?resp"
    by (simp add: serve_proxy[OF A(1) path])
  have "hex_digits (w_hex W)" using crates by (simp add: signing_crates_def)
  moreover have "signed_pubkey_hex ?sr = prefixed_hex (w_hex W) (pubkey_bytes (w_sig W) (app_signing state))"
    using inv by (simp add: sign_with_timestamp_def Let_def signing_inv_def)
  ultimately have "?inner \<noteq> bare 500" by (rule signed_response_built[OF valid])
  note h = build_signed_response_structure[OF refl this]
  have "get_all ''content-encoding'' (rs_headers ?inner) = []" using h by simp
  note k = layers_keep[OF A(2,3) get this, unfolded Let_def]
  have hdr: "get_all n (rs_headers ?resp) = get_all n (rs_headers ?inner)"
    if "n \<notin> {''content-encoding'', ''content-length'', ''vary'', ''accept-ranges'', ''transfer-encoding'', ''allow''}" for n
    by (rule k[THEN conjunct2, THEN conjunct2, rule_format, OF that])
  have relayed: "rs_status ?resp = ur_status up" "rs_body (decoded decode ?resp) = a" using k h by simp_all
  have "get_all ''vrpc-signature'' (rs_headers (decoded decode ?resp)) = [ascii (signature_hex (w_hex W) ?sr)]"
    "get_all ''vrpc-timestamp'' (rs_headers (decoded decode ?resp)) = [ascii (dec (unat (timestamp_ms ?sr)))]"
    "get_all ''vrpc-pubkey'' (rs_headers (decoded decode ?resp)) = [ascii (signed_pubkey_hex ?sr)]"
    using h quiet by (simp_all add: decoded_def hdr)
  then have "verify_signed_response (w_hex W) (w_sig W) (w_http W) (chain_id (app_signing state)) q (decoded decode ?resp) = Inr ()"
    by (intro verify_accepts[OF crates inv, where sr = ?sr and ts = ms]) (simp_all add: relayed)
  moreover have "get_all n (rs_headers ?resp) = get_all n (ur_headers up)"
    if "\<not> is_hop_by_hop n \<and> n \<notin> {''content-encoding'', ''content-length'', ''vary'', ''accept-ranges'', ''allow'',
            ''vrpc-signature'', ''vrpc-timestamp'', ''vrpc-pubkey''}" for n
  proof -
    have "n \<noteq> ''transfer-encoding''" using that by (auto simp: is_hop_by_hop_def)
    then show ?thesis using that hdr[of n] h by simp
  qed
  ultimately show ?thesis using out relayed by blast
qed

section \<open>An instance\<close>

text \<open>The routing rules as a function, and a layer that encodes by reversing the body.\<close>

primrec demo_dispatch :: "router \<Rightarrow> bytes \<Rightarrow> bytes \<Rightarrow> target \<times> layer list" where
  "demo_dispatch NewRouter p m = (NotFound, [])"
| "demo_dispatch (Route r q mr) p m = (if p = q then (method_target mr m, []) else demo_dispatch r p m)"
| "demo_dispatch (Fallback r mr) p m = (if routed r p then demo_dispatch r p m else (method_target mr m, []))"
| "demo_dispatch (Layered r l) p m = apsnd (Cons l) (demo_dispatch r p m)"
| "demo_dispatch (Merged r s) p m = (if routed r p then demo_dispatch r p m else demo_dispatch s p m)"

definition demo_axum :: "bytes axum" where
  "demo_axum = \<lparr>ax_dispatch = demo_dispatch,
     ax_query = (\<lambda>req. Inr (Some (chars (demo_hex_encode (replicate 32 7))))),
     ax_json = (\<lambda>v. \<lparr>rs_status = 200, rs_headers = [(''content-type'', ascii ''application/json'')],
       rs_body = replicate (to_nat v) 0\<rparr>),
     ax_text = (\<lambda>s t. \<lparr>rs_status = s, rs_headers = [], rs_body = ascii t\<rparr>),
     ax_compress = (\<lambda>req resp. resp\<lparr>rs_headers := rs_headers resp @ [(''content-encoding'', ascii ''gzip'')],
                                     rs_body := rev (rs_body resp)\<rparr>),
     ax_default = bare,
     ax_finish = (\<lambda>req resp. if rq_method req = ascii ''HEAD'' then resp\<lparr>rs_body := []\<rparr> else resp)\<rparr>"

definition demo_decode :: "bytes list \<Rightarrow> bytes \<Rightarrow> bytes" where
  "demo_decode encodings body = (if encodings = [ascii ''gzip''] then rev body else body)"

definition demo_app :: "bytes app_state" where
  "demo_app = \<lparr>app_upstream = demo_client, app_signing = demo_state, app_attestation = demo_attestation,
     app_confidential = demo_config\<rparr>"

lemma demo_axum_routes: "axum_routes demo_axum"
  by (simp add: axum_routes_def demo_axum_def)

lemma demo_lossless: "compression_lossless demo_axum demo_decode"
  by (auto simp: compression_lossless_def demo_axum_def demo_decode_def decoded_def)

lemma demo_finish: "axum_finish demo_axum"
  "rq_method req \<noteq> ascii ''HEAD'' \<Longrightarrow> ax_finish demo_axum req resp = resp"
  by (simp_all add: axum_finish_def demo_axum_def)

lemma demo_compress: "ax_compress demo_axum req resp =
    resp\<lparr>rs_headers := rs_headers resp @ [(''content-encoding'', ascii ''gzip'')], rs_body := rev (rs_body resp)\<rparr>"
  by (simp add: demo_axum_def)

lemma demo_app_sel [simp]:
  "app_upstream demo_app = demo_client" "app_signing demo_app = demo_state"
  "app_attestation demo_app = demo_attestation" "app_confidential demo_app = demo_config"
  by (simp_all add: demo_app_def)

theorem serve_routes_witness:
  "outcome (serve demo_world demo_axum (build_router demo_app None) 0
     (demo_post\<lparr>rq_uri := \<lparr>u_scheme = None, u_authority = None, u_path = ascii ''/confidential'',
        u_path_and_query = None\<rparr>, rq_method := ascii ''PUT''\<rparr>)) = Some (bare 405)"
proof -
  let ?req = "demo_post\<lparr>rq_uri := \<lparr>u_scheme = None, u_authority = None, u_path = ascii ''/confidential'',
        u_path_and_query = None\<rparr>, rq_method := ascii ''PUT''\<rparr>"
  show ?thesis
    using serve_routes[OF demo_axum_routes, of ?req demo_world demo_app None 0] by (simp add: Let_def demo_finish)
qed

lemma demo_path: "u_path (rq_uri demo_request) \<notin> app_paths"
  by (simp add: demo_request_def)

lemma demo_method: "rq_method demo_request \<noteq> ascii ''HEAD''"
  by (simp add: demo_request_def)

lemma demo_served:
  "\<exists>resp. outcome (serve (demo_world\<lparr>w_runtime := demo_runtime\<rparr>) demo_axum (build_router demo_app None) 0 demo_request) = Some resp
     \<and> get_all ''vrpc-signature'' (rs_headers resp) \<noteq> []"
proof -
  obtain sr where "sign demo_sig demo_state 0 [1, 2, 3] [1, 2, 3] = Inr sr"
    by (simp add: sign_def now_ms_def u64_try_from_def)
  then show ?thesis
    by (simp add: serve_proxy[OF demo_axum_routes demo_path] proxy_handler_def outcome_forward outcome_run_pipeline
        demo_send demo_network_def outcome_pair demo_up_request_def sign_or_500_def build_signed_response_def Let_def
        demo_compress demo_finish(2)[OF demo_method])
qed

theorem served_answer_verifies_witness:
  "\<exists>resp. outcome (serve (demo_world\<lparr>w_runtime := demo_runtime\<rparr>) demo_axum (build_router demo_app None) 0 demo_request) = Some resp
     \<and> verify_signed_response demo_hex demo_sig demo_http (chain_id demo_state) [1, 2, 3]
         (decoded demo_decode resp) = Inr ()"
proof -
  let ?W = "demo_world\<lparr>w_runtime := demo_runtime\<rparr>"
  obtain resp where r: "outcome (serve ?W demo_axum (build_router demo_app None) 0 demo_request) = Some resp"
    "get_all ''vrpc-signature'' (rs_headers resp) \<noteq> []"
    using demo_served by blast
  have quiet: "\<forall>r up t. sends (serve ?W demo_axum (build_router demo_app None) 0 demo_request) = [r] \<longrightarrow>
      network (w_runtime ?W) r = Ready t (Inr up) \<longrightarrow>
      (\<forall>n \<in> {''vrpc-signature'', ''vrpc-timestamp'', ''vrpc-pubkey''}. get_all n (ur_headers up) = [])"
    by (auto simp: demo_network_def)
  show ?thesis
    using served_answer_verifies[OF demo_axum_routes demo_lossless demo_finish(1) demo_method _ _ _ demo_path r _ quiet, of demo_hpke_zero "[1, 2, 3]"]
      demo_crates demo_runtime_spec demo_state_inv(1) r(1) by simp
qed

lemma demo_network_answer: "\<exists>up. network demo_runtime demo_up_request = Ready 5 (Inr up) \<and> ur_status up = 200
    \<and> body_data (ur_body up) = Some [1, 2, 3]
    \<and> (\<forall>n \<in> {''vrpc-signature'', ''vrpc-timestamp'', ''vrpc-pubkey''}. get_all n (ur_headers up) = [])
    \<and> list_all header_ok (ur_headers up) \<and> length (ur_headers up) \<le> 1000"
  by (simp add: demo_network_def demo_up_request_def header_ok_def token_char_def ascii_def)

theorem passthrough_delivers_witness:
  "\<exists>resp. outcome (serve (demo_world\<lparr>w_runtime := demo_runtime\<rparr>) demo_axum (build_router demo_app None) 0 demo_request) = Some resp
     \<and> rs_status resp = 200 \<and> rs_body (decoded demo_decode resp) = [1, 2, 3]"
proof -
  let ?W = "demo_world\<lparr>w_runtime := demo_runtime\<rparr>"
  obtain up where up: "network demo_runtime demo_up_request = Ready 5 (Inr up)" "ur_status up = 200"
      "body_data (ur_body up) = Some [1, 2, 3]"
      "\<forall>n \<in> {''vrpc-signature'', ''vrpc-timestamp'', ''vrpc-pubkey''}. get_all n (ur_headers up) = []"
      "list_all header_ok (ur_headers up)" "length (ur_headers up) \<le> 1000"
    using demo_network_answer by blast
  have "sends (serve ?W demo_axum (build_router demo_app None) 0 demo_request) = [demo_up_request]"
    by (simp add: serve_proxy[OF demo_axum_routes demo_path] proxy_handler_def demo_sends)
  then show ?thesis
    using passthrough_delivers[OF demo_axum_routes demo_lossless demo_finish(1) demo_method _ _ _ _ demo_path,
        of ?W demo_hpke_zero demo_app 0 "[1, 2, 3]" None 0 demo_up_request 5 up "[1, 2, 3]"]
      demo_crates demo_runtime_spec demo_state_inv(1) up demo_http_builds
    by (auto simp: now_ms_def u64_try_from_def)
qed


definition demo_parse :: "bytes \<Rightarrow> json option" where
  "demo_parse b = Some (from_nat (length b))"

lemma demo_answers: "axum_answers demo_axum demo_parse"
  by (simp add: axum_answers_def demo_axum_def demo_parse_def)

definition demo_quote_request :: request where
  "demo_quote_request = demo_request\<lparr>rq_method := ascii ''GET'',
     rq_uri := \<lparr>u_scheme = None, u_authority = None, u_path = ascii ''/attestation'', u_path_and_query = None\<rparr>\<rparr>"

lemma demo_quote_req:
  "u_path (rq_uri demo_quote_request) = ascii ''/attestation''" "rq_method demo_quote_request = ascii ''GET''"
  "ax_query demo_axum demo_quote_request = Inr (Some (chars (demo_hex_encode (replicate 32 7))))"
  by (simp_all add: demo_quote_request_def demo_axum_def)

lemma demo_nonce: "extract_nonce demo_hex (Some (chars (demo_hex_encode (replicate 32 7)))) = Inr (replicate 32 7)"
  using parse_nonce_text[OF demo_hex_digits demo_hex_roundtrip, of "replicate 32 7" 0 0]
  by (simp add: extract_nonce_def demo_hex_def)

theorem served_attestation_witness:
  "\<exists>resp v. snd (serve demo_world demo_axum (build_router demo_app None) 0 demo_quote_request) = Ready 4 resp
     \<and> rs_status resp = 200 \<and> demo_parse (rs_body (decoded demo_decode resp)) = Some v
     \<and> json_field ''quote'' v = Some (ds_quote_json demo_dstack (replicate 32 0 @ replicate 32 7))"
proof -
  have "as_dstack demo_attestation = demo_dstack" "as_signing_pubkey demo_attestation = replicate 32 0"
    "ds_get_quote demo_dstack q = Ready 4 (Some q)" for q
    by (simp_all add: demo_attestation_def demo_dstack_def)
  then show ?thesis
    using served_attestation[OF demo_axum_routes demo_lossless demo_finish(1) demo_answers demo_quote_req(1,2), of demo_world demo_app None 0]
      demo_hex_digits demo_hex_roundtrip demo_nonce demo_quote_req(3)
    by (auto simp: Let_def)
qed

end
