(* ===== verification/Config.thy ===== *)
theory Config
  imports Signing
begin

text \<open>
  \<open>src/src/config.rs\<close>: the command line.  \<open>Config\<close> is derived by clap from its field attributes; here
  every attribute (option name, environment variable, default, value parser) is an argument of \<open>arg\<close>,
  \<open>arg_default\<close>, \<open>arg_optional\<close> or \<open>arg_flag\<close>.  What clap itself does is the parameter \<open>C\<close>: which text it finds for an
  option and how its number parsers read it.  \<open>'a\<close> is \<open>SocketAddr\<close>.
\<close>

section \<open>clap\<close>

text \<open>
  \<open>cl_usage\<close> says whether the command line has no unknown argument and asks for no help text, \<open>cl_exit\<close> is the
  status \<open>parse\<close> exits with when it does not return;
  \<open>cl_text name env\<close> is the text given for \<open>--name\<close> or else by the environment variable;
  \<open>cl_flag\<close> the same for a flag, \<open>None\<close> for a variable it cannot read as a boolean.  \<open>cl_u16_range lo hi\<close> is
  \<open>value_parser!(u16).range(lo..=hi)\<close>, \<open>cl_u64_range lo\<close> is \<open>value_parser!(u64).range(lo..)\<close>.
\<close>

record 'a clap =
  cl_usage :: bool
  cl_exit :: nat
  cl_text :: "string \<Rightarrow> string \<Rightarrow> ustr option"
  cl_flag :: "string \<Rightarrow> string \<Rightarrow> bool option"
  cl_socket_addr :: "ustr \<Rightarrow> 'a option"
  cl_usize :: "ustr \<Rightarrow> nat option"
  cl_u16_range :: "nat \<Rightarrow> nat \<Rightarrow> ustr \<Rightarrow> u16 option"
  cl_u64_range :: "nat \<Rightarrow> ustr \<Rightarrow> u64 option"

text \<open>The number parsers accept the decimal text of every value of their range, and nothing outside the range.\<close>

definition clap_numbers :: "'a clap \<Rightarrow> bool" where
  "clap_numbers C \<longleftrightarrow>
     (\<forall>s n. cl_usize C s = Some n \<longrightarrow> n \<le> usize_max) \<and>
     (\<forall>n. n \<le> usize_max \<longrightarrow> cl_usize C (chars (dec n)) = Some n) \<and>
     (\<forall>lo hi s v. cl_u16_range C lo hi s = Some v \<longrightarrow> lo \<le> unat v \<and> unat v \<le> hi) \<and>
     (\<forall>lo hi v. lo \<le> unat v \<longrightarrow> unat v \<le> hi \<longrightarrow> cl_u16_range C lo hi (chars (dec (unat v))) = Some v) \<and>
     (\<forall>lo s v. cl_u64_range C lo s = Some v \<longrightarrow> lo \<le> unat v) \<and>
     (\<forall>lo v. lo \<le> unat v \<longrightarrow> cl_u64_range C lo (chars (dec (unat v))) = Some v)"

section \<open>The configuration\<close>

record 'a config =
  listen_addr :: 'a
  cfg_upstream_url :: ustr
  cfg_chain_id :: ustr
  dstack_endpoint :: "ustr option"
  key_path :: ustr
  key_purpose :: "ustr option"
  cfg_max_body_bytes :: "nat option"
  confidential_max_body_bytes :: nat
  confidential_max_response_bytes :: nat
  confidential_max_batch_size :: u16
  confidential_upstream_timeout_secs :: u64
  allow_empty_compose_hash :: bool

text \<open>
  One option: required, with the text of its default, or optional.  A default goes through the value
  parser like a text the operator gave.  \<open>None\<close> is clap's usage error, on which \<open>Config::parse\<close> exits.
\<close>

definition arg :: "'a clap \<Rightarrow> string \<Rightarrow> string \<Rightarrow> (ustr \<Rightarrow> 'v option) \<Rightarrow> 'v option" where
  "arg C name env p = Option.bind (cl_text C name env) p"

definition arg_default :: "'a clap \<Rightarrow> string \<Rightarrow> string \<Rightarrow> string \<Rightarrow> (ustr \<Rightarrow> 'v option) \<Rightarrow> 'v option" where
  "arg_default C name env d p = (case cl_text C name env of None \<Rightarrow> p (chars d) | Some s \<Rightarrow> p s)"

definition arg_optional :: "'a clap \<Rightarrow> string \<Rightarrow> string \<Rightarrow> (ustr \<Rightarrow> 'v option) \<Rightarrow> 'v option option" where
  "arg_optional C name env p =
     (case cl_text C name env of None \<Rightarrow> Some None | Some s \<Rightarrow> map_option Some (p s))"

text \<open>
  The arguments of \<open>Config::command()\<close>, by id, with the environment variable each is also read from.
\<close>

definition config_command :: "(string \<times> string) list" where
  "config_command =
     [(''listen_addr'', ''SIDECAR_LISTEN_ADDR''),
      (''upstream_url'', ''SIDECAR_UPSTREAM_URL''),
      (''chain_id'', ''SIDECAR_CHAIN_ID''),
      (''dstack_endpoint'', ''DSTACK_SIMULATOR_ENDPOINT''),
      (''key_path'', ''SIDECAR_KEY_PATH''),
      (''key_purpose'', ''SIDECAR_KEY_PURPOSE''),
      (''max_body_bytes'', ''SIDECAR_MAX_BODY_BYTES''),
      (''confidential_max_body_bytes'', ''SIDECAR_CONFIDENTIAL_MAX_BODY_BYTES''),
      (''confidential_max_response_bytes'', ''SIDECAR_CONFIDENTIAL_MAX_RESPONSE_BYTES''),
      (''confidential_max_batch_size'', ''SIDECAR_CONFIDENTIAL_MAX_BATCH_SIZE''),
      (''confidential_upstream_timeout_secs'', ''SIDECAR_CONFIDENTIAL_UPSTREAM_TIMEOUT_SECS''),
      (''allow_empty_compose_hash'', ''SIDECAR_ALLOW_EMPTY_COMPOSE_HASH'')]"

definition get_env :: "string \<Rightarrow> string option" where
  "get_env i = map_of config_command i"

definition env_var :: "string \<Rightarrow> string" where
  "env_var i = (case get_env i of Some e \<Rightarrow> e | None \<Rightarrow> [])"

lemma env_vars [simp]:
  "env_var ''listen_addr'' = ''SIDECAR_LISTEN_ADDR''"
  "env_var ''upstream_url'' = ''SIDECAR_UPSTREAM_URL''"
  "env_var ''chain_id'' = ''SIDECAR_CHAIN_ID''"
  "env_var ''dstack_endpoint'' = ''DSTACK_SIMULATOR_ENDPOINT''"
  "env_var ''key_path'' = ''SIDECAR_KEY_PATH''"
  "env_var ''key_purpose'' = ''SIDECAR_KEY_PURPOSE''"
  "env_var ''max_body_bytes'' = ''SIDECAR_MAX_BODY_BYTES''"
  "env_var ''confidential_max_body_bytes'' = ''SIDECAR_CONFIDENTIAL_MAX_BODY_BYTES''"
  "env_var ''confidential_max_response_bytes'' = ''SIDECAR_CONFIDENTIAL_MAX_RESPONSE_BYTES''"
  "env_var ''confidential_max_batch_size'' = ''SIDECAR_CONFIDENTIAL_MAX_BATCH_SIZE''"
  "env_var ''confidential_upstream_timeout_secs'' = ''SIDECAR_CONFIDENTIAL_UPSTREAM_TIMEOUT_SECS''"
  "env_var ''allow_empty_compose_hash'' = ''SIDECAR_ALLOW_EMPTY_COMPOSE_HASH''"
  by (simp_all add: env_var_def get_env_def config_command_def)

definition config_parse :: "'a clap \<Rightarrow> 'a config option" where
  "config_parse C =
     (if \<not> cl_usage C then None else
      Option.bind (arg_default C ''listen-addr'' (env_var ''listen_addr'') ''0.0.0.0:8545'' (cl_socket_addr C)) (\<lambda>addr.
      Option.bind (arg C ''upstream-url'' (env_var ''upstream_url'') Some) (\<lambda>url.
      Option.bind (arg C ''chain-id'' (env_var ''chain_id'') (\<lambda>s. ok (validate_chain_id s))) (\<lambda>cid.
      Option.bind (arg_optional C ''dstack-endpoint'' (env_var ''dstack_endpoint'') Some) (\<lambda>endpoint.
      Option.bind (arg_default C ''key-path'' (env_var ''key_path'') ''rpc-sign/v1'' Some) (\<lambda>path.
      Option.bind (arg_optional C ''key-purpose'' (env_var ''key_purpose'') Some) (\<lambda>purpose.
      Option.bind (arg_optional C ''max-body-bytes'' (env_var ''max_body_bytes'') (cl_usize C)) (\<lambda>max_body.
      Option.bind (arg_default C ''confidential-max-body-bytes'' (env_var ''confidential_max_body_bytes'')
         (dec (8 * 1024 * 1024)) (cl_usize C)) (\<lambda>max_request.
      Option.bind (arg_default C ''confidential-max-response-bytes'' (env_var ''confidential_max_response_bytes'')
         (dec (128 * 1024 * 1024)) (cl_usize C)) (\<lambda>max_response.
      Option.bind (arg_default C ''confidential-max-batch-size'' (env_var ''confidential_max_batch_size'')
         (dec 1000) (cl_u16_range C 1 1000)) (\<lambda>batch.
      Option.bind (arg_default C ''confidential-upstream-timeout-secs'' (env_var ''confidential_upstream_timeout_secs'')
         (dec 25) (cl_u64_range C 1)) (\<lambda>timeout_secs.
      Option.bind (cl_flag C ''allow-empty-compose-hash'' (env_var ''allow_empty_compose_hash'')) (\<lambda>allow_empty.
        Some \<lparr>listen_addr = addr, cfg_upstream_url = url, cfg_chain_id = cid, dstack_endpoint = endpoint,
              key_path = path, key_purpose = purpose, cfg_max_body_bytes = max_body,
              confidential_max_body_bytes = max_request, confidential_max_response_bytes = max_response,
              confidential_max_batch_size = batch, confidential_upstream_timeout_secs = timeout_secs,
              allow_empty_compose_hash = allow_empty\<rparr>)))))))))))))"

section \<open>What a parsed configuration guarantees\<close>

text \<open>The ranges of the numeric options, and a chain id that is its own normal form.\<close>

definition config_ok :: "'a config \<Rightarrow> bool" where
  "config_ok cfg \<longleftrightarrow>
     validate_chain_id (cfg_chain_id cfg) = Inr (cfg_chain_id cfg) \<and>
     1 \<le> unat (confidential_max_batch_size cfg) \<and> unat (confidential_max_batch_size cfg) \<le> 1000 \<and>
     1 \<le> unat (confidential_upstream_timeout_secs cfg) \<and>
     confidential_max_body_bytes cfg \<le> usize_max \<and> confidential_max_response_bytes cfg \<le> usize_max \<and>
     pred_option (\<lambda>n. n \<le> usize_max) (cfg_max_body_bytes cfg)"

lemma arg_Some_iff: "arg C name env p = Some v \<longleftrightarrow> (\<exists>s. cl_text C name env = Some s \<and> p s = Some v)"
  by (simp add: arg_def bind_eq_Some_conv)

lemma arg_default_SomeD: "arg_default C name env d p = Some v \<Longrightarrow> \<exists>s. p s = Some v"
  by (auto simp: arg_default_def split: option.splits)

lemma arg_optional_SomeD: "arg_optional C name env p = Some (Some v) \<Longrightarrow> \<exists>s. p s = Some v"
  by (auto simp: arg_optional_def split: option.splits)

lemma number_bounds:
  assumes "clap_numbers C"
  shows "cl_usize C s = Some n \<Longrightarrow> n \<le> usize_max"
    and "cl_u16_range C lo hi s = Some v \<Longrightarrow> lo \<le> unat v \<and> unat v \<le> hi"
    and "cl_u64_range C lo s = Some w \<Longrightarrow> lo \<le> unat w"
    and "m \<le> usize_max \<Longrightarrow> cl_usize C (chars (dec m)) = Some m"
    and "lo \<le> unat v \<Longrightarrow> unat v \<le> hi \<Longrightarrow> cl_u16_range C lo hi (chars (dec (unat v))) = Some v"
    and "lo \<le> unat w \<Longrightarrow> cl_u64_range C lo (chars (dec (unat w))) = Some w"
  using assms unfolding clap_numbers_def by blast+

lemma validate_chain_id_idem: "validate_chain_id s = Inr t \<Longrightarrow> validate_chain_id t = Inr t"
  by (auto simp: validate_chain_id_def Let_def split: if_splits option.splits)

lemma config_parse_fields:
  assumes "config_parse C = Some cfg"
  shows "arg C ''upstream-url'' ''SIDECAR_UPSTREAM_URL'' Some = Some (cfg_upstream_url cfg)"
    and "arg C ''chain-id'' ''SIDECAR_CHAIN_ID'' (\<lambda>s. ok (validate_chain_id s)) = Some (cfg_chain_id cfg)"
    and "arg_optional C ''max-body-bytes'' ''SIDECAR_MAX_BODY_BYTES'' (cl_usize C) = Some (cfg_max_body_bytes cfg)"
    and "\<exists>s. cl_usize C s = Some (confidential_max_body_bytes cfg)"
    and "\<exists>s. cl_usize C s = Some (confidential_max_response_bytes cfg)"
    and "\<exists>s. cl_u16_range C 1 1000 s = Some (confidential_max_batch_size cfg)"
    and "\<exists>s. cl_u64_range C 1 s = Some (confidential_upstream_timeout_secs cfg)"
  using assms unfolding config_parse_def
  by (auto simp: bind_eq_Some_conv intro: arg_default_SomeD split: if_splits)

lemma config_parse_ok:
  assumes "config_parse C = Some cfg" and "clap_numbers C"
  shows "config_ok cfg"
proof -
  note f = config_parse_fields[OF assms(1)]
  have "validate_chain_id (cfg_chain_id cfg) = Inr (cfg_chain_id cfg)"
    using f(2) validate_chain_id_idem by (auto simp: arg_Some_iff)
  moreover have "pred_option (\<lambda>n. n \<le> usize_max) (cfg_max_body_bytes cfg)"
    using f(3) number_bounds(1)[OF assms(2)] by (cases "cfg_max_body_bytes cfg") (auto dest: arg_optional_SomeD)
  ultimately show ?thesis
    using f(4-7) number_bounds(1-3)[OF assms(2)] unfolding config_ok_def by blast
qed

section \<open>Properties\<close>

text \<open>
  C39: Every configuration the sidecar boots with is valid: the upstream URL and the chain id were given,
  the chain id is the validated (trimmed, printable, at most 64 bytes) text, the batch limit lies in
  1..=1000, the upstream timeout is at least one second and the byte limits fit \<open>usize\<close>.  A missing URL or
  chain id, or a chain id the validator rejects, stops the sidecar.
\<close>
theorem config_parse_valid:
  assumes "clap_numbers C"
  shows "(config_parse C = Some cfg \<longrightarrow>
      config_ok cfg \<and> cl_text C ''upstream-url'' ''SIDECAR_UPSTREAM_URL'' = Some (cfg_upstream_url cfg)
      \<and> (\<exists>s. cl_text C ''chain-id'' ''SIDECAR_CHAIN_ID'' = Some s \<and> validate_chain_id s = Inr (cfg_chain_id cfg)))
    \<and> (cl_text C ''upstream-url'' ''SIDECAR_UPSTREAM_URL'' = None \<longrightarrow> config_parse C = None)
    \<and> (cl_text C ''chain-id'' ''SIDECAR_CHAIN_ID'' = None \<longrightarrow> config_parse C = None)
    \<and> (cl_text C ''chain-id'' ''SIDECAR_CHAIN_ID'' = Some s \<and> validate_chain_id s = Inl e \<longrightarrow> config_parse C = None)"
proof -
  have given: "cl_text C ''upstream-url'' ''SIDECAR_UPSTREAM_URL'' = Some (cfg_upstream_url cfg)
      \<and> (\<exists>s. cl_text C ''chain-id'' ''SIDECAR_CHAIN_ID'' = Some s \<and> validate_chain_id s = Inr (cfg_chain_id cfg))"
    if "config_parse C = Some cfg" for cfg
    using config_parse_fields(1,2)[OF that] by (auto simp: arg_Some_iff)
  show ?thesis
    using given config_parse_ok[OF _ assms] by (cases "config_parse C") auto
qed

text \<open>
  The defaults.  With only an upstream URL and an acceptable chain id given, the configuration is the
  documented one: key path \<open>rpc-sign/v1\<close>, no pass-through cap, 8 MiB requests, 128 MiB responses, batches of
  1000 and 25 seconds for the confidential route, and a compose hash required at boot.
\<close>
theorem config_defaults:
  assumes "clap_numbers C" and "cl_usage C"
    and "\<forall>name env. cl_text C name env =
       (if name = ''upstream-url'' then Some url else if name = ''chain-id'' then Some s else None)"
    and "\<forall>name env. cl_flag C name env = Some False"
    and "validate_chain_id s = Inr cid" and "cl_socket_addr C (chars ''0.0.0.0:8545'') = Some addr"
  shows "config_parse C = Some \<lparr>listen_addr = addr, cfg_upstream_url = url, cfg_chain_id = cid,
     dstack_endpoint = None, key_path = chars ''rpc-sign/v1'', key_purpose = None, cfg_max_body_bytes = None,
     confidential_max_body_bytes = 8388608, confidential_max_response_bytes = 134217728,
     confidential_max_batch_size = 1000, confidential_upstream_timeout_secs = 25,
     allow_empty_compose_hash = False\<rparr>"
proof -
  note n = number_bounds(4-6)[OF assms(1)]
  have "cl_usize C (chars (dec (8 * 1024 * 1024))) = Some 8388608"
    "cl_usize C (chars (dec (128 * 1024 * 1024))) = Some 134217728"
    using n(1)[of "8 * 1024 * 1024"] n(1)[of "128 * 1024 * 1024"] by (simp_all add: usize_max_def)
  moreover have "cl_u16_range C 1 1000 (chars (dec 1000)) = Some 1000"
    using n(2)[of 1 "1000 :: u16" 1000] by simp
  moreover have "cl_u64_range C 1 (chars (dec 25)) = Some 25"
    using n(3)[of 1 "25 :: u64"] by simp
  ultimately show ?thesis
    using assms(2-6) by (simp add: config_parse_def arg_def arg_default_def arg_optional_def)
qed

section \<open>An instance\<close>

text \<open>A clap whose number parsers read decimal text, and a command line with the two required options.\<close>

definition read_number :: "ustr \<Rightarrow> nat option" where
  "read_number s = (if s \<noteq> [] \<and> list_all (\<lambda>c. 48 \<le> c \<and> c \<le> 57) s then Some (foldl (\<lambda>a c. 10 * a + (c - 48)) 0 s) else None)"

definition within :: "nat \<Rightarrow> nat \<Rightarrow> ustr \<Rightarrow> nat option" where
  "within lo hi s = Option.bind (read_number s) (\<lambda>n. if lo \<le> n \<and> n \<le> hi then Some n else None)"

definition demo_clap :: "ustr clap" where
  "demo_clap = \<lparr>cl_usage = True, cl_exit = 2,
     cl_text = (\<lambda>name env. if name = ''upstream-url'' then Some (chars ''http://node:8545/base/'')
                  else if name = ''chain-id'' then Some (chars '' 137 '') else None),
     cl_flag = (\<lambda>name env. Some False), cl_socket_addr = Some, cl_usize = within 0 usize_max,
     cl_u16_range = (\<lambda>lo hi s. map_option of_nat (within lo (min hi 65535) s)),
     cl_u64_range = (\<lambda>lo s. map_option of_nat (within lo usize_max s))\<rparr>"

lemma read_number_dec: "read_number (chars (dec n)) = Some n"
proof -
  have "foldl (\<lambda>a c. 10 * a + (c - 48)) a (chars s) = foldl (\<lambda>a c. 10 * a + (of_char c - 48)) a s" for a and s :: string
    by (induction s arbitrary: a) (simp_all add: chars_def)
  moreover have "list_all (\<lambda>c. 48 \<le> c \<and> c \<le> 57) (chars s) \<longleftrightarrow> list_all is_digit s" for s
    by (induction s) (simp_all add: chars_def is_digit_def)
  ultimately show ?thesis
    using dec_correct[of n] by (simp add: read_number_def dec_value_def chars_def)
qed

lemma within_Some: "within lo hi s = Some n \<Longrightarrow> lo \<le> n \<and> n \<le> hi"
  by (auto simp: within_def bind_eq_Some_conv split: if_splits)

lemma within_dec: "lo \<le> n \<Longrightarrow> n \<le> hi \<Longrightarrow> within lo hi (chars (dec n)) = Some n"
  by (simp add: within_def read_number_dec)

lemma demo_clap_numbers: "clap_numbers demo_clap"
proof -
  have u16: "lo \<le> unat v \<and> unat v \<le> hi" if "cl_u16_range demo_clap lo hi s = Some v" for lo hi s and v :: u16
    using that by (auto simp: demo_clap_def unat_of_nat take_bit_eq_mod dest!: within_Some)
  have u64: "lo \<le> unat v" if "cl_u64_range demo_clap lo s = Some v" for lo s and v :: u64
    using that by (auto simp: demo_clap_def unat_of_nat take_bit_eq_mod usize_max_def dest!: within_Some)
  have max: "unat v \<le> 65535" "unat w \<le> usize_max" for v :: u16 and w :: u64
    using unsigned_less[of v, where 'a = nat] unsigned_less[of w, where 'a = nat] by (simp_all add: usize_max_def)
  show ?thesis
    unfolding clap_numbers_def
    using u16 u64 max by (auto simp: demo_clap_def within_dec dest: within_Some)
qed

lemma demo_clap_args:
  "cl_usage demo_clap" "cl_socket_addr demo_clap = Some"
  "cl_text demo_clap name env = (if name = ''upstream-url'' then Some (chars ''http://node:8545/base/'')
     else if name = ''chain-id'' then Some (chars '' 137 '') else None)"
  "cl_flag demo_clap name env = Some False"
  by (simp_all add: demo_clap_def)

lemma demo_chain_id: "validate_chain_id (chars '' 137 '') = Inr (chars ''137'')"
  by code_simp

theorem config_parse_valid_witness:
  "config_ok (the (config_parse demo_clap)) \<and> cfg_chain_id (the (config_parse demo_clap)) = chars ''137''"
proof -
  have "config_parse demo_clap \<noteq> None"
    using demo_clap_numbers
    by (simp add: config_parse_def arg_def arg_default_def arg_optional_def demo_clap_args demo_chain_id
        clap_numbers_def bind_eq_None_conv) (simp add: demo_clap_def within_dec usize_max_def)
  then obtain cfg where "config_parse demo_clap = Some cfg" by blast
  then show ?thesis
    using config_parse_valid[OF demo_clap_numbers, of cfg "[]" undefined] by (auto simp: demo_clap_args demo_chain_id)
qed

theorem config_defaults_witness:
  "\<exists>cfg. config_parse demo_clap = Some cfg \<and> cfg_chain_id cfg = chars ''137''
     \<and> confidential_max_batch_size cfg = 1000 \<and> \<not> allow_empty_compose_hash cfg"
proof -
  note d = config_defaults[OF demo_clap_numbers demo_clap_args(1), of "chars ''http://node:8545/base/''" "chars '' 137 ''"
      "chars ''137''" "chars ''0.0.0.0:8545''"]
  show ?thesis
    by (rule exI, rule conjI, rule d) (simp_all add: demo_clap_args demo_chain_id)
qed

end
