(* ===== verification/Main_Boot.thy ===== *)
theory Main_Boot
  imports Server Config
begin

text \<open>
  \<open>src/src/main.rs\<close>: from the command line to the running server and its exit status.  The TDX identity
  (signing key and attestation state) comes first, then the upstream client, the listener and the
  server; every failure before the listener ends the process.
\<close>

section \<open>The TDX identity\<close>

datatype boot_error =
  GetKey | HexDecodeKey | DeriveSigningKey signing_error | BootstrapAttestation attestation_error

definition bootstrap_tdx_identity ::
  "('c, 'm) world \<Rightarrow> 'a config \<Rightarrow> 'q dstack \<Rightarrow> (boot_error + signing_state \<times> 'q attestation_state) fut" where
  "bootstrap_tdx_identity W cfg dstack =
     fut_try (fut_map (\<lambda>r. ok_or r GetKey) (ds_get_key dstack (key_path cfg) (key_purpose cfg))) (\<lambda>key_hex.
     let key_hex = utf8 key_hex in
     fut_try (Ready 0 (ok_or (hex_decode_to_slice (w_hex W) key_hex (length key_hex div 2)) HexDecodeKey)) (\<lambda>key_bytes.
     fut_try (Ready 0 (map_err DeriveSigningKey
       (from_dstack_bytes (w_hex W) (w_sig W) (w_hpke W) key_bytes (cfg_chain_id cfg)))) (\<lambda>signing.
     fut_try (fut_map (map_err BootstrapAttestation)
       (attestation_bootstrap dstack (pubkey_bytes (w_sig W) signing) (allow_empty_compose_hash cfg))) (\<lambda>attestation.
       Ready 0 (Inr (signing, attestation))))))"

section \<open>Shutdown\<close>

datatype stop_signal = Sigint | Sigterm

text \<open>
  \<open>tokio::select!\<close> on the two signal futures: the earlier one; \<open>first\<close> is its pick when both are ready.
  (Failing to install a handler panics in the source; the futures given here are installed.)
\<close>

fun shutdown_signal :: "bool \<Rightarrow> unit fut \<Rightarrow> unit fut \<Rightarrow> stop_signal fut" where
  "shutdown_signal first (Ready s _) (Ready t _) =
     (if s < t \<or> (s = t \<and> first) then Ready s Sigint else Ready t Sigterm)"
| "shutdown_signal first (Ready s _) Never = Ready s Sigint"
| "shutdown_signal first Never (Ready t _) = Ready t Sigterm"
| "shutdown_signal first Never Never = Never"

text \<open>The first of the two signals comes at \<open>s\<close>.\<close>

definition first_signal :: "unit fut \<Rightarrow> unit fut \<Rightarrow> nat \<Rightarrow> bool" where
  "first_signal c t s \<longleftrightarrow>
     (c = Ready s () \<or> t = Ready s ()) \<and> (\<forall>s'. c = Ready s' () \<or> t = Ready s' () \<longrightarrow> s \<le> s')"

lemma shutdown_signal_first:
  "shutdown_signal first c t = Ready s \<sigma> \<Longrightarrow>
     first_signal c t s \<and> (case \<sigma> of Sigint \<Rightarrow> c | Sigterm \<Rightarrow> t) = Ready s ()"
  "first_signal c t s \<Longrightarrow> \<exists>\<sigma>. shutdown_signal first c t = Ready s \<sigma>"
  by (cases "(first, c, t)" rule: shutdown_signal.cases; auto simp: first_signal_def split: if_splits)+

section \<open>main\<close>

text \<open>Durations are in nanoseconds.\<close>

definition from_secs :: "nat \<Rightarrow> nat" where "from_secs n = n * 1000000000"

definition FAIL_FAST_DEADLINE :: nat where "FAIL_FAST_DEADLINE = from_secs 5"

text \<open>
  The host: the command line, the dstack client of an endpoint, whether an address can be bound, how the
  server ends under a shutdown signal (\<open>Err\<close> is \<open>Inl\<close>), and the signals.
\<close>

record ('a, 'q) host =
  h_clap :: "'a clap"
  h_dstack :: "ustr option \<Rightarrow> 'q dstack"
  h_bind :: "'a \<Rightarrow> bool"
  h_serve :: "router \<times> 'q app_state \<Rightarrow> stop_signal fut \<Rightarrow> (unit + unit) fut"
  h_ctrl_c :: "unit fut"
  h_terminate :: "unit fut"
  h_select :: bool

text \<open>
  \<open>axum::serve\<close> with graceful shutdown: it returns \<open>Ok\<close> only after the shutdown future has completed.
\<close>

definition graceful :: "('a, 'q) host \<Rightarrow> bool" where
  "graceful S \<longleftrightarrow>
     (\<forall>app t. h_serve S app Never \<noteq> Ready t (Inr ())) \<and>
     (\<forall>app s \<sigma> t. h_serve S app (Ready s \<sigma>) = Ready t (Inr ()) \<longrightarrow> s \<le> t)"

text \<open>
  What the process does, in order, and when it exits with which status.  \<open>d\<close> is the time dstack took; the signals
  and the server's time count from the start of the server.
\<close>

datatype ('a, 'q) boot_event =
  IdentityReady string ustr | Bound 'a | Serving "router \<times> 'q app_state" | ShutdownComplete

definition confidential_limits :: "'a config \<Rightarrow> confidential_config" where
  "confidential_limits cfg =
     \<lparr>max_request_bytes = confidential_max_body_bytes cfg,
      max_response_bytes = confidential_max_response_bytes cfg,
      max_batch_size = unat (confidential_max_batch_size cfg),
      upstream_timeout = from_secs (unat (confidential_upstream_timeout_secs cfg))\<rparr>"

definition serve_until_stopped ::
  "('a, 'q) host \<Rightarrow> router \<times> 'q app_state \<Rightarrow> ('a, 'q) boot_event list \<times> nat fut" where
  "serve_until_stopped S app =
     (case h_serve S app (shutdown_signal (h_select S) (h_ctrl_c S) (h_terminate S)) of
        Never \<Rightarrow> ([], Never)
      | Ready t (Inl _) \<Rightarrow> ([], Ready t 1)
      | Ready t (Inr _) \<Rightarrow> ([ShutdownComplete], Ready t 0))"

definition sidecar_main ::
  "('c, 'm) world \<Rightarrow> ('a, 'q) host \<Rightarrow> ('a, 'q) boot_event list \<times> nat fut" where
  "sidecar_main W S =
     (case config_parse (h_clap S) of
        None \<Rightarrow> ([], Ready 0 (cl_exit (h_clap S)))
      | Some cfg \<Rightarrow>
          (case bootstrap_tdx_identity W cfg (h_dstack S (dstack_endpoint cfg)) of
             Never \<Rightarrow> ([], Never)
           | Ready d (Inl e) \<Rightarrow> ([], Ready (d + FAIL_FAST_DEADLINE) 2)
           | Ready d (Inr (signing, attestation)) \<Rightarrow>
               let ready = IdentityReady (pubkey_hex signing) (as_compose_hash attestation) in
               (case upstream_client_new (w_http W) (cfg_upstream_url cfg) (cfg_max_body_bytes cfg) of
                  Inl e \<Rightarrow> ([ready], Ready (d + FAIL_FAST_DEADLINE) 2)
                | Inr upstream \<Rightarrow>
                    let app = build_router \<lparr>app_upstream = upstream, app_signing = signing,
                                app_attestation = attestation, app_confidential = confidential_limits cfg\<rparr>
                                (cfg_max_body_bytes cfg) in
                    if \<not> h_bind S (listen_addr cfg) then ([ready], Ready d 1)
                    else (case serve_until_stopped S app of (events, exit) \<Rightarrow>
                            ([ready, Bound (listen_addr cfg), Serving app] @ events, await (Ready d ()) (\<lambda>_. exit))))))"

section \<open>Booting\<close>

text \<open>\<open>decode_to_slice\<close> fills a buffer of exactly half the text's length, with what \<open>decode\<close> gives.\<close>

definition hex_slices :: "hex_crate \<Rightarrow> bool" where
  "hex_slices X \<longleftrightarrow>
     (\<forall>d n bs. hex_decode_to_slice X d n = Some bs \<longleftrightarrow> length d = 2 * n \<and> hex_decode X d = Some bs \<and> length bs = n)"

lemma from_dstack_bytes_Inr:
  assumes "from_dstack_bytes X G H bs cid = Inr st"
  shows "length bs = 32 \<and> signing_key st = bs \<and> chain_id st = cid \<and> signing_inv X G H st"
proof -
  have len: "length bs = 32" using assms by (simp add: from_dstack_bytes_def signing_consts split: if_splits)
  then have "from_seed_ref X G H bs cid = Inr st"
    using assms by (simp add: from_dstack_bytes_def signing_consts overwrite_all)
  then show ?thesis using len from_seed_ref_Inr by blast
qed

lemma fut_map_Ready: "fut_map g x = Ready t y \<longleftrightarrow> (\<exists>a. x = Ready t a \<and> g a = y)"
  by (auto simp: fut_map_iff)

lemma attestation_bootstrap_Inr:
  assumes "attestation_bootstrap D pk allow = Ready t (Inr st)"
  shows "as_dstack st = D \<and> as_signing_pubkey st = pk \<and> (as_compose_hash st \<noteq> [] \<or> allow)
    \<and> (\<exists>info. ds_info D = Ready t (Some info) \<and> (info_compose_hash info \<noteq> [] \<or> allow))"
  using assms
  by (auto simp: attestation_bootstrap_def resolve_compose_hash_def Let_def try_bind_Inr_iff fut_try_Inr_iff fut_map_Ready
      split: if_splits)

lemma bootstrap_identity_Inr:
  assumes "bootstrap_tdx_identity W cfg D = Ready d (Inr (signing, attestation))"
  obtains t key bs where "ds_get_key D (key_path cfg) (key_purpose cfg) = Ready t (Some key)"
    "hex_decode_to_slice (w_hex W) (utf8 key) (length (utf8 key) div 2) = Some bs"
    "length bs = 32" "signing_key signing = bs" "chain_id signing = cfg_chain_id cfg"
    "signing_inv (w_hex W) (w_sig W) (w_hpke W) signing"
    "as_dstack attestation = D" "as_signing_pubkey attestation = pubkey_bytes (w_sig W) signing"
    "as_compose_hash attestation \<noteq> [] \<or> allow_empty_compose_hash cfg"
    "\<exists>t' info. ds_info D = Ready t' (Some info) \<and> (info_compose_hash info \<noteq> [] \<or> allow_empty_compose_hash cfg)"
proof -
  obtain t key bs t' where "ds_get_key D (key_path cfg) (key_purpose cfg) = Ready t (Some key)"
    "hex_decode_to_slice (w_hex W) (utf8 key) (length (utf8 key) div 2) = Some bs"
    and s: "from_dstack_bytes (w_hex W) (w_sig W) (w_hpke W) bs (cfg_chain_id cfg) = Inr signing"
    and a: "attestation_bootstrap D (pubkey_bytes (w_sig W) signing) (allow_empty_compose_hash cfg) = Ready t' (Inr attestation)"
    using assms by (auto simp: bootstrap_tdx_identity_def Let_def fut_try_Inr_iff fut_map_Ready)
  then show ?thesis
    using that from_dstack_bytes_Inr[OF s] attestation_bootstrap_Inr[OF a] by blast
qed

text \<open>How long the boot waits: never, when a call it makes is not answered, and else no longer than dstack takes.\<close>

lemma bootstrap_identity_time:
  assumes "ds_get_key D (key_path cfg) (key_purpose cfg) = Ready t1 key" and "ds_info D = Ready t2 info"
  obtains d r where "bootstrap_tdx_identity W cfg D = Ready d r" "d \<le> t1 + t2"
proof -
  have a: "\<exists>r. attestation_bootstrap D pk allow = Ready t2 r" for pk allow
    using assms(2) by (cases info) (simp_all add: attestation_bootstrap_def)
  have "\<exists>d r. bootstrap_tdx_identity W cfg D = Ready d r \<and> d \<le> t1 + t2"
  proof (cases key)
    case (Some k)
    let ?slice = "hex_decode_to_slice (w_hex W) (utf8 k) (length (utf8 k) div 2)"
    show ?thesis
    proof (cases ?slice)
      case slice: (Some bs)
      show ?thesis
      proof (cases "from_dstack_bytes (w_hex W) (w_sig W) (w_hpke W) bs (cfg_chain_id cfg)")
        case (Inr signing)
        obtain r where "attestation_bootstrap D (pubkey_bytes (w_sig W) signing) (allow_empty_compose_hash cfg) = Ready t2 r"
          using a by blast
        then show ?thesis using assms(1) Some slice Inr
          by (cases r) (simp_all add: bootstrap_tdx_identity_def Let_def)
      qed (use assms(1) Some slice in \<open>simp add: bootstrap_tdx_identity_def Let_def\<close>)
    qed (use assms(1) Some in \<open>simp add: bootstrap_tdx_identity_def Let_def\<close>)
  qed (use assms(1) in \<open>simp add: bootstrap_tdx_identity_def\<close>)
  then show thesis using that by blast
qed

lemma served_events:
  assumes "Serving app \<in> set (fst (sidecar_main W S))"
  obtains cfg d signing attestation upstream where "config_parse (h_clap S) = Some cfg"
    "bootstrap_tdx_identity W cfg (h_dstack S (dstack_endpoint cfg)) = Ready d (Inr (signing, attestation))"
    "upstream_client_new (w_http W) (cfg_upstream_url cfg) (cfg_max_body_bytes cfg) = Inr upstream"
    "h_bind S (listen_addr cfg)"
    "app = build_router \<lparr>app_upstream = upstream, app_signing = signing, app_attestation = attestation,
       app_confidential = confidential_limits cfg\<rparr> (cfg_max_body_bytes cfg)"
  using assms that
  by (auto simp: sidecar_main_def serve_until_stopped_def Let_def
      split: option.split_asm sum.split_asm prod.split_asm if_split_asm fut.split_asm)

lemma bootstrap_identity_none:
  assumes "hex_slices (w_hex W)"
    and "\<not> (\<exists>t key bs. ds_get_key D (key_path cfg) (key_purpose cfg) = Ready t (Some key)
           \<and> hex_decode (w_hex W) (utf8 key) = Some bs \<and> length bs = 32)
      \<or> \<not> (\<exists>t info. ds_info D = Ready t (Some info) \<and> (info_compose_hash info \<noteq> [] \<or> allow_empty_compose_hash cfg))"
  shows "bootstrap_tdx_identity W cfg D \<noteq> Ready d (Inr p)"
proof
  assume ok: "bootstrap_tdx_identity W cfg D = Ready d (Inr p)"
  obtain signing att where p: "p = (signing, att)" by (cases p)
  obtain t key bs where "ds_get_key D (key_path cfg) (key_purpose cfg) = Ready t (Some key)"
      "hex_decode_to_slice (w_hex W) (utf8 key) (length (utf8 key) div 2) = Some bs" "length bs = 32"
      "\<exists>t' info. ds_info D = Ready t' (Some info) \<and> (info_compose_hash info \<noteq> [] \<or> allow_empty_compose_hash cfg)"
    by (rule bootstrap_identity_Inr[OF ok[unfolded p]])
  then show False using assms unfolding hex_slices_def by blast
qed

lemma boot_run:
  assumes "config_parse (h_clap S) = Some cfg" and "D = h_dstack S (dstack_endpoint cfg)"
    and "hex_slices (w_hex W)" and "hex_digits (w_hex W)" and "hex_roundtrip (w_hex W)" and "length seed = 32"
    and "ds_get_key D (key_path cfg) (key_purpose cfg) = Ready t1 (Some (chars (hex_encode (w_hex W) seed)))"
    and "public_key (w_hpke W) (derive_kem_secret (w_sig W) seed) = Inr (to_montgomery (w_sig W) (verifying_key (w_sig W) seed))"
    and "ds_info D = Ready t2 (Some info)" and "ds_info_json D info = Some json" and "info_compose_hash info \<noteq> []"
    and "uri_parse (w_http W) (cfg_upstream_url cfg) = Some u" and "h_bind S (listen_addr cfg)"
  shows "\<exists>app. signing_key (app_signing (snd app)) = seed \<and>
    fst (sidecar_main W S) =
      [IdentityReady (prefixed_hex (w_hex W) (verifying_key (w_sig W) seed)) (info_compose_hash info),
       Bound (listen_addr cfg), Serving app] @ fst (serve_until_stopped S app) \<and>
    snd (sidecar_main W S) = await (Ready (t1 + t2) ()) (\<lambda>_. snd (serve_until_stopped S app))"
proof -
  let ?h = "hex_encode (w_hex W) seed" and ?X = "w_hex W" and ?G = "w_sig W"
  have plain: "utf8 (chars ?h) = ascii ?h"
    by (rule utf8_ascii) (use hex_text[OF assms(4)] in fastforce)
  have slice: "hex_decode_to_slice ?X (ascii ?h) (length (ascii ?h) div 2) = Some seed"
    using assms(3-5) by (simp add: hex_slices_def hex_digits_def hex_roundtrip_def)
  obtain st where st: "from_dstack_bytes ?X ?G (w_hpke W) seed (cfg_chain_id cfg) = Inr st"
    using assms(6,8) by (simp add: from_dstack_bytes_def signing_consts overwrite_all from_seed_ref_def Let_def check_kem_key_def)
  note inv = from_dstack_bytes_Inr[OF st]
  have pk: "pubkey_hex st = prefixed_hex ?X (verifying_key ?G seed)"
    using inv by (simp add: signing_inv_def pubkey_bytes_def)
  let ?a = "\<lparr>as_dstack = D, as_signing_pubkey = pubkey_bytes ?G st, as_compose_hash = info_compose_hash info,
     as_app_compose = info_app_compose info, as_info_json = json\<rparr>"
  let ?app = "build_router \<lparr>app_upstream = \<lparr>upstream_url = u, max_body_bytes = cfg_max_body_bytes cfg\<rparr>,
     app_signing = st, app_attestation = ?a, app_confidential = confidential_limits cfg\<rparr> (cfg_max_body_bytes cfg)"
  have id: "bootstrap_tdx_identity W cfg D = Ready (t1 + t2) (Inr (st, ?a))"
    using assms(7,9-11) slice st
    by (simp add: bootstrap_tdx_identity_def Let_def plain attestation_bootstrap_def resolve_compose_hash_def)
  have "fst (sidecar_main W S) = [IdentityReady (pubkey_hex st) (info_compose_hash info),
      Bound (listen_addr cfg), Serving ?app] @ fst (serve_until_stopped S ?app)"
    "snd (sidecar_main W S) = await (Ready (t1 + t2) ()) (\<lambda>_. snd (serve_until_stopped S ?app))"
    using assms(1,2,12,13) id
    by (simp_all add: sidecar_main_def Let_def upstream_client_new_def split: prod.split)
  then show ?thesis using inv pk by (intro exI[of _ ?app]) simp
qed

section \<open>Properties\<close>

text \<open>
  C11: What is being served.  Whenever the server runs, the configuration was valid, the signing key is
  the 32 bytes dstack released for the configured path and purpose, the signing state satisfies its
  invariant under the configured chain id, the attestation state quotes exactly that signing key through
  the same dstack, it has a compose hash unless the operator opted out, and the confidential limits are
  those of the configuration: a batch limit in 1..=1000 and a deadline of at least one second.
\<close>
theorem boot_binds_identity:
  assumes "Serving app \<in> set (fst (sidecar_main W S))"
    and "hex_slices (w_hex W)" and "clap_numbers (h_clap S)"
  shows "\<exists>cfg t key. config_parse (h_clap S) = Some cfg \<and> config_ok cfg
    \<and> ds_get_key (h_dstack S (dstack_endpoint cfg)) (key_path cfg) (key_purpose cfg) = Ready t (Some key)
    \<and> hex_decode (w_hex W) (utf8 key) = Some (signing_key (app_signing (snd app)))
    \<and> length (signing_key (app_signing (snd app))) = 32
    \<and> signing_inv (w_hex W) (w_sig W) (w_hpke W) (app_signing (snd app))
    \<and> chain_id (app_signing (snd app)) = cfg_chain_id cfg
    \<and> as_dstack (app_attestation (snd app)) = h_dstack S (dstack_endpoint cfg)
    \<and> as_signing_pubkey (app_attestation (snd app)) = pubkey_bytes (w_sig W) (app_signing (snd app))
    \<and> (as_compose_hash (app_attestation (snd app)) \<noteq> [] \<or> allow_empty_compose_hash cfg)
    \<and> app_confidential (snd app) = confidential_limits cfg
    \<and> 1 \<le> max_batch_size (confidential_limits cfg) \<and> max_batch_size (confidential_limits cfg) \<le> 1000
    \<and> from_secs 1 \<le> upstream_timeout (confidential_limits cfg)"
proof -
  obtain cfg d signing att up where cfg: "config_parse (h_clap S) = Some cfg"
      and id: "bootstrap_tdx_identity W cfg (h_dstack S (dstack_endpoint cfg)) = Ready d (Inr (signing, att))"
      and app: "app = build_router \<lparr>app_upstream = up, app_signing = signing, app_attestation = att,
         app_confidential = confidential_limits cfg\<rparr> (cfg_max_body_bytes cfg)"
    by (rule served_events[OF assms(1)])
  have "config_ok cfg" by (rule config_parse_ok[OF cfg assms(3)])
  moreover from this have "1 \<le> max_batch_size (confidential_limits cfg) \<and> max_batch_size (confidential_limits cfg) \<le> 1000
      \<and> from_secs 1 \<le> upstream_timeout (confidential_limits cfg)"
    by (simp add: config_ok_def confidential_limits_def from_secs_def)
  moreover obtain t key bs where "ds_get_key (h_dstack S (dstack_endpoint cfg)) (key_path cfg) (key_purpose cfg) = Ready t (Some key)"
    "hex_decode_to_slice (w_hex W) (utf8 key) (length (utf8 key) div 2) = Some bs"
    "length bs = 32" "signing_key signing = bs" "chain_id signing = cfg_chain_id cfg"
    "signing_inv (w_hex W) (w_sig W) (w_hpke W) signing"
    "as_dstack att = h_dstack S (dstack_endpoint cfg)" "as_signing_pubkey att = pubkey_bytes (w_sig W) signing"
    "as_compose_hash att \<noteq> [] \<or> allow_empty_compose_hash cfg"
    by (rule bootstrap_identity_Inr[OF id])
  ultimately show ?thesis
    using cfg assms(2) by (intro exI[of _ cfg] exI[of _ t] exI[of _ key]) (simp add: app hex_slices_def)
qed

text \<open>
  C12: The sidecar fails closed.  When dstack releases no key, or one that is not the hexadecimal text of
  32 bytes, or gives no info, or names no compose hash without the operator's opt-out, the process binds
  no port and serves nothing, also when dstack never answers; when dstack answers, it exits with status 2, five seconds
  after the failure and no later than that after the time dstack took.
\<close>
theorem boot_fails_closed:
  assumes "config_parse (h_clap S) = Some cfg" and "D = h_dstack S (dstack_endpoint cfg)" and "hex_slices (w_hex W)"
    and "\<not> (\<exists>t key bs. ds_get_key D (key_path cfg) (key_purpose cfg) = Ready t (Some key)
           \<and> hex_decode (w_hex W) (utf8 key) = Some bs \<and> length bs = 32)
      \<or> \<not> (\<exists>t info. ds_info D = Ready t (Some info) \<and> (info_compose_hash info \<noteq> [] \<or> allow_empty_compose_hash cfg))"
  shows "fst (sidecar_main W S) = []
    \<and> (snd (sidecar_main W S) = Never \<or> (\<exists>d. snd (sidecar_main W S) = Ready (d + 5000000000) 2))
    \<and> (ds_get_key D (key_path cfg) (key_purpose cfg) = Ready t1 key \<and> ds_info D = Ready t2 info \<longrightarrow>
        (\<exists>d \<le> t1 + t2. sidecar_main W S = ([], Ready (d + 5000000000) 2)))"
proof -
  have failed: "bootstrap_tdx_identity W cfg D = Never \<and> sidecar_main W S = ([], Never) \<or>
      (\<exists>d e. bootstrap_tdx_identity W cfg D = Ready d (Inl e) \<and> sidecar_main W S = ([], Ready (d + 5000000000) 2))"
  proof (cases "bootstrap_tdx_identity W cfg D")
    case (Ready d r)
    then show ?thesis using bootstrap_identity_none[OF assms(3,4)] assms(1,2)
      by (cases r) (auto simp: sidecar_main_def FAIL_FAST_DEADLINE_def from_secs_def)
  qed (use assms(1,2) in \<open>simp add: sidecar_main_def\<close>)
  moreover have "\<exists>d \<le> t1 + t2. sidecar_main W S = ([], Ready (d + 5000000000) 2)"
    if answered: "ds_get_key D (key_path cfg) (key_purpose cfg) = Ready t1 key" "ds_info D = Ready t2 info"
  proof -
    obtain d r where "bootstrap_tdx_identity W cfg D = Ready d r" "d \<le> t1 + t2"
      by (rule bootstrap_identity_time[OF answered])
    then show ?thesis using failed by auto
  qed
  ultimately show ?thesis by auto
qed

text \<open>
  C23: The sidecar comes up and stops when it is told to.  With a parsed configuration, a dstack that releases the
  hexadecimal text of a 32-byte key whose X25519 form checks out and that reports an info with a compose
  hash, a parsable upstream URL and a free port, the process announces its identity, binds and serves.  It exits with
  status 0 only after \<open>SIGINT\<close> or \<open>SIGTERM\<close>, when the server has drained under the earlier of the two, never
  without one; and when the earlier one comes and the server drains, it does.
\<close>
theorem boot_serves:
  assumes "config_parse (h_clap S) = Some cfg" and "D = h_dstack S (dstack_endpoint cfg)"
    and "hex_slices (w_hex W)" and "hex_digits (w_hex W)" and "hex_roundtrip (w_hex W)" and "length seed = 32"
    and "ds_get_key D (key_path cfg) (key_purpose cfg) = Ready t1 (Some (chars (hex_encode (w_hex W) seed)))"
    and "public_key (w_hpke W) (derive_kem_secret (w_sig W) seed) = Inr (to_montgomery (w_sig W) (verifying_key (w_sig W) seed))"
    and "ds_info D = Ready t2 (Some info)" and "ds_info_json D info = Some json" and "info_compose_hash info \<noteq> []"
    and "uri_parse (w_http W) (cfg_upstream_url cfg) = Some u" and "h_bind S (listen_addr cfg)" and "graceful S"
  shows "\<exists>app rest. fst (sidecar_main W S) =
      [IdentityReady (prefixed_hex (w_hex W) (verifying_key (w_sig W) seed)) (info_compose_hash info),
       Bound (listen_addr cfg), Serving app] @ rest
    \<and> signing_key (app_signing (snd app)) = seed
    \<and> (\<forall>t. snd (sidecar_main W S) = Ready t 0 \<longleftrightarrow>
        (\<exists>s \<sigma> drained. first_signal (h_ctrl_c S) (h_terminate S) s
           \<and> shutdown_signal (h_select S) (h_ctrl_c S) (h_terminate S) = Ready s \<sigma>
           \<and> h_serve S app (Ready s \<sigma>) = Ready drained (Inr ()) \<and> s \<le> drained \<and> t = t1 + t2 + drained))
    \<and> (\<forall>s drained. first_signal (h_ctrl_c S) (h_terminate S) s \<and> (\<forall>\<sigma>. h_serve S app (Ready s \<sigma>) = Ready drained (Inr ())) \<longrightarrow>
        snd (sidecar_main W S) = Ready (t1 + t2 + drained) 0)
    \<and> (h_ctrl_c S = Never \<and> h_terminate S = Never \<longrightarrow> (\<forall>t. snd (sidecar_main W S) \<noteq> Ready t 0))
    \<and> (rest = [ShutdownComplete] \<longleftrightarrow> (\<exists>t. snd (sidecar_main W S) = Ready t 0))"
proof -
  let ?sig = "shutdown_signal (h_select S) (h_ctrl_c S) (h_terminate S)" and ?first = "first_signal (h_ctrl_c S) (h_terminate S)"
  obtain app where app: "signing_key (app_signing (snd app)) = seed"
      "fst (sidecar_main W S) =
        [IdentityReady (prefixed_hex (w_hex W) (verifying_key (w_sig W) seed)) (info_compose_hash info),
         Bound (listen_addr cfg), Serving app] @ fst (serve_until_stopped S app)"
      and main: "snd (sidecar_main W S) = await (Ready (t1 + t2) ()) (\<lambda>_. snd (serve_until_stopped S app))"
    using boot_run[OF assms(1-13)] by blast
  have exit: "snd (sidecar_main W S) = Ready t 0 \<longleftrightarrow> (\<exists>drained. h_serve S app ?sig = Ready drained (Inr ()) \<and> t = t1 + t2 + drained)" for t
    by (auto simp: main serve_until_stopped_def split: fut.splits sum.splits)
  have stopped: "\<exists>s \<sigma>. ?sig = Ready s \<sigma> \<and> ?first s \<and> s \<le> drained" if "h_serve S app ?sig = Ready drained (Inr ())" for drained
    using that assms(14) shutdown_signal_first(1)[of "h_select S" "h_ctrl_c S" "h_terminate S"]
    by (cases ?sig) (auto simp: graceful_def simp del: split_paired_All)
  show ?thesis
  proof (intro exI[of _ app] exI[of _ "fst (serve_until_stopped S app)"] conjI allI impI)
    show "snd (sidecar_main W S) = Ready t 0 \<longleftrightarrow>
        (\<exists>s \<sigma> drained. ?first s \<and> ?sig = Ready s \<sigma> \<and> h_serve S app (Ready s \<sigma>) = Ready drained (Inr ())
           \<and> s \<le> drained \<and> t = t1 + t2 + drained)" for t
      unfolding exit using stopped by metis
    show "snd (sidecar_main W S) = Ready (t1 + t2 + drained) 0"
      if "?first s \<and> (\<forall>\<sigma>. h_serve S app (Ready s \<sigma>) = Ready drained (Inr ()))" for s drained
      using that shutdown_signal_first(2)[of "h_ctrl_c S" "h_terminate S" s "h_select S"] by (auto simp: exit)
    show "snd (sidecar_main W S) \<noteq> Ready t 0" if "h_ctrl_c S = Never \<and> h_terminate S = Never" for t
      using that stopped by (auto simp: exit first_signal_def)
    show "fst (serve_until_stopped S app) = [ShutdownComplete] \<longleftrightarrow> (\<exists>t. snd (sidecar_main W S) = Ready t 0)"
      by (auto simp: main serve_until_stopped_def split: fut.splits sum.splits)
  qed (use app in simp_all)
qed

section \<open>An instance\<close>

definition demo_host :: "(ustr, bytes) host" where
  "demo_host = \<lparr>h_clap = demo_clap, h_dstack = (\<lambda>e. demo_dstack), h_bind = (\<lambda>a. True),
     h_serve = (\<lambda>app sig. case sig of Never \<Rightarrow> Never | Ready t s \<Rightarrow> Ready (t + 1) (Inr ())),
     h_ctrl_c = Ready 9 (), h_terminate = Never, h_select = True\<rparr>"

lemma demo_hex_decode_length: "demo_hex_decode d = Some bs \<Longrightarrow> length d = 2 * length bs"
  by (induction d arbitrary: bs rule: demo_hex_decode.induct) (auto split: option.splits)

lemma demo_hex_slices: "hex_slices demo_hex"
  by (auto simp: hex_slices_def demo_hex_def demo_hex_decode_length split: option.splits if_splits)

lemma demo_config_parsed:
  obtains cfg where "config_parse demo_clap = Some cfg" "key_path cfg = chars ''rpc-sign/v1''"
    "cfg_upstream_url cfg = chars ''http://node:8545/base/''" "\<not> allow_empty_compose_hash cfg"
    "cfg_chain_id cfg = chars ''137''"
proof -
  have "config_parse demo_clap \<noteq> None"
    by (simp add: config_parse_def arg_def arg_default_def arg_optional_def demo_clap_args demo_chain_id)
       (simp add: demo_clap_def within_dec usize_max_def)
  then obtain cfg where "config_parse demo_clap = Some cfg" by blast
  then show ?thesis
    using that by (auto simp: config_parse_def arg_def arg_default_def arg_optional_def demo_clap_args demo_chain_id
        bind_eq_Some_conv)
qed

lemma demo_host_sel [simp]:
  "h_clap demo_host = demo_clap" "h_dstack demo_host e = demo_dstack" "h_bind demo_host a"
  by (simp_all add: demo_host_def)

lemma demo_dstack_sel:
  "ds_get_key demo_dstack p u = Ready 3 (Some (chars (hex_encode demo_hex (replicate 32 0))))"
  "ds_info demo_dstack = Ready 2 (Some \<lparr>info_compose_hash = [97], info_app_compose = [98]\<rparr>)"
  "ds_info_json demo_dstack i = Some [123, 125]"
  by (simp_all add: demo_dstack_def demo_hex_def)

lemma demo_kem:
  "public_key demo_hpke_zero (derive_kem_secret demo_sig (replicate 32 0)) =
     Inr (to_montgomery demo_sig (verifying_key demo_sig (replicate 32 0)))"
proof -
  have "signing_key demo_state = replicate 32 0" by (simp add: demo_state_def)
  then show ?thesis using demo_state_inv(1) unfolding signing_inv_def pubkey_bytes_def by metis
qed

lemma demo_uri_parse: "uri_parse demo_http (chars ''http://node:8545/base/'') = Some demo_uri"
  by (simp add: demo_http_def)

lemma demo_graceful: "graceful demo_host"
  by (simp add: graceful_def demo_host_def)

theorem boot_serves_witness:
  "\<exists>app rest. fst (sidecar_main demo_world demo_host) =
      [IdentityReady (prefixed_hex demo_hex (verifying_key demo_sig (replicate 32 0))) [97],
       Bound (chars ''0.0.0.0:8545''), Serving app] @ rest
    \<and> signing_key (app_signing (snd app)) = replicate 32 0 \<and> snd (sidecar_main demo_world demo_host) = Ready 15 0"
proof -
  obtain cfg where cfg: "config_parse demo_clap = Some cfg" "cfg_upstream_url cfg = chars ''http://node:8545/base/''"
    by (rule demo_config_parsed)
  have "listen_addr cfg = chars ''0.0.0.0:8545''"
    using cfg(1) by (auto simp: config_parse_def arg_default_def demo_clap_args bind_eq_Some_conv)
  moreover have "first_signal (h_ctrl_c demo_host) (h_terminate demo_host) 9" "h_serve demo_host app (Ready 9 \<sigma>) = Ready 10 (Inr ())" for app \<sigma>
    by (simp_all add: first_signal_def demo_host_def)
  moreover have "\<exists>app rest. fst (sidecar_main demo_world demo_host) =
      [IdentityReady (prefixed_hex (w_hex demo_world) (verifying_key (w_sig demo_world) (replicate 32 0)))
         (info_compose_hash \<lparr>info_compose_hash = [97], info_app_compose = [98]\<rparr>), Bound (listen_addr cfg), Serving app] @ rest
    \<and> signing_key (app_signing (snd app)) = replicate 32 0
    \<and> (\<forall>t. snd (sidecar_main demo_world demo_host) = Ready t 0 \<longleftrightarrow>
        (\<exists>s \<sigma> drained. first_signal (h_ctrl_c demo_host) (h_terminate demo_host) s
           \<and> shutdown_signal (h_select demo_host) (h_ctrl_c demo_host) (h_terminate demo_host) = Ready s \<sigma>
           \<and> h_serve demo_host app (Ready s \<sigma>) = Ready drained (Inr ()) \<and> s \<le> drained \<and> t = 3 + 2 + drained))
    \<and> (\<forall>s drained. first_signal (h_ctrl_c demo_host) (h_terminate demo_host) s
           \<and> (\<forall>\<sigma>. h_serve demo_host app (Ready s \<sigma>) = Ready drained (Inr ())) \<longrightarrow>
        snd (sidecar_main demo_world demo_host) = Ready (3 + 2 + drained) 0)
    \<and> (h_ctrl_c demo_host = Never \<and> h_terminate demo_host = Never \<longrightarrow> (\<forall>t. snd (sidecar_main demo_world demo_host) \<noteq> Ready t 0))
    \<and> (rest = [ShutdownComplete] \<longleftrightarrow> (\<exists>t. snd (sidecar_main demo_world demo_host) = Ready t 0))"
    using cfg demo_hex_slices demo_hex_digits demo_hex_roundtrip demo_kem
    by (intro boot_serves[where u = demo_uri, OF _ refl _ _ _ _ _ _ _ _ _ _ _ demo_graceful])
      (simp_all add: demo_dstack_sel demo_uri_parse)
  ultimately show ?thesis by (elim exE conjE) fastforce
qed

lemma demo_served_app:
  obtains app where "Serving app \<in> set (fst (sidecar_main demo_world demo_host))"
proof -
  obtain cfg where cfg: "config_parse demo_clap = Some cfg" "cfg_upstream_url cfg = chars ''http://node:8545/base/''"
    by (rule demo_config_parsed)
  obtain app where "fst (sidecar_main demo_world demo_host) =
      [IdentityReady (prefixed_hex demo_hex (verifying_key demo_sig (replicate 32 0))) [97],
         Bound (listen_addr cfg), Serving app] @ fst (serve_until_stopped demo_host app)"
    using boot_run[of demo_host cfg demo_dstack demo_world "replicate 32 0" 3 2
        "\<lparr>info_compose_hash = [97], info_app_compose = [98]\<rparr>" "[123, 125]" demo_uri]
      cfg demo_hex_slices demo_hex_digits demo_hex_roundtrip demo_kem
    by (simp add: demo_dstack_sel demo_uri_parse) blast
  then show ?thesis by (intro that[of app]) simp
qed

theorem boot_binds_identity_witness:
  "\<exists>app. Serving app \<in> set (fst (sidecar_main demo_world demo_host))
     \<and> signing_inv demo_hex demo_sig demo_hpke_zero (app_signing (snd app))
     \<and> as_signing_pubkey (app_attestation (snd app)) = pubkey_bytes demo_sig (app_signing (snd app))"
proof -
  obtain app where app: "Serving app \<in> set (fst (sidecar_main demo_world demo_host))"
    by (rule demo_served_app)
  show ?thesis
    using boot_binds_identity[OF app] demo_hex_slices demo_clap_numbers app
    by (intro exI[of _ app]) auto
qed

theorem boot_fails_closed_witness:
  "\<exists>d \<le> 9. sidecar_main demo_world (demo_host\<lparr>h_dstack := (\<lambda>e. demo_dstack\<lparr>ds_get_key := (\<lambda>p u. Ready 7 None)\<rparr>)\<rparr>)
     = ([], Ready (d + 5000000000) 2)"
proof -
  let ?D = "demo_dstack\<lparr>ds_get_key := (\<lambda>p u. Ready 7 None)\<rparr>"
  let ?S = "demo_host\<lparr>h_dstack := (\<lambda>e. ?D)\<rparr>"
  obtain cfg where "config_parse demo_clap = Some cfg" by (rule demo_config_parsed)
  then show ?thesis
    using boot_fails_closed[of ?S cfg ?D demo_world 7 None 2] demo_hex_slices
    by (simp add: demo_dstack_sel)
qed

end
