(* ===== verification/Call_Lifecycle.thy ===== *)
theory Call_Lifecycle
  imports Exchange
begin

text \<open>
  The calls of \<open>/confidential\<close> as the server runs them: each is the future of an \<open>async fn\<close> that the executor
  polls, many at once, and that is dropped when it has returned or when its client has gone away.  The states of
  a future, what polling it does and what dropping it does follow the handlers of
  \<open>src/src/confidential.rs\<close>; a step relation interleaves the polls and drops of all calls.
\<close>

section \<open>Transition systems\<close>

locale transition_system =
  fixes step :: "'s \<Rightarrow> 's \<Rightarrow> bool" and start :: 's and inv :: "'s \<Rightarrow> bool"
  assumes start_inv: "inv start" and step_inv: "inv s \<Longrightarrow> step s t \<Longrightarrow> inv t"
begin

lemma run_inv:
  assumes "step\<^sup>*\<^sup>* start s"
  shows "inv s"
  using assms by (induction rule: rtranclp_induct) (auto intro: start_inv step_inv)

end

text \<open>A specification machine that follows every step with some, or no, steps of its own.\<close>

locale simulation = transition_system +
  fixes spec :: "'a \<Rightarrow> 'a \<Rightarrow> bool" and abs :: "'s \<Rightarrow> 'a"
  assumes simulates: "inv s \<Longrightarrow> step s t \<Longrightarrow> spec\<^sup>*\<^sup>* (abs s) (abs t)"
begin

lemma run_simulates:
  assumes "step\<^sup>*\<^sup>* start s"
  shows "spec\<^sup>*\<^sup>* (abs start) (abs s)"
  using assms
proof (induction rule: rtranclp_induct)
  case (step s t)
  then have "spec\<^sup>*\<^sup>* (abs s) (abs t)" using run_inv simulates by blast
  then show ?case using step.IH by (rule rtranclp_trans[rotated])
qed simp

end

section \<open>The future of a call\<close>

text \<open>
  An \<open>async fn\<close> runs nothing before its first poll.  \<open>confidential_exchange\<close> has one \<open>.await\<close>, at which its guard
  is live; when it returns, the guard goes out of scope.
\<close>

datatype task = Unresumed | Suspended outcome_guard | Returned

text \<open>
  One poll at time \<open>now\<close>: the guard is made at the first one; once the exchange is ready, the same poll records its
  outcome in the guard, drops the guard, which logs, and returns the response.  \<open>call started\<close> is
  \<open>confidential_exchange\<close> of a call whose guard was made at \<open>started\<close>.
\<close>

definition resume ::
  "(nat \<Rightarrow> (response \<times> outcome_guard) io) \<Rightarrow> nat \<Rightarrow> outcome_guard \<Rightarrow> task \<times> response option \<times> log_line list" where
  "resume call now guard =
     (case snd (call (og_started guard)) of
        Never \<Rightarrow> (Suspended guard, None, [])
      | Ready t (resp, finished) \<Rightarrow>
          if og_started guard + t \<le> now then (Returned, Some resp, [guard_drop finished now])
          else (Suspended guard, None, []))"

definition poll_exchange ::
  "(nat \<Rightarrow> (response \<times> outcome_guard) io) \<Rightarrow> nat \<Rightarrow> task \<Rightarrow> task \<times> response option \<times> log_line list" where
  "poll_exchange call now task =
     (case task of
        Unresumed \<Rightarrow> resume call now \<lparr>og_started = now, og_done = None\<rparr>
      | Suspended guard \<Rightarrow> resume call now guard
      | Returned \<Rightarrow> (Returned, None, []))"

text \<open>\<open>confidential_method_not_allowed\<close> has no \<open>.await\<close>: its first poll logs and returns.\<close>

definition poll_refusal :: "task \<Rightarrow> task \<times> response option \<times> log_line list" where
  "poll_refusal task =
     (case task of
        Unresumed \<Rightarrow> (Returned, Some (fst confidential_method_not_allowed), [snd confidential_method_not_allowed])
      | _ \<Rightarrow> (task, None, []))"

text \<open>Dropping a future drops what it holds: the guard, when it is suspended.\<close>

definition drop_task :: "nat \<Rightarrow> task \<Rightarrow> log_line list" where
  "drop_task now task = (case task of Suspended guard \<Rightarrow> [guard_drop guard now] | _ \<Rightarrow> [])"

text \<open>
  The future of call \<open>i\<close>, whose request is \<open>rq i\<close> and whose clock readings, random bytes and network are
  \<open>W i\<close>: the route of \<open>/confidential\<close> gives \<open>POST\<close> to one handler and every other method to the other.
\<close>

definition poll_call ::
  "(nat \<Rightarrow> ('c, 'm) world) \<Rightarrow> upstream_client \<Rightarrow> signing_state \<Rightarrow> confidential_config \<Rightarrow> (nat \<Rightarrow> request) \<Rightarrow>
   nat \<Rightarrow> nat \<Rightarrow> task \<Rightarrow> task \<times> response option \<times> log_line list" where
  "poll_call W c st cfg rq i now task =
     (if rq_method (rq i) = ascii ''POST''
      then poll_exchange (\<lambda>started. confidential_exchange (W i) c st cfg started (rq i)) now task
      else poll_refusal task)"

section \<open>The calls of a server\<close>

text \<open>
  \<open>sv_tasks\<close> holds the futures that exist, by call number, \<open>sv_polled\<close> the calls that have been polled, \<open>sv_log\<close> the
  lines written and \<open>sv_answers\<close> the responses returned, each oldest first.
\<close>

record service =
  sv_now :: nat
  sv_next :: nat
  sv_tasks :: "nat \<rightharpoonup> task"
  sv_polled :: "nat set"
  sv_log :: "(nat \<times> log_line) list"
  sv_answers :: "(nat \<times> response) list"

definition service_start :: service where
  "service_start = \<lparr>sv_now = 0, sv_next = 0, sv_tasks = Map.empty, sv_polled = {}, sv_log = [], sv_answers = []\<rparr>"

definition write_lines :: "nat \<Rightarrow> log_line list \<Rightarrow> service \<Rightarrow> service" where
  "write_lines i ls s = s\<lparr>sv_log := sv_log s @ map (Pair i) ls\<rparr>"

definition give_answer :: "nat \<Rightarrow> response option \<Rightarrow> service \<Rightarrow> service" where
  "give_answer i r s = (case r of None \<Rightarrow> s | Some resp \<Rightarrow> s\<lparr>sv_answers := sv_answers s @ [(i, resp)]\<rparr>)"

text \<open>
  Time passes, a request arrives, the executor polls a future that has not returned, whenever it likes, or a
  future is dropped, at any time, after its return or before.
\<close>

inductive service_step ::
  "(nat \<Rightarrow> nat \<Rightarrow> task \<Rightarrow> task \<times> response option \<times> log_line list) \<Rightarrow> service \<Rightarrow> service \<Rightarrow> bool" for poll where
  tick: "sv_now s \<le> now \<Longrightarrow> service_step poll s (s\<lparr>sv_now := now\<rparr>)"
| arrive: "service_step poll s
    (s\<lparr>sv_next := sv_next s + 1, sv_tasks := (sv_tasks s)(sv_next s \<mapsto> Unresumed)\<rparr>)"
| polled: "sv_tasks s i = Some task \<Longrightarrow> task \<noteq> Returned \<Longrightarrow> poll i (sv_now s) task = (task', r, ls) \<Longrightarrow>
    service_step poll s
      (give_answer i r (write_lines i ls
        (s\<lparr>sv_tasks := (sv_tasks s)(i \<mapsto> task'), sv_polled := insert i (sv_polled s)\<rparr>)))"
| dropped: "sv_tasks s i = Some task \<Longrightarrow>
    service_step poll s
      (write_lines i (drop_task (sv_now s) task) (s\<lparr>sv_tasks := (sv_tasks s)(i := None)\<rparr>))"

inductive_cases service_stepE: "service_step poll s t"

section \<open>What a line may say\<close>

text \<open>
  The line of an answered call: its own outcome, the status of its own answer and a time not below the
  time the exchange took; or the fixed line of a refused method.  A cancelled call has its own kind of line.
\<close>

definition answered_line ::
  "(nat \<Rightarrow> ('c, 'm) world) \<Rightarrow> upstream_client \<Rightarrow> signing_state \<Rightarrow> confidential_config \<Rightarrow> (nat \<Rightarrow> request) \<Rightarrow>
   nat \<Rightarrow> response \<Rightarrow> log_line \<Rightarrow> bool" where
  "answered_line W c st cfg rq i resp l \<longleftrightarrow>
     (if rq_method (rq i) = ascii ''POST''
      then \<exists>t oc d. snd (exchange (W i) c st cfg (rq i)) = Ready t (resp, oc) \<and> t \<le> d
             \<and> l = log_outcome oc (rs_status resp) (millis d)
      else resp = bare 405 \<and> l = log_outcome (outcome_plaintext ClsMethodNotAllowed 0 0) 405 0)"

definition cancelled_line :: "log_line \<Rightarrow> bool" where
  "cancelled_line l \<longleftrightarrow> (\<exists>d. l = log_outcome (outcome_plaintext ClsCancelled 0 0) 0 (millis d))"

text \<open>A guard that is live at an \<open>.await\<close>.\<close>

definition guard_live :: "nat \<Rightarrow> outcome_guard \<Rightarrow> bool" where
  "guard_live now g \<longleftrightarrow> og_done g = None \<and> og_started g \<le> now"

lemma guard_live_drop: "guard_live now g \<Longrightarrow> cancelled_line (guard_drop g now)"
  by (auto simp: guard_live_def guard_drop_def cancelled_line_def)

text \<open>
  What a handler promises about a poll: it either stays suspended with a live guard and writes nothing, or it
  returns with one answer and one line that go together.
\<close>

locale call_handler =
  fixes poll :: "nat \<Rightarrow> nat \<Rightarrow> task \<Rightarrow> task \<times> response option \<times> log_line list"
    and fits :: "nat \<Rightarrow> response \<Rightarrow> log_line \<Rightarrow> bool"
  assumes poll_result: "task \<noteq> Returned \<Longrightarrow> (\<And>g. task = Suspended g \<Longrightarrow> guard_live now g) \<Longrightarrow>
    (\<exists>g. poll i now task = (Suspended g, None, []) \<and> guard_live now g) \<or>
    (\<exists>resp l. poll i now task = (Returned, Some resp, [l]) \<and> fits i resp l)"

text \<open>What is known of call \<open>i\<close> at any time, by whether it was answered and by its future.\<close>

definition call_inv :: "(nat \<Rightarrow> response \<Rightarrow> log_line \<Rightarrow> bool) \<Rightarrow> service \<Rightarrow> nat \<Rightarrow> bool" where
  "call_inv fits s i \<longleftrightarrow>
     (case map_of (sv_answers s) i of
        Some resp \<Rightarrow> i < sv_next s \<and> i \<in> sv_polled s \<and> sv_tasks s i \<in> {None, Some Returned} \<and>
          (\<exists>l. map_of (sv_log s) i = Some l \<and> fits i resp l)
      | None \<Rightarrow>
          (case sv_tasks s i of
             Some Unresumed \<Rightarrow> i < sv_next s \<and> i \<notin> sv_polled s \<and> map_of (sv_log s) i = None
           | Some (Suspended g) \<Rightarrow> i < sv_next s \<and> i \<in> sv_polled s \<and> map_of (sv_log s) i = None \<and> guard_live (sv_now s) g
           | Some Returned \<Rightarrow> False
           | None \<Rightarrow> if i \<in> sv_polled s then i < sv_next s \<and> (\<exists>l. map_of (sv_log s) i = Some l \<and> cancelled_line l)
                     else map_of (sv_log s) i = None))"

definition service_inv :: "(nat \<Rightarrow> response \<Rightarrow> log_line \<Rightarrow> bool) \<Rightarrow> service \<Rightarrow> bool" where
  "service_inv fits s \<longleftrightarrow>
     distinct (map fst (sv_log s)) \<and> distinct (map fst (sv_answers s)) \<and> (\<forall>i. call_inv fits s i)"

lemma map_of_snoc: "map_of xs i = None \<Longrightarrow> map_of (xs @ [(i, l)]) = (map_of xs)(i \<mapsto> l)"
  by (auto simp: fun_eq_iff map_add_def split: option.split)

lemma distinct_snoc: "distinct (map fst xs) \<Longrightarrow> map_of xs i = None \<Longrightarrow> distinct (map fst (xs @ [(i, l)]))"
  by (simp add: map_of_eq_None_iff)

text \<open>A step on call \<open>i\<close> leaves the others alone.\<close>

lemma call_inv_other:
  assumes "call_inv fits s j" and "j \<noteq> i"
    and "sv_tasks t j = sv_tasks s j" and "j \<in> sv_polled t \<longleftrightarrow> j \<in> sv_polled s"
    and "map_of (sv_log t) j = map_of (sv_log s) j" and "map_of (sv_answers t) j = map_of (sv_answers s) j"
    and "sv_next s \<le> sv_next t" and "sv_now s \<le> sv_now t"
  shows "call_inv fits t j"
  using assms by (auto simp: call_inv_def guard_live_def split: option.splits task.splits if_splits)

lemma live_call:
  assumes "call_inv fits s i" and "sv_tasks s i = Some task" and "task \<noteq> Returned"
  shows "map_of (sv_answers s) i = None" and "map_of (sv_log s) i = None" and "i < sv_next s"
    and "task = Suspended g \<Longrightarrow> guard_live (sv_now s) g" and "task = Unresumed \<longleftrightarrow> i \<notin> sv_polled s"
  using assms by (auto simp: call_inv_def split: option.splits task.splits)

lemma new_call: "call_inv fits s (sv_next s) \<Longrightarrow> sv_tasks s (sv_next s) = None \<and> sv_next s \<notin> sv_polled s
    \<and> map_of (sv_log s) (sv_next s) = None \<and> map_of (sv_answers s) (sv_next s) = None"
  by (auto simp: call_inv_def split: option.splits task.splits if_splits)

lemmas service_updates = write_lines_def give_answer_def

context call_handler
begin

lemma step_keeps_inv:
  assumes inv: "service_inv fits s" and step: "service_step poll s t"
  shows "service_inv fits t"
proof -
  have calls: "call_inv fits s j" for j using inv by (simp add: service_inv_def)
  have dist: "distinct (map fst (sv_log s))" "distinct (map fst (sv_answers s))" using inv by (simp_all add: service_inv_def)
  show ?thesis
    using step
  proof cases
    case (tick now)
    then have "call_inv fits t j" for j by (intro call_inv_other[OF calls, where i = "Suc j"]) simp_all
    then show ?thesis using dist tick by (simp add: service_inv_def)
  next
    case arrive
    have "call_inv fits t j" for j
    proof (cases "j = sv_next s")
      case True
      then show ?thesis using new_call[OF calls] arrive by (simp add: call_inv_def)
    qed (use arrive in \<open>intro call_inv_other[OF calls, where i = "sv_next s"]; simp\<close>)
    then show ?thesis using dist arrive by (simp add: service_inv_def)
  next
    case (polled i task task' r ls)
    note live = live_call[OF calls polled(2,3)]
    consider (wait) g where "task' = Suspended g" "r = None" "ls = []" "guard_live (sv_now s) g"
      | (finish) resp l where "task' = Returned" "r = Some resp" "ls = [l]" "fits i resp l"
      using poll_result[of task "sv_now s" i] polled(3,4) live(4) by fastforce
    then show ?thesis
    proof cases
      case wait
      have "call_inv fits t j" for j
      proof (cases "j = i")
        case True
        then show ?thesis using polled(1) live wait by (simp add: call_inv_def service_updates)
      qed (use polled(1) wait in \<open>intro call_inv_other[OF calls, where i = i]; simp add: service_updates\<close>)
      then show ?thesis using dist polled(1) wait by (simp add: service_inv_def service_updates)
    next
      case finish
      have "call_inv fits t j" for j
      proof (cases "j = i")
        case True
        then show ?thesis using polled(1) live finish
          by (simp add: call_inv_def service_updates map_of_snoc del: map_of_append)
      qed (use polled(1) finish live in \<open>intro call_inv_other[OF calls, where i = i];
          simp add: service_updates map_of_snoc del: map_of_append\<close>)
      then show ?thesis using polled(1) finish distinct_snoc[OF dist(1) live(2)] distinct_snoc[OF dist(2) live(1)]
        by (simp add: service_inv_def service_updates)
    qed
  next
    case (dropped i task)
    consider (over) "task = Returned" | (quiet) "task = Unresumed" | (live) g where "task = Suspended g" by (cases task)
    then show ?thesis
    proof cases
      case over
      have "call_inv fits t j" for j
      proof (cases "j = i")
        case True
        then show ?thesis using calls[of i] dropped over
          by (auto simp: call_inv_def service_updates drop_task_def split: option.splits)
      qed (use dropped over in \<open>intro call_inv_other[OF calls, where i = i]; simp add: service_updates drop_task_def\<close>)
      then show ?thesis using dist dropped over by (simp add: service_inv_def service_updates drop_task_def)
    next
      case quiet
      have "call_inv fits t j" for j
      proof (cases "j = i")
        case True
        then show ?thesis using live_call[OF calls dropped(2)] dropped(1) quiet
          by (simp add: call_inv_def service_updates drop_task_def)
      qed (use dropped quiet in \<open>intro call_inv_other[OF calls, where i = i]; simp add: service_updates drop_task_def\<close>)
      then show ?thesis using dist dropped quiet by (simp add: service_inv_def service_updates drop_task_def)
    next
      case (live g)
      note call = live_call[OF calls dropped(2)]
      have "call_inv fits t j" for j
      proof (cases "j = i")
        case True
        then show ?thesis using call guard_live_drop dropped(1) live
          by (auto simp: call_inv_def service_updates drop_task_def map_of_snoc simp del: map_of_append)
      qed (use dropped(1) live call in \<open>intro call_inv_other[OF calls, where i = i];
          simp add: service_updates drop_task_def map_of_snoc del: map_of_append\<close>)
      then show ?thesis using dist dropped(1) live distinct_snoc[OF dist(1) call(2)]
        by (simp add: service_inv_def service_updates drop_task_def)
    qed
  qed
qed

end

section \<open>The ledger\<close>

text \<open>
  What the endpoint promises, call by call, without futures and guards: a call that has arrived waits to be
  started or is abandoned; a started one runs until it is answered, with the line that belongs to that
  answer, or cancelled, with the line of a cancelled call.  Nothing leaves the last three states.
\<close>

datatype call_state = Unseen | Waiting | Running | Answered response log_line | Cancelled log_line | Abandoned

inductive ledger_step ::
  "(nat \<Rightarrow> response \<Rightarrow> log_line \<Rightarrow> bool) \<Rightarrow> (nat \<Rightarrow> call_state) \<Rightarrow> (nat \<Rightarrow> call_state) \<Rightarrow> bool" for fits where
  arrives: "a i = Unseen \<Longrightarrow> ledger_step fits a (a(i := Waiting))"
| starts: "a i = Waiting \<Longrightarrow> ledger_step fits a (a(i := Running))"
| answers: "a i = Running \<Longrightarrow> fits i resp l \<Longrightarrow> ledger_step fits a (a(i := Answered resp l))"
| cancels: "a i = Running \<Longrightarrow> cancelled_line l \<Longrightarrow> ledger_step fits a (a(i := Cancelled l))"
| abandons: "a i = Waiting \<Longrightarrow> ledger_step fits a (a(i := Abandoned))"

inductive_cases ledger_stepE: "ledger_step fits a b"

text \<open>The entry of a call, read off the answers, the futures and the log.\<close>

definition ledger :: "service \<Rightarrow> nat \<Rightarrow> call_state" where
  "ledger s i =
     (case map_of (sv_answers s) i of
        Some resp \<Rightarrow> Answered resp (the (map_of (sv_log s) i))
      | None \<Rightarrow>
          (case sv_tasks s i of
             Some Unresumed \<Rightarrow> Waiting
           | Some (Suspended g) \<Rightarrow> Running
           | Some Returned \<Rightarrow> Running
           | None \<Rightarrow> if sv_next s \<le> i then Unseen
                     else (case map_of (sv_log s) i of Some l \<Rightarrow> Cancelled l | None \<Rightarrow> Abandoned)))"

lemma ledger_entry:
  assumes "call_inv fits s i"
  shows "sv_next s \<le> i \<Longrightarrow> ledger s i = Unseen"
    and "sv_tasks s i = Some Unresumed \<Longrightarrow> ledger s i = Waiting"
    and "sv_tasks s i = Some (Suspended g) \<Longrightarrow> ledger s i = Running"
  using assms by (auto simp: ledger_def call_inv_def split: option.splits task.splits if_splits)

text \<open>A started call is running in the ledger, one step later if it was just started.\<close>

lemma ledger_started:
  assumes "call_inv fits s i" and "sv_tasks s i = Some task" and "task \<noteq> Returned"
  shows "(ledger_step fits)\<^sup>*\<^sup>* (ledger s) ((ledger s)(i := Running))"
proof (cases task)
  case Unresumed
  then have "ledger_step fits (ledger s) ((ledger s)(i := Running))"
    using ledger_entry(2)[OF assms(1)] assms(2) by (intro starts) simp
    then show ?thesis by blast
next
  case (Suspended g)
  then have "(ledger s)(i := Running) = ledger s" using ledger_entry(3)[OF assms(1)] assms(2) by auto
  then show ?thesis by simp
qed (use assms(3) in simp)

lemma ledger_update:
  assumes "ledger t i = x"
    and "\<And>j. j \<noteq> i \<Longrightarrow> sv_tasks t j = sv_tasks s j \<and> map_of (sv_log t) j = map_of (sv_log s) j
      \<and> map_of (sv_answers t) j = map_of (sv_answers s) j \<and> (sv_next t \<le> j \<longleftrightarrow> sv_next s \<le> j)"
  shows "ledger t = (ledger s)(i := x)"
proof
  show "ledger t j = ((ledger s)(i := x)) j" for j
    using assms(1) assms(2)[of j] by (cases "j = i") (simp_all add: ledger_def split: option.split task.split)
qed

context call_handler
begin

lemma step_simulates:
  assumes inv: "service_inv fits s" and step: "service_step poll s t"
  shows "(ledger_step fits)\<^sup>*\<^sup>* (ledger s) (ledger t)"
proof -
  have calls: "call_inv fits s j" for j using inv by (simp add: service_inv_def)
  show ?thesis
    using step
  proof cases
    case (tick now)
    then have "ledger t = ledger s" by (simp add: ledger_def fun_eq_iff split: option.split task.split)
    then show ?thesis by simp
  next
    case arrive
    then have "ledger t = (ledger s)(sv_next s := Waiting)"
      using new_call[OF calls] by (intro ledger_update) (auto simp: ledger_def)
    moreover have "ledger_step fits (ledger s) ((ledger s)(sv_next s := Waiting))"
      using ledger_entry(1)[OF calls] by (intro arrives) simp
    ultimately show ?thesis by auto
  next
    case (polled i task task' r ls)
    note live = live_call[OF calls polled(2,3)]
    note started = ledger_started[OF calls polled(2,3)]
    consider (wait) g where "task' = Suspended g" "r = None" "ls = []"
      | (finish) resp l where "task' = Returned" "r = Some resp" "ls = [l]" "fits i resp l"
      using poll_result[of task "sv_now s" i] polled(3,4) live(4) by fastforce
    then show ?thesis
    proof cases
      case wait
      then have "ledger t = (ledger s)(i := Running)"
        using polled(1) live(1) by (intro ledger_update) (simp_all add: ledger_def service_updates)
      then show ?thesis using started by simp
    next
      case finish
      have "ledger t = (ledger s)(i := Answered resp l)"
        using polled(1) live(1,2) finish
        by (intro ledger_update) (simp_all add: ledger_def service_updates map_of_snoc del: map_of_append)
      moreover have "ledger_step fits ((ledger s)(i := Running)) (((ledger s)(i := Running))(i := Answered resp l))"
        by (rule answers) (simp_all add: finish(4))
      ultimately show ?thesis using started by (simp add: rtranclp.rtrancl_into_rtrancl)
    qed
  next
    case (dropped i task)
    show ?thesis
    proof (cases task)
      case Unresumed
      note call = live_call[OF calls dropped(2)]
      have "ledger t = (ledger s)(i := Abandoned)"
        using dropped call Unresumed by (intro ledger_update) (simp_all add: ledger_def service_updates drop_task_def)
      moreover have "ledger_step fits (ledger s) ((ledger s)(i := Abandoned))"
        using ledger_entry(2)[OF calls] dropped(2) Unresumed by (intro abandons) simp
      ultimately show ?thesis by auto
    next
      case (Suspended g)
      note call = live_call[OF calls dropped(2)]
      let ?l = "guard_drop g (sv_now s)"
      have "ledger t = (ledger s)(i := Cancelled ?l)"
        using dropped(1) call Suspended
        by (intro ledger_update) (simp_all add: ledger_def service_updates drop_task_def map_of_snoc del: map_of_append)
      moreover have "ledger_step fits (ledger s) ((ledger s)(i := Cancelled ?l))"
        using ledger_entry(3)[OF calls] dropped(2) Suspended call(4) guard_live_drop by (intro cancels) simp_all
      ultimately show ?thesis by auto
    next
      case Returned
      have "ledger t = (ledger s)(i := ledger s i)"
        using dropped calls[of i] Returned
        by (intro ledger_update) (auto simp: ledger_def service_updates drop_task_def call_inv_def split: option.splits)
      then show ?thesis by simp
    qed
  qed
qed

end

section \<open>The handlers of \<open>/confidential\<close>\<close>

lemma snd_io_map: "snd (io_map g m) = fut_map g (snd m)"
  by (cases m; cases "snd m") (simp_all add: io_map_def io_ret_def)

lemma resume_result:
  assumes poll: "poll = resume (\<lambda>started. confidential_exchange W c st cfg started req) now g"
  shows "poll = (Suspended g, None, []) \<or>
    (\<exists>resp l. poll = (Returned, Some resp, [l]) \<and>
       (\<exists>t oc d. snd (exchange W c st cfg req) = Ready t (resp, oc) \<and> t \<le> d \<and> l = log_outcome oc (rs_status resp) (millis d)))"
proof (cases "snd (exchange W c st cfg req)")
  case Never
  then show ?thesis by (simp add: poll resume_def confidential_exchange_def snd_io_map)
next
  case (Ready t x)
  obtain resp oc where x: "x = (resp, oc)" by (cases x)
  show ?thesis
  proof (cases "og_started g + t \<le> now")
    case True
    have "poll = (Returned, Some resp, [log_outcome oc (rs_status resp) (millis (now - og_started g))])"
      using Ready x True by (simp add: poll resume_def confidential_exchange_def snd_io_map guard_drop_def)
    moreover have "t \<le> now - og_started g" using True by simp
    ultimately show ?thesis using Ready x by blast
  qed (use Ready x in \<open>simp add: poll resume_def confidential_exchange_def snd_io_map\<close>)
qed

interpretation confidential: call_handler "poll_call W c st cfg rq" "answered_line W c st cfg rq" for W c st cfg rq
proof
  fix task now i
  assume live: "task \<noteq> Returned" "\<And>g. task = Suspended g \<Longrightarrow> guard_live now g"
  let ?wait = "\<exists>g. poll_call W c st cfg rq i now task = (Suspended g, None, []) \<and> guard_live now g"
  let ?finish = "\<exists>resp l. poll_call W c st cfg rq i now task = (Returned, Some resp, [l]) \<and> answered_line W c st cfg rq i resp l"
  show "?wait \<or> ?finish"
  proof (cases "rq_method (rq i) = ascii ''POST''")
    case True
    define g where "g = (case task of Suspended g \<Rightarrow> g | _ \<Rightarrow> \<lparr>og_started = now, og_done = None\<rparr>)"
    have g: "guard_live now g" using live by (cases task) (simp_all add: g_def guard_live_def)
    have "poll_call W c st cfg rq i now task = resume (\<lambda>started. confidential_exchange (W i) c st cfg started (rq i)) now g"
      using live(1) True by (cases task) (simp_all add: poll_call_def poll_exchange_def g_def)
    then show ?thesis
      using resume_result[OF refl, of "W i" c st cfg "rq i" now g] g True by (auto simp: answered_line_def)
  next
    case False
    then show ?thesis using live
      by (cases task)
        (simp_all add: poll_call_def poll_refusal_def answered_line_def confidential_method_not_allowed_def)
  qed
qed

interpretation calls: simulation "service_step (poll_call W c st cfg rq)" service_start
  "service_inv (answered_line W c st cfg rq)" "ledger_step (answered_line W c st cfg rq)" ledger for W c st cfg rq
proof
  show "service_inv (answered_line W c st cfg rq) service_start"
    by (simp add: service_start_def service_inv_def call_inv_def)
qed (rule confidential.step_keeps_inv confidential.step_simulates; assumption)+

section \<open>Properties\<close>

text \<open>
  C13: One answer, one line, and they agree.  However the futures of the calls are polled and dropped, no
  call is answered twice or logged twice.  A call that was answered has exactly one line, and it is the one of
  that answer: the outcome of the call's own exchange, the status returned and a total time not below the time
  the exchange took, or the fixed line of a refused method.  A call that was started and dropped without an answer
  has exactly one line, of a cancelled call.  Every handler that has returned has answered, and nothing else is
  logged: a call still in flight, or dropped before it was ever polled, has no line.
\<close>
theorem one_line_per_call:
  assumes "(service_step (poll_call W c st cfg rq))\<^sup>*\<^sup>* service_start s"
  shows "distinct (map fst (sv_log s)) \<and> distinct (map fst (sv_answers s))
    \<and> ((i, resp) \<in> set (sv_answers s) \<longrightarrow> (\<exists>l. (i, l) \<in> set (sv_log s) \<and> answered_line W c st cfg rq i resp l))
    \<and> (i \<in> sv_polled s \<and> sv_tasks s i = None \<and> i \<notin> fst ` set (sv_answers s) \<longrightarrow>
         (\<exists>l. (i, l) \<in> set (sv_log s) \<and> cancelled_line l))
    \<and> (sv_tasks s i = Some Returned \<longrightarrow> i \<in> fst ` set (sv_answers s))
    \<and> ((i, l) \<in> set (sv_log s) \<longrightarrow> i \<in> fst ` set (sv_answers s) \<or> i \<in> sv_polled s \<and> sv_tasks s i = None)"
proof -
  have inv: "distinct (map fst (sv_log s))" "distinct (map fst (sv_answers s))"
    "call_inv (answered_line W c st cfg rq) s i"
    using calls.run_inv[OF assms] by (simp_all add: service_inv_def)
  have mem: "(i, l) \<in> set (sv_log s) \<longleftrightarrow> map_of (sv_log s) i = Some l"
    "(i, resp) \<in> set (sv_answers s) \<longleftrightarrow> map_of (sv_answers s) i = Some resp"
    "i \<in> fst ` set (sv_answers s) \<longleftrightarrow> map_of (sv_answers s) i \<noteq> None" for l resp
    using inv(1,2) by (simp_all add: map_of_eq_None_iff)
  show ?thesis
    using inv unfolding mem
    by (auto simp: call_inv_def simp del: map_of_eq_Some_iff split: option.splits task.splits if_splits)
qed


section \<open>A run\<close>

text \<open>
  Two calls over the size cap: the first is polled once, and again nine nanoseconds later, when it answers;
  the second is polled and dropped.
\<close>

definition demo_calls :: "nat \<Rightarrow> request" where
  "demo_calls i = demo_post\<lparr>rq_method := ascii ''POST''\<rparr>"

definition demo_limits :: confidential_config where
  "demo_limits = demo_config\<lparr>max_request_bytes := 1\<rparr>"

abbreviation demo_poll :: "nat \<Rightarrow> nat \<Rightarrow> task \<Rightarrow> task \<times> response option \<times> log_line list" where
  "demo_poll \<equiv> poll_call (\<lambda>i. demo_world) demo_client demo_state demo_limits demo_calls"

definition demo_line :: log_line where
  "demo_line = log_outcome (outcome_plaintext ClsRequestTooLarge 0 0) 413 (millis 9)"

definition demo_cancel :: log_line where
  "demo_cancel = log_outcome (outcome_plaintext ClsCancelled 0 0) 0 (millis 0)"

lemma demo_too_large:
  "snd (exchange demo_world demo_client demo_state demo_limits (demo_calls i)) =
     Ready 1 (bare 413, outcome_plaintext ClsRequestTooLarge 0 0)"
  using demo_post_body(2)
  by (simp add: exchange_eq io_fut_def io_ret_def demo_calls_def demo_post_def read_failure_def demo_limits_def)

lemma demo_polls:
  "demo_poll i now Unresumed = (Suspended \<lparr>og_started = now, og_done = None\<rparr>, None, [])"
  "demo_poll i 9 (Suspended \<lparr>og_started = 0, og_done = None\<rparr>) = (Returned, Some (bare 413), [demo_line])"
proof -
  have "rq_method (demo_calls i) = ascii ''POST''" by (simp add: demo_calls_def)
  then show "demo_poll i now Unresumed = (Suspended \<lparr>og_started = now, og_done = None\<rparr>, None, [])"
    "demo_poll i 9 (Suspended \<lparr>og_started = 0, og_done = None\<rparr>) = (Returned, Some (bare 413), [demo_line])"
    by (simp_all add: poll_call_def poll_exchange_def resume_def confidential_exchange_def snd_io_map demo_too_large
        guard_drop_def demo_line_def) (simp add: bare_def)
qed

definition demo_service :: service where
  "demo_service = \<lparr>sv_now = 9, sv_next = 2, sv_tasks = Map.empty(0 \<mapsto> Returned), sv_polled = {0, 1},
     sv_log = [(0, demo_line), (1, demo_cancel)], sv_answers = [(0, bare 413)]\<rparr>"

lemma demo_run: "(service_step demo_poll)\<^sup>*\<^sup>* service_start demo_service"
proof -
  let ?g0 = "\<lparr>og_started = 0, og_done = None\<rparr>" and ?g9 = "\<lparr>og_started = 9, og_done = None\<rparr>"
  let ?a = "service_start\<lparr>sv_next := 1, sv_tasks := [0 \<mapsto> Unresumed]\<rparr>"
  let ?b = "service_start\<lparr>sv_next := 1, sv_tasks := [0 \<mapsto> Suspended ?g0], sv_polled := {0}\<rparr>"
  let ?c = "?b\<lparr>sv_now := 9\<rparr>"
  let ?d = "?c\<lparr>sv_tasks := [0 \<mapsto> Returned], sv_log := [(0, demo_line)], sv_answers := [(0, bare 413)]\<rparr>"
  let ?e = "?d\<lparr>sv_next := 2, sv_tasks := [0 \<mapsto> Returned, 1 \<mapsto> Unresumed]\<rparr>"
  let ?f = "?d\<lparr>sv_next := 2, sv_tasks := [0 \<mapsto> Returned, 1 \<mapsto> Suspended ?g9], sv_polled := {0, 1}\<rparr>"
  have 1: "service_step demo_poll service_start ?a"
    using service_step.arrive[of demo_poll service_start] by (simp add: service_start_def)
  have 2: "service_step demo_poll ?a ?b"
    using service_step.polled[of ?a 0 Unresumed demo_poll "Suspended ?g0" None "[]"] demo_polls(1)[of 0 0]
    by (simp add: service_start_def service_updates)
  have 3: "service_step demo_poll ?b ?c" by (rule service_step.tick) (simp add: service_start_def)
  have 4: "service_step demo_poll ?c ?d"
    using service_step.polled[of ?c 0 "Suspended ?g0" demo_poll Returned "Some (bare 413)" "[demo_line]"] demo_polls(2)
    by (simp add: service_start_def service_updates)
  have 5: "service_step demo_poll ?d ?e"
    using service_step.arrive[of demo_poll ?d] by (simp add: service_start_def numeral_2_eq_2)
  have 6: "service_step demo_poll ?e ?f"
    using service_step.polled[of ?e 1 Unresumed demo_poll "Suspended ?g9" None "[]"] demo_polls(1)[of 1 9]
    by (simp add: service_start_def service_updates insert_commute)
  have cancel: "write_lines 1 (drop_task (sv_now ?f) (Suspended ?g9)) (?f\<lparr>sv_tasks := (sv_tasks ?f)(1 := None)\<rparr>) = demo_service"
    by (simp add: service_start_def service_updates drop_task_def guard_drop_def demo_cancel_def demo_service_def fun_eq_iff)
  have 7: "service_step demo_poll ?f demo_service"
    by (rule service_step.dropped[of ?f 1 "Suspended ?g9" demo_poll, unfolded cancel]) simp
  show ?thesis
    using 1 2 3 4 5 6 7 by (meson converse_rtranclp_into_rtranclp rtranclp.rtrancl_refl)
qed

theorem one_line_per_call_witness:
  "answered_line (\<lambda>i. demo_world) demo_client demo_state demo_limits demo_calls 0 (bare 413) demo_line
   \<and> cancelled_line demo_cancel"
  using one_line_per_call[OF demo_run, of 0 "bare 413"] one_line_per_call[OF demo_run, of 1]
  by (auto simp: demo_service_def)


end
