(* ===== verification/Contract.thy ===== *)
theory Contract
  imports Exchange
begin

text \<open>
  The contract of \<open>POST /confidential\<close> in terms a client and an operator understand: what the node said,
  whether it said it in time and within the cap, and what the client therefore reads.  No BHTTP message,
  buffer or envelope occurs in it; the detailed definitions are shown to implement it.
\<close>

section \<open>What the node says\<close>

text \<open>An answer as it is read: the status, the fields and the content of a message.\<close>

type_synonym answer = "nat option \<times> (bytes \<times> bytes) list \<times> bytes"

definition view :: "'m bhttp \<Rightarrow> 'm \<Rightarrow> answer" where
  "view B m = (bh_status B m, bh_fields B m, bh_content B m)"

text \<open>The content of a body, unless it breaks or grows beyond the cap, after the time it takes to tell.\<close>

fun body_read :: "nat \<Rightarrow> nat \<Rightarrow> body \<Rightarrow> (unit + bytes) fut" where
  "body_read cap n (Eof d) = Ready d (Inr [])"
| "body_read cap n Stalled = Never"
| "body_read cap n (Next d Broken b) = Ready d (Inl ())"
| "body_read cap n (Next d (Trailers hs) b) = await (Ready d ()) (\<lambda>_. body_read cap n b)"
| "body_read cap n (Next d (Data x) b) =
     (if cap < n + length x then Ready d (Inl ())
      else await (Ready d ()) (\<lambda>_. map_fut (map_sum (\<lambda>e. e) (append x)) (body_read cap (n + length x) b)))"

definition node_says :: "runtime \<Rightarrow> nat \<Rightarrow> up_request \<Rightarrow> (inner_error + answer) fut" where
  "node_says R cap r =
     await (network R r) (\<lambda>x.
       case x of
         Inl _ \<Rightarrow> Ready 0 (Inl Upstream)
       | Inr up \<Rightarrow>
           if relayable cap up
           then map_fut (map_sum (\<lambda>_. Upstream) (\<lambda>d. (Some (ur_status up),
                    map (\<lambda>v. (ascii ''content-type'', v)) (get_all ''content-type'' (ur_headers up)), d)))
                  (body_read cap 0 (ur_body up))
           else Ready 0 (Inl Upstream))"

section \<open>What the client reads\<close>

definition problem :: "inner_error \<Rightarrow> answer" where
  "problem e = (Some (error_status e), [(ascii ''content-type'', ascii ''application/problem+json'')], ascii (error_body e))"

definition in_time :: "nat \<Rightarrow> (inner_error + 'a) fut \<Rightarrow> inner_error + 'a" where
  "in_time d f = (case f of Ready t x \<Rightarrow> if t < d then x else Inl UpstreamTimeout | Never \<Rightarrow> Inl UpstreamTimeout)"

definition confidential_spec ::
  "('c, 'm) world \<Rightarrow> upstream_client \<Rightarrow> confidential_config \<Rightarrow> bytes \<Rightarrow> inner_error + answer" where
  "confidential_spec W c cfg pt =
     try_bind (decode_inner (w_http W) (w_bhttp W) pt) (\<lambda>inner.
       if max_batch_size cfg < batch_size (w_json W) (ir_body inner) then Inl BatchTooLarge
       else try_bind (inner_up_request (w_http W) c inner) (\<lambda>r.
         in_time (upstream_timeout cfg) (node_says (w_runtime W) (max_response_bytes cfg) r)))"

text \<open>Whether an answer leaves the node at the very instant of the deadline, which \<open>tokio\<close> may decide either way.\<close>

definition on_deadline :: "('c, 'm) world \<Rightarrow> upstream_client \<Rightarrow> confidential_config \<Rightarrow> bytes \<Rightarrow> bool" where
  "on_deadline W c cfg pt \<longleftrightarrow>
     (\<exists>inner r x. decode_inner (w_http W) (w_bhttp W) pt = Inr inner \<and> inner_up_request (w_http W) c inner = Inr r \<and>
        node_says (w_runtime W) (max_response_bytes cfg) r = Ready (upstream_timeout cfg) x)"

text \<open>\<open>bhttp\<close> represents every final status.\<close>

definition final_codes :: "'m bhttp \<Rightarrow> bool" where
  "final_codes B \<longleftrightarrow> (\<forall>s. 200 \<le> s \<longrightarrow> s \<le> 599 \<longrightarrow> bh_status_code B s = Some s)"

section \<open>The upstream leg implements it\<close>

lemma map_fut_await: "map_fut h (await f g) = await f (\<lambda>x. map_fut h (g x))"
  by (cases f) (auto split: fut.splits)

lemma read_frames_refines:
  assumes "bhttp_builder B" and "cap < usize_max" and "n \<le> cap"
  shows "map_fut (map_sum (\<lambda>e. e) (view B)) (read_frames B cap n msg b) =
     map_fut (map_sum (\<lambda>_. Upstream) (\<lambda>d. (bh_status B msg, bh_fields B msg, bh_content B msg @ d))) (body_read cap n b)"
  using assms(2,3)
proof (induction cap n b arbitrary: msg rule: body_read.induct)
  case (5 cap n d x b)
  have sat: "\<not> cap < n + length x \<Longrightarrow> saturating_add n (length x) = n + length x"
    "cap < saturating_add n (length x) \<longleftrightarrow> cap < n + length x"
    using 5(2) by (auto simp: saturating_add_def)
  have wr: "bh_status B (bh_write_content B msg x) = bh_status B msg" "bh_fields B (bh_write_content B msg x) = bh_fields B msg"
    "bh_content B (bh_write_content B msg x) = bh_content B msg @ x"
    using assms(1) by (simp_all add: bhttp_builder_def)
  show ?case
  proof (cases "cap < n + length x")
    case False
    then have "map_fut (map_sum (\<lambda>e. e) (view B)) (read_frames B cap (n + length x) (bh_write_content B msg x) b) =
        map_fut (map_sum (\<lambda>_. Upstream) (\<lambda>d. (bh_status B msg, bh_fields B msg, bh_content B msg @ d)))
          (map_fut (map_sum (\<lambda>e. e) (append x)) (body_read cap (n + length x) b))"
      using 5(1)[of "bh_write_content B msg x"] 5(2) by (simp add: wr fut.map_comp sum.map_comp comp_def)
    then show ?thesis using False sat by (simp add: Let_def map_fut_await del: await.simps)
  qed (simp add: sat Let_def)
next
  case (4 cap n d hs b)
  then show ?case by (simp only: read_frames.simps body_read.simps map_fut_await)
qed (simp_all add: view_def)

lemma snd_bind: "snd (io_bind m f) = await (snd m) (\<lambda>x. snd (f x))"
  by (cases "(m, f)" rule: io_bind.cases) auto

lemma snd_map: "snd (io_map g m) = map_fut g (snd m)"
  by (cases "snd m") (simp_all add: io_map_def snd_bind io_ret_def)

lemma snd_leaf: "snd (io_ret x) = Ready 0 x" "snd (io_fut f) = f"
  by (simp_all add: io_ret_def io_fut_def)

lemmas snd_io = snd_bind snd_map snd_leaf

lemma try_bind_pair: "(\<lambda>r. try_bind r (\<lambda>m. Inr (f m))) = map_sum (\<lambda>e. e) f"
proof
  show "try_bind r (\<lambda>m. Inr (f m)) = map_sum (\<lambda>e. e) f r" for r by (cases r) simp_all
qed

lemma read_upstream_fut:
  "snd (read_upstream B R cap r) =
     await (network R r) (\<lambda>x.
       case x of
         Inl _ \<Rightarrow> Ready 0 (Inl Upstream)
       | Inr up \<Rightarrow>
           if \<not> relayable cap up then Ready 0 (Inl Upstream)
           else
             (case bh_status_code B (ur_status up) of
                None \<Rightarrow> Ready 0 (Inl Internal)
              | Some code \<Rightarrow>
                  map_fut (map_sum (\<lambda>e. e) (\<lambda>m. (ur_status up, m)))
                    (read_frames B cap 0
                      (foldl (\<lambda>m v. bh_put_header B m (ascii ''content-type'') v) (bh_response B code)
                        (get_all ''content-type'' (ur_headers up))) (ur_body up))))"
proof -
  have rel: "(\<not> (200 \<le> ur_status up \<and> ur_status up \<le> 599) \<or>
      list_ex (\<lambda>v. \<not> eq_ignore_ascii_case v (ascii ''identity'')) (get_all ''content-encoding'' (ur_headers up)) \<or>
      cap < ur_size_lower up) = (\<not> relayable cap up)" for up :: up_response
    by (auto simp: relayable_def list_ex_iff list_all_iff)
  show ?thesis
    unfolding read_upstream_def client_send_def io_try_def Let_def rel snd_io
    by (cases "network R r") (auto simp: snd_io try_bind_pair split: sum.split option.split)
qed

lemma read_upstream_refines:
  assumes "bhttp_builder B" and "cap < usize_max" and "final_codes B"
  shows "map_fut (map_sum (\<lambda>e. e) (\<lambda>(s, m). (s, view B m))) (snd (read_upstream B R cap r)) =
     map_fut (map_sum (\<lambda>e. e) (\<lambda>a. (the (fst a), a))) (node_says R cap r)"
proof -
  have code: "bh_status_code B (ur_status up) = Some (ur_status up)" if "relayable cap up" for up
    using that assms(3) by (simp add: relayable_def final_codes_def)
  have new: "bh_status B (bh_response B s) = Some s" "bh_fields B (bh_response B s) = []" "bh_content B (bh_response B s) = []" for s
    using assms(1) by (simp_all add: bhttp_builder_def)
  have relay: "map_fut (map_sum (\<lambda>e. e) (\<lambda>x. (ur_status up, view B x))) (read_frames B cap 0
      (foldl (\<lambda>m v. bh_put_header B m (ascii ''content-type'') v) (bh_response B (ur_status up))
        (get_all ''content-type'' (ur_headers up))) (ur_body up)) =
    map_fut (map_sum (\<lambda>_. Upstream) (\<lambda>d. (ur_status up, Some (ur_status up),
      map (\<lambda>v. (ascii ''content-type'', v)) (get_all ''content-type'' (ur_headers up)), d))) (body_read cap 0 (ur_body up))"
    (is "map_fut _ ?f = _") for up
  proof -
    have "map_fut (map_sum (\<lambda>e. e) (\<lambda>x. (ur_status up, view B x))) ?f =
        map_fut (map_sum (\<lambda>e. e) (Pair (ur_status up))) (map_fut (map_sum (\<lambda>e. e) (view B)) ?f)"
      by (simp add: fut.map_comp sum.map_comp comp_def)
    then show ?thesis
      by (simp add: read_frames_refines[OF assms(1,2)] put_headers[OF assms(1)] new fut.map_comp sum.map_comp comp_def)
  qed
  show ?thesis
    unfolding read_upstream_fut node_says_def map_fut_await
    by (intro arg_cong[where f = "await (network R r)"] ext)
       (simp add: code relay fut.map_comp sum.map_comp comp_def split: sum.split)
qed

text \<open>Two futures with the same view are ready at the same time.\<close>

lemma timeout_in_time:
  assumes "timeout_spec T" and "map_fut h f = map_fut k g" and "\<nexists>x. g = Ready d x"
    and "snd (io_map (\<lambda>x. case x of Some y \<Rightarrow> y | None \<Rightarrow> Inl UpstreamTimeout) (es, timeout T d f)) = Ready t x"
    and "h (Inl UpstreamTimeout) = k (Inl UpstreamTimeout)"
  shows "h x = k (in_time d g)"
proof (cases f)
  case Never
  then have "g = Never" using assms(2) by (cases g) simp_all
  then show ?thesis using assms(1,4,5) Never by (simp add: snd_io timeout_spec_def in_time_def)
next
  case (Ready s y)
  obtain z where g: "g = Ready s z" "h y = k z" using assms(2) Ready by (cases g) auto
  then have "s \<noteq> d" using assms(3) by blast
  then consider "s < d" | "d < s" by linarith
  then show ?thesis
    using assms(1,4,5) Ready g by cases (auto simp: snd_io timeout_spec_def in_time_def)
qed

lemma run_inner_refines:
  assumes laws: "timeout_spec (w_tokio W)" "bhttp_builder (w_bhttp W)" "final_codes (w_bhttp W)"
    and cap: "max_response_bytes cfg < usize_max" and late: "\<not> on_deadline W c cfg pt"
    and call: "outcome (run_world W c cfg pt) = Some call"
  shows "map_sum (\<lambda>e. e) (\<lambda>(s, m). (s, view (w_bhttp W) m)) (ic_result call) =
    map_sum (\<lambda>e. e) (\<lambda>a. (the (fst a), a)) (confidential_spec W c cfg pt)"
proof (cases "decode_inner (w_http W) (w_bhttp W) pt")
  case (Inl e)
  then show ?thesis using run_inner_outcome[OF call] by (simp add: confidential_spec_def inner_call_failed_def)
next
  case (Inr inner)
  note out = run_inner_outcome[OF call, unfolded Inr sum.case]
  show ?thesis
  proof (cases "max_batch_size cfg < batch_size (w_json W) (ir_body inner)")
    case True
    then show ?thesis using out Inr by (simp add: confidential_spec_def inner_call_failed_def)
  next
    case False
    then obtain t where t: "snd (call_upstream (w_http W) (w_bhttp W) (w_runtime W) (w_tokio W) c cfg inner) = Ready t (ic_result call)"
      using out by auto
    show ?thesis
    proof (cases "inner_up_request (w_http W) c inner")
      case (Inl e)
      then have "ic_result call = Inl e" using t by (simp add: call_upstream_eq io_ret_def)
      then show ?thesis using Inl False Inr by (simp add: confidential_spec_def)
    next
      case up: (Inr r)
      have "\<nexists>x. node_says (w_runtime W) (max_response_bytes cfg) r = Ready (upstream_timeout cfg) x"
        using late Inr up unfolding on_deadline_def by blast
      then show ?thesis
        using timeout_in_time[OF laws(1) read_upstream_refines[OF laws(2) cap laws(3)], of "w_runtime W" r]
          t[unfolded call_upstream_eq up sum.case] False Inr up
        by (auto simp: confidential_spec_def)
    qed
  qed
qed

lemma node_says_status:
  assumes "node_says R cap r = Ready t (Inr a)"
  shows "\<exists>s. fst a = Some s"
proof -
  obtain t1 x where net: "network R r = Ready t1 x" using assms by (cases "network R r") (simp_all add: node_says_def)
  show ?thesis
  proof (cases x)
    case (Inr up)
    have "relayable cap up" using assms Inr by (simp add: node_says_def net split: if_split_asm)
    then show ?thesis
      using assms Inr by (cases "body_read cap 0 (ur_body up)") (auto simp: node_says_def net map_sum_Inr_iff)
  qed (use assms net in \<open>simp add: node_says_def\<close>)
qed

lemma spec_status:
  assumes "confidential_spec W c cfg pt = Inr a"
  shows "\<exists>s. fst a = Some s"
proof -
  obtain r where "in_time (upstream_timeout cfg) (node_says (w_runtime W) (max_response_bytes cfg) r) = Inr a"
    using assms by (auto simp: confidential_spec_def try_bind_Inr_iff split: if_splits)
  then show ?thesis by (auto simp: in_time_def split: fut.split_asm if_split_asm dest: node_says_status)
qed

lemma view_status [simp]: "fst (view B m) = bh_status B m"
  by (simp add: view_def)

lemma problem_status [simp]: "fst (problem e) = Some (error_status e)"
  by (simp add: problem_def)

lemma sees_view:
  assumes "client_sees B m result s" and "final_codes B" and "bhttp_builder B"
  shows "case result of
      Inl e \<Rightarrow> view B m = problem e \<and> se_inner_status s = error_status e
    | Inr (status, msg) \<Rightarrow> view B m = view B msg \<and> se_inner_status s = status"
proof -
  have "bh_status_code B (error_status e) = Some (error_status e)" for e
    using assms(2) error_status_range[of e] by (simp add: final_codes_def)
  then show ?thesis
    using assms(1) by (auto simp: client_sees_def view_def problem_def split: sum.split_asm)
qed

text \<open>What the client reads against what the contract says.\<close>

definition contract_met :: "('c, 'm) world \<Rightarrow> inner_error + answer \<Rightarrow> 'm \<Rightarrow> bool" where
  "contract_met W spec m \<longleftrightarrow>
     view (w_bhttp W) m = (case spec of Inl e \<Rightarrow> problem e | Inr a \<Rightarrow> a) \<or>
     view (w_bhttp W) m = problem Internal \<and>
       (\<exists>msg. spec = Inr (view (w_bhttp W) msg) \<and> encode_with_nonce (w_bhttp W) msg (the (w_rnd W)) = None)"

lemma sees_contract:
  assumes sees: "client_sees (w_bhttp W) m (sealed_result (w_bhttp W) (the (w_rnd W)) result) s"
    and laws: "final_codes (w_bhttp W)" "bhttp_builder (w_bhttp W)"
    and ref: "map_sum (\<lambda>e. e) (\<lambda>(s, m). (s, view (w_bhttp W) m)) result = map_sum (\<lambda>e. e) (\<lambda>a. (the (fst a), a)) spec"
    and spec_ok: "\<And>a. spec = Inr a \<Longrightarrow> \<exists>s. fst a = Some s"
  shows "contract_met W spec m \<and> bh_status (w_bhttp W) m = Some (se_inner_status s)"
proof -
  note v = sees_view[OF sees laws]
  show ?thesis
  proof (cases result)
    case (Inl e)
    then have "spec = Inl e" using ref by (cases "spec") auto
    moreover have p: "view (w_bhttp W) m = problem e" "se_inner_status s = error_status e"
      using v Inl by (simp_all add: sealed_result_def)
    ultimately show ?thesis using view_status[of "w_bhttp W" m] unfolding contract_met_def p by simp
  next
    case (Inr p)
    obtain k msg where p: "p = (k, msg)" by (cases p)
    obtain a where a: "spec = Inr a" "k = the (fst a)" "view (w_bhttp W) msg = a"
      using ref Inr p by (cases "spec") auto
    have k: "bh_status (w_bhttp W) msg = Some k"
      using spec_ok[OF a(1)] a(2,3) view_status[of "w_bhttp W" msg] by auto
    show ?thesis
    proof (cases "encode_with_nonce (w_bhttp W) msg (the (w_rnd W)) = None")
      case True
      then have q: "view (w_bhttp W) m = problem Internal" "se_inner_status s = error_status Internal"
        using v Inr p by (simp_all add: sealed_result_def)
      then show ?thesis using a True view_status[of "w_bhttp W" m] unfolding contract_met_def q by auto
    next
      case False
      then have q: "view (w_bhttp W) m = view (w_bhttp W) msg" "se_inner_status s = k"
        using v Inr p by (auto simp: sealed_result_def)
      then have "bh_status (w_bhttp W) m = Some k" using k view_status[of "w_bhttp W"] by metis
      then show ?thesis using a q by (simp add: contract_met_def)
    qed
  qed
qed

section \<open>Properties\<close>

text \<open>
  C4: The confidential endpoint implements its contract.  A client that encapsulates a plaintext to the
  sidecar's key and posts it within the size limit reads, after verifying and opening the answer, exactly
  what the contract says: the problem of a plaintext that does not decode or of a batch that is too
  large, the problem of a request that cannot be forwarded, status, content types and body of what the
  node said if it said it in time and within the cap, and otherwise the 502 or 504 problem; only an
  answer that BHTTP cannot encode becomes the 500 problem instead.  The outer status is the status
  read, with 200 for those that allow no body.
\<close>
theorem confidential_contract:
  assumes crates: "crates_ok W st" and inv: "signing_inv (w_hex W) (w_sig W) (w_hpke W) st"
    and enc: "answers_encodable W" and machine: "machine_ok W"
    and codes: "final_codes (w_bhttp W)" and cap: "max_response_bytes cfg < usize_max"
    and client: "client_seal (w_hpke W) rnd (to_montgomery (w_sig W) (pubkey_bytes (w_sig W) st)) pt = Some (q, cc)"
    and body: "body_data (rq_body req) = Some q" "length q \<le> max_request_bytes cfg"
    and late: "\<not> on_deadline W c cfg pt"
  shows "\<exists>resp oc m. outcome (exchange W c st cfg req) = Some (resp, oc)
    \<and> verify_signed_response (w_hex W) (w_sig W) (w_http W) (chain_id st) q resp = Inr ()
    \<and> client_inner_response (w_aead W) (w_bhttp W) cc (rs_body resp) = Some m
    \<and> (view (w_bhttp W) m = (case confidential_spec W c cfg pt of Inl e \<Rightarrow> problem e | Inr a \<Rightarrow> a)
       \<or> view (w_bhttp W) m = problem Internal \<and> (\<exists>msg. confidential_spec W c cfg pt = Inr (view (w_bhttp W) msg)
            \<and> encode_with_nonce (w_bhttp W) msg (the (w_rnd W)) = None))
    \<and> (\<exists>status. bh_status (w_bhttp W) m = Some status
         \<and> rs_status resp = (if status \<in> {204, 205, 304} then 200 else status))"
proof -
  have laws: "timeout_spec (w_tokio W)" "bhttp_builder (w_bhttp W)" using crates by (simp_all add: crates_ok_def)
  obtain resp oc call s m where x: "outcome (exchange W c st cfg req) = Some (resp, oc)"
      "verify_signed_response (w_hex W) (w_sig W) (w_http W) (chain_id st) q resp = Inr ()"
      and call: "outcome (run_world W c cfg pt) = Some call"
      and m: "client_inner_response (w_aead W) (w_bhttp W) cc (rs_body resp) = Some m"
      and sees: "client_sees (w_bhttp W) m (sealed_result (w_bhttp W) (the (w_rnd W)) (ic_result call)) s"
      and status: "rs_status resp = (if se_inner_status s \<in> {204, 205, 304} then 200 else se_inner_status s)"
    using exchange_roundtrip[OF crates inv enc machine client body, of c] by blast
  note ref = run_inner_refines[OF laws codes cap late call]
  have "contract_met W (confidential_spec W c cfg pt) m \<and> bh_status (w_bhttp W) m = Some (se_inner_status s)"
    by (rule sees_contract[OF sees codes laws(2) ref spec_status])
  then show ?thesis using x m status unfolding contract_met_def by blast
qed

lemma demo_final_codes: "final_codes demo_bhttp"
  by (simp add: final_codes_def demo_bhttp_def)

lemma demo_node_says:
  "node_says demo_node 100 demo_inner_request =
     Ready 7 (Inr (Some 200, [(ascii ''content-type'', [106])], [1, 2]))"
  by (simp add: node_says_def demo_node_def relayable_def)

lemma demo_spec:
  "confidential_spec demo_world demo_client demo_config demo_plaintext =
     Inr (Some 200, [(ascii ''content-type'', [106])], [1, 2])"
  "\<not> on_deadline demo_world demo_client demo_config demo_plaintext"
proof -
  have cfg: "max_batch_size demo_config = 2" "max_response_bytes demo_config = 100" "upstream_timeout demo_config = 25"
    "ir_body demo_inner = [91, 93]"
    by (simp_all add: demo_config_def demo_inner_def)
  show "confidential_spec demo_world demo_client demo_config demo_plaintext =
     Inr (Some 200, [(ascii ''content-type'', [106])], [1, 2])"
    by (simp add: confidential_spec_def demo_decodes demo_inner_up_request cfg demo_batch demo_node_says in_time_def)
  show "\<not> on_deadline demo_world demo_client demo_config demo_plaintext"
    by (simp add: on_deadline_def demo_decodes demo_inner_up_request cfg demo_node_says)
qed

theorem confidential_contract_witness:
  "\<exists>resp oc m. outcome (exchange demo_world demo_client demo_state demo_config demo_post) = Some (resp, oc)
     \<and> client_inner_response demo_aead demo_bhttp demo_cc (rs_body resp) = Some m
     \<and> (view demo_bhttp m = (Some 200, [(ascii ''content-type'', [106])], [1, 2]) \<or> view demo_bhttp m = problem Internal)"
proof -
  have "length demo_outer \<le> max_request_bytes demo_config" "max_response_bytes demo_config < usize_max"
    using demo_post_body(2) by (simp_all add: demo_config_def usize_max_def)
  then show ?thesis
    using confidential_contract[OF demo_crates_ok _ demo_encodable demo_machine _ _ _ demo_post_body(1) _ demo_spec(2),
        of "[5]" demo_cc] demo_state_inv(1) demo_client_seal demo_final_codes demo_spec(1)
    by fastforce
qed

end
