(* ===== verification/Unit_Tests.thy ===== *)
theory Unit_Tests
  imports Server
begin

text \<open>
  The unit tests the repository keeps inside \<open>signing.rs\<close> and \<open>attestation.rs\<close> (\<open>mod tests\<close>), each as a Boolean
  over the model, and that they pass: not on one instance of the crates but for all that behave as
  documented; theory \<open>Http_Tests\<close> has those of \<open>proxy.rs\<close> and \<open>config.rs\<close>.  An \<open>unwrap\<close> or \<open>expect\<close> that would panic makes the test
  \<open>False\<close>.  The tests on recorded vectors are in theory \<open>Vector_Tests\<close>.
\<close>

section \<open>\<open>signing.rs\<close>\<close>

definition TEST_SEED :: bytes where
  "TEST_SEED =
     [0x11, 0x22, 0x33, 0x44, 0x55, 0x66, 0x77, 0x88, 0x99, 0xaa, 0xbb, 0xcc, 0xdd, 0xee, 0xff, 0x00,
      0x0f, 0x1e, 0x2d, 0x3c, 0x4b, 0x5a, 0x69, 0x78, 0x87, 0x96, 0xa5, 0xb4, 0xc3, 0xd2, 0xe1, 0xf0]"

text \<open>\<open>expect r t\<close> is a test that unwraps \<open>r\<close> and goes on with \<open>t\<close>; \<open>is_err\<close> is \<open>Result::is_err\<close>.\<close>

definition expect :: "'e + 'a \<Rightarrow> ('a \<Rightarrow> bool) \<Rightarrow> bool" where
  "expect r t = (case r of Inr x \<Rightarrow> t x | Inl e \<Rightarrow> False)"

definition is_err :: "'e + 'a \<Rightarrow> bool" where
  "is_err r = (case r of Inr x \<Rightarrow> False | Inl e \<Rightarrow> True)"

lemma expect_simps [simp]: "expect (Inr x) t = t x" "\<not> expect (Inl e) t" "is_err (Inl e)" "\<not> is_err (Inr x)"
  by (simp_all add: expect_def is_err_def)

definition pre_image_layout_is_byte_exact :: bool where
  "pre_image_layout_is_byte_exact =
     (let pre = build_pre_image (replicate 32 0xcc) (replicate 32 0xaa) (replicate 32 0xbb) 0x9988776655443322 in
      length pre = 104 \<and> list_all (\<lambda>b. b = 0xcc) (slice 0 32 pre) \<and> list_all (\<lambda>b. b = 0xaa) (slice 32 64 pre)
      \<and> list_all (\<lambda>b. b = 0xbb) (slice 64 96 pre)
      \<and> slice 96 104 pre = [0x22, 0x33, 0x44, 0x55, 0x66, 0x77, 0x88, 0x99])"

text \<open>\<open>VerifyingKey::from_bytes(..).unwrap()\<close> and \<open>verify\<close>, which every signature test ends with.\<close>

definition verifies :: "sig_api \<Rightarrow> signed_response \<Rightarrow> bytes \<Rightarrow> bool" where
  "verifies G s pre \<longleftrightarrow> ed_verify G (pubkey s) pre (signature s)"

definition rpc_request :: bytes where
  "rpc_request = ascii ''{\"jsonrpc\":\"2.0\",\"method\":\"eth_blockNumber\",\"params\":[],\"id\":1}''"

definition rpc_response :: bytes where
  "rpc_response = ascii ''{\"jsonrpc\":\"2.0\",\"result\":\"0x12345\",\"id\":1}''"

definition sign_verify_roundtrip_passes_for_intact_body :: "hex_crate \<Rightarrow> sig_api \<Rightarrow> 'c hpke_api \<Rightarrow> bool" where
  "sign_verify_roundtrip_passes_for_intact_body X G H =
     expect (from_seed X G H TEST_SEED (chars ''1'')) (\<lambda>state.
       let s = sign_with_timestamp G state rpc_request rpc_response 1700000000000;
           pre = build_pre_image (sha256 G (ascii ''1'')) (sha256 G rpc_request) (sha256 G rpc_response) 1700000000000
       in vk_from_bytes G (pubkey s) \<and> verifies G s pre)"

definition sign_verify_fails_when_response_body_is_tampered :: "hex_crate \<Rightarrow> sig_api \<Rightarrow> 'c hpke_api \<Rightarrow> bool" where
  "sign_verify_fails_when_response_body_is_tampered X G H =
     expect (from_seed X G H TEST_SEED (chars ''1'')) (\<lambda>state.
       let req = ascii ''req''; resp = ascii ''resp''; tampered = resp[0 := resp ! 0 XOR 1];
           s = sign_with_timestamp G state req resp 42;
           pre = build_pre_image (sha256 G (ascii ''1'')) (sha256 G req) (sha256 G tampered) 42
       in vk_from_bytes G (pubkey s) \<and> \<not> verifies G s pre)"

definition sign_with_caip2_style_chain_id_verifies :: "hex_crate \<Rightarrow> sig_api \<Rightarrow> 'c hpke_api \<Rightarrow> bool" where
  "sign_with_caip2_style_chain_id_verifies X G H =
     expect (from_seed X G H TEST_SEED (chars ''-239'')) (\<lambda>state.
       let s = sign_with_timestamp G state rpc_request rpc_response 1700000000000;
           pre = build_pre_image (sha256 G (ascii ''-239'')) (sha256 G rpc_request) (sha256 G rpc_response) 1700000000000
       in vk_from_bytes G (pubkey s) \<and> verifies G s pre)"

definition distinct_chain_ids_never_cross_verify :: "hex_crate \<Rightarrow> sig_api \<Rightarrow> 'c hpke_api \<Rightarrow> bool" where
  "distinct_chain_ids_never_cross_verify X G H =
     expect (from_seed X G H TEST_SEED (chars ''137'')) (\<lambda>state.
       let req = ascii ''req''; resp = ascii ''resp''; ts = 1700000000000;
           s = sign_with_timestamp G state req resp ts;
           other = build_pre_image (sha256 G (ascii ''0x89'')) (sha256 G req) (sha256 G resp) ts
       in vk_from_bytes G (pubkey s) \<and> \<not> verifies G s other)"

definition batch_request :: bytes where
  "batch_request = ascii ''[{\"jsonrpc\":\"2.0\",\"method\":\"a\",\"id\":1},{\"jsonrpc\":\"2.0\",\"method\":\"b\",\"id\":2}]''"

definition batch_response :: bytes where
  "batch_response = ascii ''[{\"jsonrpc\":\"2.0\",\"result\":1,\"id\":1},{\"jsonrpc\":\"2.0\",\"result\":2,\"id\":2}]''"

definition sign_treats_batch_and_single_uniformly :: "hex_crate \<Rightarrow> sig_api \<Rightarrow> 'c hpke_api \<Rightarrow> bool" where
  "sign_treats_batch_and_single_uniformly X G H =
     expect (from_seed X G H TEST_SEED (chars ''137'')) (\<lambda>state.
       let s = sign_with_timestamp G state batch_request batch_response 99;
           pre = build_pre_image (sha256 G (ascii ''137'')) (sha256 G batch_request) (sha256 G batch_response) 99
       in vk_from_bytes G (pubkey s) \<and> verifies G s pre)"

definition is_lower_hex :: "char \<Rightarrow> bool" where
  "is_lower_hex c \<longleftrightarrow> c \<in> set ''0123456789abcdef''"

definition pubkey_hex_is_0x_prefixed_lowercase_64_chars :: "hex_crate \<Rightarrow> sig_api \<Rightarrow> 'c hpke_api \<Rightarrow> bool" where
  "pubkey_hex_is_0x_prefixed_lowercase_64_chars X G H =
     expect (from_seed X G H TEST_SEED (chars ''1'')) (\<lambda>state.
       let h = pubkey_hex state in
       take 2 h = ''0x'' \<and> length h = 2 + 64 \<and> list_all is_lower_hex (drop 2 h))"

definition pubkey_hex_is_cached_and_matches_pubkey_bytes :: "hex_crate \<Rightarrow> sig_api \<Rightarrow> 'c hpke_api \<Rightarrow> bool" where
  "pubkey_hex_is_cached_and_matches_pubkey_bytes X G H =
     expect (from_seed X G H TEST_SEED (chars ''1'')) (\<lambda>state.
       let a = pubkey_hex state; b = pubkey_hex state in
       a = b \<and> a = ''0x'' @ hex_encode X (pubkey_bytes G state))"

definition signed_response_carries_cached_pubkey_hex :: "hex_crate \<Rightarrow> sig_api \<Rightarrow> 'c hpke_api \<Rightarrow> bool" where
  "signed_response_carries_cached_pubkey_hex X G H =
     expect (from_seed X G H TEST_SEED (chars ''1'')) (\<lambda>state.
       signed_pubkey_hex (sign_with_timestamp G state (ascii ''req'') (ascii ''resp'') 1) = pubkey_hex state)"

definition signature_hex_is_0x_prefixed_64_byte_hex :: "hex_crate \<Rightarrow> sig_api \<Rightarrow> 'c hpke_api \<Rightarrow> bool" where
  "signature_hex_is_0x_prefixed_64_byte_hex X G H =
     expect (from_seed X G H TEST_SEED (chars ''1'')) (\<lambda>state.
       let h = signature_hex X (sign_with_timestamp G state (ascii ''req'') (ascii ''resp'') 1) in
       take 2 h = ''0x'' \<and> length h = 2 + 128)"

definition from_dstack_bytes_accepts_exact_32_bytes :: "hex_crate \<Rightarrow> sig_api \<Rightarrow> 'c hpke_api \<Rightarrow> bool" where
  "from_dstack_bytes_accepts_exact_32_bytes X G H =
     expect (from_dstack_bytes X G H TEST_SEED (chars ''1'')) (\<lambda>s. length (pubkey_bytes G s) = 32)"

definition from_dstack_bytes_rejects_non_32_byte_input :: "hex_crate \<Rightarrow> sig_api \<Rightarrow> 'c hpke_api \<Rightarrow> bool" where
  "from_dstack_bytes_rejects_non_32_byte_input X G H \<longleftrightarrow>
     is_err (from_dstack_bytes X G H (TEST_SEED @ replicate 16 0xcc) (chars ''1'')) \<and>
     is_err (from_dstack_bytes X G H (take 31 TEST_SEED) (chars ''1''))"

definition from_dstack_bytes_rejects_short_input :: "hex_crate \<Rightarrow> sig_api \<Rightarrow> 'c hpke_api \<Rightarrow> bool" where
  "from_dstack_bytes_rejects_short_input X G H = is_err (from_dstack_bytes X G H (replicate 16 0) (chars ''1''))"

definition now_ms_returns_plausible_unix_millis :: "int \<Rightarrow> bool" where
  "now_ms_returns_plausible_unix_millis clock = expect (now_ms clock) (\<lambda>ts. 1577836800000 < ts)"

definition sign_returns_ok_when_clock_is_usable :: "hex_crate \<Rightarrow> sig_api \<Rightarrow> 'c hpke_api \<Rightarrow> int \<Rightarrow> bool" where
  "sign_returns_ok_when_clock_is_usable X G H clock =
     expect (from_seed X G H TEST_SEED (chars ''1'')) (\<lambda>state.
       expect (sign G state clock (ascii ''req'') (ascii ''resp'')) (\<lambda>s. length (signature s) = 64))"

definition validate_chain_id_accepts_valid_ids :: bool where
  "validate_chain_id_accepts_valid_ids \<longleftrightarrow>
     validate_chain_id (chars ''42161'') = Inr (chars ''42161'') \<and>
     validate_chain_id (chars ''0x89'') = Inr (chars ''0x89'') \<and>
     validate_chain_id (chars ''-239'') = Inr (chars ''-239'') \<and>
     (let stellar = chars ''7ac33997544e3175d266bd022439b22cdb16508c01163f26e5cb2a3e1045a979''
      in validate_chain_id stellar = Inr stellar) \<and>
     validate_chain_id (chars '' 137 '') = Inr (chars ''137'') \<and>
     (let max = replicate 64 120 in validate_chain_id max = Inr max)"

text \<open>The non-ASCII id is \<open>c\<close>, \<open>U+00E9\<close>, \<open>pas\<close>.\<close>

definition validate_chain_id_rejects_invalid_ids :: bool where
  "validate_chain_id_rejects_invalid_ids \<longleftrightarrow>
     is_err (validate_chain_id []) \<and> is_err (validate_chain_id (chars '' '')) \<and>
     is_err (validate_chain_id (chars ''a b'')) \<and> is_err (validate_chain_id [97, 9, 98]) \<and>
     is_err (validate_chain_id (replicate 65 120)) \<and>
     is_err (validate_chain_id ([99, 0xe9] @ chars ''pas'')) \<and>
     is_err (validate_chain_id [97, 0x7f, 98])"

definition mismatched_kem_key_is_rejected :: "sig_api \<Rightarrow> 'c hpke_api \<Rightarrow> bool" where
  "mismatched_kem_key_is_rejected G H =
     (let sk = derive_kem_secret G TEST_SEED; pk = to_montgomery G (verifying_key G TEST_SEED);
          pk' = pk[0 := pk ! 0 XOR 1]
      in \<not> is_err (check_kem_key H sk pk) \<and> is_err (check_kem_key H sk pk'))"

section \<open>The tests of \<open>signing.rs\<close> pass\<close>

text \<open>
  The Ed25519 key and the clamped X25519 secret of a seed belong together (RFC 7748), and the test inputs
  hit neither a SHA-256 collision nor a signature that is valid for two messages.
\<close>

definition seed_agrees :: "sig_api \<Rightarrow> 'c hpke_api \<Rightarrow> bytes \<Rightarrow> bool" where
  "seed_agrees G H seed \<longleftrightarrow>
     public_key H (derive_kem_secret G seed) = Inr (to_montgomery G (verifying_key G seed)) \<and>
     length (to_montgomery G (verifying_key G seed)) = 32"

definition no_accident :: "sig_api \<Rightarrow> bool" where
  "no_accident G \<longleftrightarrow>
     (let pre = (\<lambda>cid resp ts. build_pre_image (sha256 G (ascii cid)) (sha256 G (ascii ''req'')) (sha256 G (ascii resp)) ts)
      in ed_binding G TEST_SEED (pre ''1'' ''resp'' 42) (pre ''1'' ''sesp'' 42) \<and>
         ed_binding G TEST_SEED (pre ''137'' ''resp'' 1700000000000) (pre ''0x89'' ''resp'' 1700000000000)) \<and>
     no_collision G (ascii ''sesp'') (ascii ''resp'') \<and> no_collision G (ascii ''0x89'') (ascii ''137'')"

lemma test_state:
  assumes "seed_agrees G H seed"
  obtains st where "from_seed X G H seed cid = Inr st" "signing_key st = seed" "chain_id st = cid"
    "signing_inv X G H st"
proof -
  have "\<exists>st. from_seed_ref X G H seed cid = Inr st"
    using assms by (simp add: seed_agrees_def from_seed_ref_def check_kem_key_def Let_def)
  then show thesis using that from_seed_ref_Inr unfolding from_seed_def by blast
qed

lemma chars_utf8 [simp]: "list_all (\<lambda>c. (of_char c :: nat) < 127) s \<Longrightarrow> utf8 (chars s) = ascii s"
  by (intro utf8_ascii) (simp add: list_all_iff)

lemma signs_own_pre_image:
  assumes "ed_correct G" and "signing_inv X G H st"
  shows "vk_from_bytes G (pubkey (sign_with_timestamp G st q a ts))"
    and "verifies G (sign_with_timestamp G st q a ts)
      (build_pre_image (sha256 G (utf8 (chain_id st))) (sha256 G q) (sha256 G a) ts)"
  using assms by (simp_all add: verifies_def sign_with_timestamp_def Let_def ed_correct_def signing_inv_def pubkey_bytes_def)

lemma rejects_other_pre_image:
  assumes "sha256_len G" and "signing_inv X G H st"
    and "ed_binding G (signing_key st) (build_pre_image (sha256 G (utf8 (chain_id st))) (sha256 G q) (sha256 G a) ts)
       (build_pre_image (sha256 G c) (sha256 G q') (sha256 G a') ts')"
    and "(sha256 G c, sha256 G q', sha256 G a', ts') \<noteq> (sha256 G (utf8 (chain_id st)), sha256 G q, sha256 G a, ts)"
  shows "\<not> verifies G (sign_with_timestamp G st q a ts) (build_pre_image (sha256 G c) (sha256 G q') (sha256 G a') ts')"
proof -
  have len: "length (sha256 G x) = 32" for x using assms(1) by (simp add: sha256_len_def sha256_def)
  have "build_pre_image (sha256 G c) (sha256 G q') (sha256 G a') ts' \<noteq>
      build_pre_image (sha256 G (utf8 (chain_id st))) (sha256 G q) (sha256 G a) ts"
    using pre_image.enc_inj[of "(sha256 G c, sha256 G q', sha256 G a', ts')" "(sha256 G (utf8 (chain_id st)), sha256 G q, sha256 G a, ts)"]
      assms(4) by (auto simp: hashes_ok_def len)
  then show ?thesis
    using assms(2,3) by (simp add: verifies_def sign_with_timestamp_def Let_def ed_binding_def signing_inv_def pubkey_bytes_def)
qed

lemma tampered_resp: "(ascii ''resp'')[0 := ascii ''resp'' ! 0 XOR 1] = ascii ''sesp''"
  by code_simp

lemma signature_tests:
  assumes "sha256_len G" and "ed_correct G" and "seed_agrees G H TEST_SEED" and "no_accident G"
  shows "sign_verify_roundtrip_passes_for_intact_body X G H" "sign_with_caip2_style_chain_id_verifies X G H"
    "sign_treats_batch_and_single_uniformly X G H" "sign_verify_fails_when_response_body_is_tampered X G H"
    "distinct_chain_ids_never_cross_verify X G H"
proof -
  have cid: "utf8 (chars ''1'') = ascii ''1''" "utf8 (chars ''-239'') = ascii ''-239''" "utf8 (chars ''137'') = ascii ''137''"
    by simp_all
  have own: "vk_from_bytes G (pubkey (sign_with_timestamp G st q a ts)) \<and>
      verifies G (sign_with_timestamp G st q a ts) (build_pre_image (sha256 G (utf8 c)) (sha256 G q) (sha256 G a) ts)"
    if "from_seed X G H TEST_SEED c = Inr st" for st c q a ts
    using that signs_own_pre_image[OF assms(2)] from_seed_ref_Inr unfolding from_seed_def by metis
  show "sign_verify_roundtrip_passes_for_intact_body X G H"
    by (rule test_state[OF assms(3), of X "chars ''1''"])
      (simp add: sign_verify_roundtrip_passes_for_intact_body_def own[where c = "chars ''1''", unfolded cid])
  show "sign_with_caip2_style_chain_id_verifies X G H"
    by (rule test_state[OF assms(3), of X "chars ''-239''"])
      (simp add: sign_with_caip2_style_chain_id_verifies_def own[where c = "chars ''-239''", unfolded cid])
  show "sign_treats_batch_and_single_uniformly X G H"
    by (rule test_state[OF assms(3), of X "chars ''137''"])
      (simp add: sign_treats_batch_and_single_uniformly_def own[where c = "chars ''137''", unfolded cid])
  have acc: "ed_binding G TEST_SEED
       (build_pre_image (sha256 G (ascii ''1'')) (sha256 G (ascii ''req'')) (sha256 G (ascii ''resp'')) 42)
       (build_pre_image (sha256 G (ascii ''1'')) (sha256 G (ascii ''req'')) (sha256 G (ascii ''sesp'')) 42)"
    "ed_binding G TEST_SEED
       (build_pre_image (sha256 G (ascii ''137'')) (sha256 G (ascii ''req'')) (sha256 G (ascii ''resp'')) 1700000000000)
       (build_pre_image (sha256 G (ascii ''0x89'')) (sha256 G (ascii ''req'')) (sha256 G (ascii ''resp'')) 1700000000000)"
    "sha256 G (ascii ''sesp'') \<noteq> sha256 G (ascii ''resp'')" "sha256 G (ascii ''0x89'') \<noteq> sha256 G (ascii ''137'')"
    using assms(4) by (simp_all add: no_accident_def no_collision_def sha256_def)
  obtain st where st: "from_seed X G H TEST_SEED (chars ''1'') = Inr st" "signing_key st = TEST_SEED"
      "chain_id st = chars ''1''" "signing_inv X G H st"
    by (rule test_state[OF assms(3)])
  show "sign_verify_fails_when_response_body_is_tampered X G H"
    using own[OF st(1)] rejects_other_pre_image[OF assms(1) st(4), unfolded st(2,3) cid, OF acc(1)] acc(3)
    by (simp add: sign_verify_fails_when_response_body_is_tampered_def st(1) tampered_resp)
  obtain st where st: "from_seed X G H TEST_SEED (chars ''137'') = Inr st" "signing_key st = TEST_SEED"
      "chain_id st = chars ''137''" "signing_inv X G H st"
    by (rule test_state[OF assms(3)])
  show "distinct_chain_ids_never_cross_verify X G H"
    using own[OF st(1)] rejects_other_pre_image[OF assms(1) st(4), unfolded st(2,3) cid, OF acc(2)] acc(4)
    by (simp add: distinct_chain_ids_never_cross_verify_def st(1))
qed

lemma key_text_tests:
  assumes "hex_digits X" and "ed_correct G" and "seed_agrees G H TEST_SEED"
  shows "pubkey_hex_is_0x_prefixed_lowercase_64_chars X G H" "pubkey_hex_is_cached_and_matches_pubkey_bytes X G H"
    "signed_response_carries_cached_pubkey_hex X G H" "signature_hex_is_0x_prefixed_64_byte_hex X G H"
proof -
  obtain st where st: "from_seed X G H TEST_SEED (chars ''1'') = Inr st" "signing_inv X G H st"
    by (rule test_state[OF assms(3)])
  have hex: "length (hex_encode X bs) = 2 * length bs" "list_all is_lower_hex (hex_encode X bs)" for bs
    using assms(1) unfolding hex_digits_def is_lower_hex_def list_all_iff by blast+
  have "length (pubkey_bytes G st) = 32" using assms(2) by (simp add: ed_correct_def pubkey_bytes_def)
  then show "pubkey_hex_is_0x_prefixed_lowercase_64_chars X G H"
    using st by (simp add: pubkey_hex_is_0x_prefixed_lowercase_64_chars_def signing_inv_def prefixed_hex_def hex)
  show "pubkey_hex_is_cached_and_matches_pubkey_bytes X G H"
    using st by (simp add: pubkey_hex_is_cached_and_matches_pubkey_bytes_def signing_inv_def prefixed_hex_def)
  show "signed_response_carries_cached_pubkey_hex X G H"
    using st by (simp add: signed_response_carries_cached_pubkey_hex_def sign_with_timestamp_def Let_def)
  show "signature_hex_is_0x_prefixed_64_byte_hex X G H"
    using st assms(2)
    by (simp add: signature_hex_is_0x_prefixed_64_byte_hex_def sign_with_timestamp_def signature_hex_def prefixed_hex_def
        hex ed_correct_def)
qed

lemma key_material_tests:
  assumes "ed_correct G" and "seed_agrees G H TEST_SEED"
  shows "from_dstack_bytes_accepts_exact_32_bytes X G H" "from_dstack_bytes_rejects_non_32_byte_input X G H"
    "from_dstack_bytes_rejects_short_input X G H" "mismatched_kem_key_is_rejected G H"
proof -
  have len: "length TEST_SEED = 32" by (simp add: TEST_SEED_def)
  obtain st where st: "from_seed_ref X G H TEST_SEED (chars ''1'') = Inr st"
    by (rule test_state[OF assms(2), of X, unfolded from_seed_def])
  then show "from_dstack_bytes_accepts_exact_32_bytes X G H"
    using assms(1) len
    by (simp add: from_dstack_bytes_accepts_exact_32_bytes_def from_dstack_bytes_def signing_consts overwrite_all
        ed_correct_def pubkey_bytes_def)
  show "from_dstack_bytes_rejects_non_32_byte_input X G H" "from_dstack_bytes_rejects_short_input X G H"
    using len by (simp_all add: from_dstack_bytes_rejects_non_32_byte_input_def from_dstack_bytes_rejects_short_input_def
        from_dstack_bytes_def signing_consts)
  let ?pk = "to_montgomery G (verifying_key G TEST_SEED)"
  have "?pk ! 0 XOR 1 \<noteq> ?pk ! 0"
  proof
    assume "?pk ! 0 XOR 1 = ?pk ! 0"
    then have "?pk ! 0 XOR (?pk ! 0 XOR 1) = 0" by simp
    then show False by (simp add: xor.assoc[symmetric])
  qed
  moreover have "0 < length ?pk" using assms(2) by (simp add: seed_agrees_def)
  ultimately have "?pk[0 := ?pk ! 0 XOR 1] \<noteq> ?pk" by (metis nth_list_update_eq)
  then show "mismatched_kem_key_is_rejected G H"
    using assms(2) by (simp add: mismatched_kem_key_is_rejected_def check_kem_key_def seed_agrees_def Let_def)
qed

lemma chain_id_accepted:
  assumes "list_all is_ascii_graphic s" and "s \<noteq> []" and "length s \<le> 64"
  shows "validate_chain_id s = Inr s"
proof -
  have "trim s = s" using assms(1) graphic_not_whitespace by (intro trim_no_whitespace) (auto simp: list_all_iff)
  then show ?thesis using assms by (simp add: validate_chain_id_iff utf8_graphic)
qed

lemma chain_id_refused:
  assumes "\<not> list_all is_ascii_graphic (trim s) \<or> trim s = [] \<or> 64 < length (utf8 (trim s))"
  shows "is_err (validate_chain_id s)"
  using assms by (cases "validate_chain_id s") (auto simp: validate_chain_id_iff)

lemma chain_id_tests: "validate_chain_id_accepts_valid_ids" "validate_chain_id_rejects_invalid_ids"
proof -
  have "validate_chain_id (chars '' 137 '') = Inr (chars ''137'')"
    by (simp add: validate_chain_id_iff utf8_graphic chars_def trim_def is_whitespace_def is_ascii_graphic_def)
  moreover have "list_all is_ascii_graphic (replicate 64 120)"
    unfolding list_all_iff by (simp add: is_ascii_graphic_def)
  ultimately show "validate_chain_id_accepts_valid_ids"
    by (simp add: validate_chain_id_accepts_valid_ids_def chain_id_accepted chars_def is_ascii_graphic_def)
  have "trim (replicate 65 120) = replicate 65 120"
    by (rule trim_no_whitespace) (simp add: list_all_iff is_whitespace_def)
  moreover have "length (utf8 (replicate 65 120)) = 65"
    by (subst utf8_graphic) (simp_all add: list_all_iff is_ascii_graphic_def)
  ultimately have "is_err (validate_chain_id (replicate 65 120))"
    by (intro chain_id_refused) simp
  then show "validate_chain_id_rejects_invalid_ids"
    by (simp add: validate_chain_id_rejects_invalid_ids_def chain_id_refused chars_def trim_def is_whitespace_def
        is_ascii_graphic_def)
qed

lemma pre_image_test: "pre_image_layout_is_byte_exact"
  by code_simp

lemma clock_tests:
  assumes "ed_correct G" and "seed_agrees G H TEST_SEED" and "1577836800001 \<le> clock div 1000000" and "clock div 1000000 < 2 ^ 64"
  shows "now_ms_returns_plausible_unix_millis clock" "sign_returns_ok_when_clock_is_usable X G H clock"
proof -
  have "nat clock div 1000000 < 2 ^ 64" "1577836800001 \<le> nat clock div 1000000" "0 \<le> clock"
    using assms(3,4) by (simp_all add: nat_div_distrib[symmetric] nat_less_iff)
  then obtain ms where ms: "now_ms clock = Inr ms" "unat ms = nat clock div 1000000"
    using u64_try_from_Some by (auto simp: now_ms_def u64_try_from_def)
  then show "now_ms_returns_plausible_unix_millis clock"
    using \<open>1577836800001 \<le> nat clock div 1000000\<close>
    by (simp add: now_ms_returns_plausible_unix_millis_def word_less_nat_alt)
  show "sign_returns_ok_when_clock_is_usable X G H clock"
    by (rule test_state[OF assms(2), of X "chars ''1''"])
      (use assms(1) ms in \<open>simp add: sign_returns_ok_when_clock_is_usable_def sign_def sign_with_timestamp_def ed_correct_def Let_def\<close>)
qed

section \<open>\<open>attestation.rs\<close>\<close>

text \<open>\<open>str::contains\<close> and \<open>str::repeat\<close>.\<close>

fun contains :: "string \<Rightarrow> string \<Rightarrow> bool" where
  "contains pat [] = (pat = [])"
| "contains pat (c # cs) = (take (length pat) (c # cs) = pat \<or> contains pat cs)"

definition repeated :: "string \<Rightarrow> nat \<Rightarrow> ustr" where
  "repeated s n = concat (replicate n (chars s))"

definition report_data_layout_is_64_bytes_pubkey_nonce :: bool where
  "report_data_layout_is_64_bytes_pubkey_nonce =
     (let d = build_report_data (replicate 32 0xaa) (replicate 32 0xbb) in
      length d = 64 \<and> list_all (\<lambda>b. b = 0xaa) (take 32 d) \<and> list_all (\<lambda>b. b = 0xbb) (drop 32 d))"

definition parse_user_nonce_accepts_with_or_without_prefix :: "hex_crate \<Rightarrow> bool" where
  "parse_user_nonce_accepts_with_or_without_prefix X =
     (let h = repeated ''00'' 32 in
      expect (parse_user_nonce X h) (\<lambda>a.
      expect (parse_user_nonce X (chars ''0x'' @ h)) (\<lambda>b. a = b \<and> a = replicate 32 0)))"

definition parse_user_nonce_rejects_wrong_length :: "hex_crate \<Rightarrow> bool" where
  "parse_user_nonce_rejects_wrong_length X \<longleftrightarrow>
     is_err (parse_user_nonce X (chars ''0x00'')) \<and> is_err (parse_user_nonce X (repeated ''aa'' 33))"

definition extract_nonce_errors_when_absent :: "hex_crate \<Rightarrow> bool" where
  "extract_nonce_errors_when_absent X =
     (case extract_nonce X None of
        Inl e \<Rightarrow> contains ''missing required'' (attestation_error_text e) | Inr _ \<Rightarrow> False)"

definition extract_nonce_reads_query_parameter :: "hex_crate \<Rightarrow> bool" where
  "extract_nonce_reads_query_parameter X =
     expect (extract_nonce X (Some (chars ''0x'' @ repeated ''ab'' 32))) (\<lambda>n. n = replicate 32 0xab)"

definition extract_nonce_propagates_parse_error_for_bad_hex :: "hex_crate \<Rightarrow> bool" where
  "extract_nonce_propagates_parse_error_for_bad_hex X = is_err (extract_nonce X (Some (repeated ''zz'' 32)))"

definition extract_nonce_propagates_parse_error_for_wrong_length :: "hex_crate \<Rightarrow> bool" where
  "extract_nonce_propagates_parse_error_for_wrong_length X = is_err (extract_nonce X (Some (chars ''0xab'')))"

definition extract_nonce_rejects_empty_string_value :: "hex_crate \<Rightarrow> bool" where
  "extract_nonce_rejects_empty_string_value X = is_err (extract_nonce X (Some []))"

definition parse_user_nonce_accepts_uppercase_hex :: "hex_crate \<Rightarrow> bool" where
  "parse_user_nonce_accepts_uppercase_hex X \<longleftrightarrow>
     expect (parse_user_nonce X (repeated ''ab'' 32)) (\<lambda>n. n = replicate 32 0xab) \<and>
     expect (parse_user_nonce X (repeated ''AB'' 32)) (\<lambda>n. n = replicate 32 0xab)"

definition parse_user_nonce_accepts_uppercase_0x_prefix :: "hex_crate \<Rightarrow> bool" where
  "parse_user_nonce_accepts_uppercase_0x_prefix X =
     expect (parse_user_nonce X (chars ''0X'' @ repeated ''cd'' 32)) (\<lambda>n. n = replicate 32 0xcd)"

definition parse_user_nonce_rejects_odd_length_hex :: "hex_crate \<Rightarrow> bool" where
  "parse_user_nonce_rejects_odd_length_hex X \<longleftrightarrow>
     is_err (parse_user_nonce X (repeated ''a'' 63)) \<and> is_err (parse_user_nonce X (chars ''0x'' @ repeated ''a'' 63))"

definition parse_user_nonce_trims_surrounding_whitespace :: "hex_crate \<Rightarrow> bool" where
  "parse_user_nonce_trims_surrounding_whitespace X =
     expect (parse_user_nonce X (chars ''  0x'' @ repeated ''ee'' 32 @ chars ''  '')) (\<lambda>n. n = replicate 32 0xee)"

definition resolve_compose_hash_returns_value_when_present :: bool where
  "resolve_compose_hash_returns_value_when_present \<longleftrightarrow>
     expect (resolve_compose_hash (chars ''abcd'') False) (\<lambda>h. h = chars ''abcd'') \<and>
     expect (resolve_compose_hash (chars ''abcd'') True) (\<lambda>h. h = chars ''abcd'')"

definition resolve_compose_hash_errors_when_empty_and_not_allowed :: bool where
  "resolve_compose_hash_errors_when_empty_and_not_allowed =
     (case resolve_compose_hash [] False of
        Inl e \<Rightarrow> contains ''no compose_hash'' (attestation_error_text e) | Inr _ \<Rightarrow> False)"

definition resolve_compose_hash_returns_empty_when_explicitly_allowed :: bool where
  "resolve_compose_hash_returns_empty_when_explicitly_allowed =
     expect (resolve_compose_hash [] True) (\<lambda>h. h = [])"

text \<open>
  \<open>to_string\<close> is \<open>serde_json::to_string\<close> and \<open>mk\<close> the SDK's \<open>GetQuoteResponse\<close> with its four fields, serialised by \<open>D\<close>.
\<close>

definition attestation_response_nests_sdk_quote_and_renames_compose_hash ::
  "'q dstack \<Rightarrow> (string \<Rightarrow> string \<Rightarrow> string \<Rightarrow> string \<Rightarrow> 'q) \<Rightarrow> (json \<Rightarrow> string) \<Rightarrow> bool" where
  "attestation_response_nests_sdk_quote_and_renames_compose_hash D mk to_string =
     (let r = \<lparr>ar_quote = mk ''dead'' ''beef'' ''cafe'' [], ar_pubkey = ''0xabcd'', ar_compose_hash = chars ''feed'',
               ar_app_compose = chars ''{\"runner\":\"bash\"}''\<rparr>;
          s = to_string (attestation_json D r)
      in contains ''\"quote\":{'' s \<and> contains ''\"quote\":\"dead\"'' s \<and> contains ''\"event_log\":\"beef\"'' s \<and>
         contains ''\"report_data\":\"cafe\"'' s \<and> contains ''\"pubkey\":\"0xabcd\"'' s \<and>
         contains ''\"composeHash\":\"feed\"'' s \<and> \<not> contains ''compose_hash\":'' s \<and>
         contains (''\"app_compose\":\"{'' @ [CHR 0x5C] @ ''\"runner'' @ [CHR 0x5C] @ ''\":'' @ [CHR 0x5C] @ ''\"bash'' @ [CHR 0x5C] @ ''\"}\"'') s \<and>
         \<not> contains ''\"appCompose\"'' s \<and> \<not> contains ''\"eventLog\"'' s)"

text \<open>\<open>from_str\<close> is \<open>serde_urlencoded::from_str::<AttestationQuery>\<close>.\<close>

definition query_string_deserialises_into_attestation_query :: "hex_crate \<Rightarrow> (ustr \<Rightarrow> string + ustr option) \<Rightarrow> bool" where
  "query_string_deserialises_into_attestation_query X from_str =
     expect (from_str (chars ''nonce=0x'' @ repeated ''11'' 32)) (\<lambda>q.
       expect (extract_nonce X q) (\<lambda>parsed. parsed = replicate 32 0x11))"

definition query_string_with_no_nonce_key_yields_none :: "hex_crate \<Rightarrow> (ustr \<Rightarrow> string + ustr option) \<Rightarrow> bool" where
  "query_string_with_no_nonce_key_yields_none X from_str =
     expect (from_str (chars ''other=value'')) (\<lambda>q. q = None \<and> is_err (extract_nonce X q))"

definition query_string_with_empty_value_yields_some_empty :: "hex_crate \<Rightarrow> (ustr \<Rightarrow> string + ustr option) \<Rightarrow> bool" where
  "query_string_with_empty_value_yields_some_empty X from_str =
     expect (from_str (chars ''nonce='')) (\<lambda>q. q = Some [] \<and> is_err (extract_nonce X q))"

section \<open>The tests of \<open>attestation.rs\<close> pass\<close>

text \<open>\<open>hex::decode\<close>: pairs of hexadecimal digits of either case; an odd length or another byte is an error.\<close>

definition hex_pairs :: "hex_crate \<Rightarrow> bool" where
  "hex_pairs X \<longleftrightarrow>
     hex_decode X [] = Some [] \<and> (\<forall>c. hex_decode X [c] = None) \<and>
     (\<forall>c d cs. hex_decode X (c # d # cs) =
        (case (nibble_of c, nibble_of d) of
           (Some x, Some y) \<Rightarrow> map_option (\<lambda>bs. (push_bit 4 x OR y) # bs) (hex_decode X cs)
         | _ \<Rightarrow> None))"

lemma hex_repeated:
  assumes "hex_pairs X" and "nibble_of c = Some x" and "nibble_of d = Some y"
  shows "hex_decode X (concat (replicate n [c, d])) = Some (replicate n (push_bit 4 x OR y))"
  using assms by (induction n) (simp_all add: hex_pairs_def)

lemma hex_odd:
  assumes "hex_pairs X" and "odd (length s)"
  shows "hex_decode X s = None"
  using assms(2)
proof (induction s rule: induct_list012)
  case (3 c d s)
  then show ?case using assms(1) by (simp add: hex_pairs_def split: option.splits)
qed (use assms(1) in \<open>simp_all add: hex_pairs_def\<close>)

lemma parse_trimmed: "parse_user_nonce X s = parse_user_nonce X (trim s)"
  by (simp add: parse_user_nonce_def)

text \<open>Repeated digits behind an optional prefix, as the tests write nonces.\<close>

definition nonce_digit :: "nat \<Rightarrow> bool" where
  "nonce_digit c \<longleftrightarrow> c < 127 \<and> \<not> is_whitespace c \<and> c \<noteq> 120 \<and> c \<noteq> 88"

lemma prefix_stripped:
  assumes "pre \<in> {[], chars ''0x'', chars ''0X''}" and "list_all nonce_digit s"
  shows "trim_start_matches (chars ''0X'') (trim_start_matches (chars ''0x'') (trim (pre @ s))) = s"
proof -
  have x: "chars ''0x'' = [48, 120]" "chars ''0X'' = [48, 88]" by (simp_all add: chars_def)
  have "list_all (\<lambda>c. \<not> is_whitespace c) (pre @ s)"
  proof -
    have "list_all (\<lambda>c. \<not> is_whitespace c) s"
      by (rule list.pred_mono_strong[OF assms(2)]) (simp add: nonce_digit_def)
    moreover have "\<not> is_whitespace 48" "\<not> is_whitespace 120" "\<not> is_whitespace 88" by (simp_all add: is_whitespace_def)
    ultimately show ?thesis using assms(1) by (auto simp: x)
  qed
  then have t: "trim (pre @ s) = pre @ s" by (rule trim_no_whitespace)
  have stop: "trim_start_matches [48, k] s = s" if "k \<in> {120, 88}" for k
    using that assms(2) by (intro trim_start_stop) (cases s rule: remdups_adj.cases; auto simp: nonce_digit_def)
  have other: "trim_start_matches [48, 120] ([48, 88] @ s) = [48, 88] @ s"
    by (rule trim_start_stop) simp
  have strip: "trim_start_matches [48, k] ([48, k] @ s) = trim_start_matches [48, k] s" for k
    by (subst trim_start_matches.simps) simp
  from assms(1) consider "pre = []" | "pre = [48, 120]" | "pre = [48, 88]" by (auto simp: x)
  then show ?thesis
    unfolding t x by cases (simp_all only: append_Nil stop other strip insert_iff simp_thms)
qed

lemma parse_pairs:
  assumes "hex_pairs X" and "pre \<in> {[], chars ''0x'', chars ''0X''}"
    and "nonce_digit c" "nonce_digit d" and "nibble_of (of_nat c) = Some x" "nibble_of (of_nat d) = Some y"
  shows "parse_user_nonce X (pre @ concat (replicate n [c, d])) =
    (if n = 32 then Inr (replicate n (push_bit 4 x OR y)) else Inl (NonceLength n))"
proof -
  let ?s = "concat (replicate n [c, d])"
  have "list_all nonce_digit ?s" using assms(3,4) by (auto simp: list_all_iff)
  note p = prefix_stripped[OF assms(2) this]
  have "utf8 ?s = concat (replicate n [of_nat c, of_nat d])"
    using assms(3,4) by (induction n) (simp_all add: utf8_def utf8_char_def nonce_digit_def)
  then show ?thesis
    using hex_repeated[OF assms(1,5,6), of n] by (simp add: parse_user_nonce_def p)
qed

lemma parse_odd:
  assumes "hex_pairs X" and "pre \<in> {[], chars ''0x'', chars ''0X''}" and "list_all nonce_digit s" and "odd (length s)"
  shows "is_err (parse_user_nonce X (pre @ s))"
proof -
  have "list_all (\<lambda>c. c < 127) s" using assms(3) by (auto simp: list_all_iff nonce_digit_def)
  then have "length (utf8 s) = length s"
    by (induction s) (simp_all add: utf8_def utf8_char_def)
  then have "hex_decode X (utf8 s) = None" using hex_odd[OF assms(1)] assms(4) by simp
  then show ?thesis by (simp add: parse_user_nonce_def prefix_stripped[OF assms(2,3)])
qed

lemma test_digits:
  "nonce_digit 48" "nonce_digit 97" "nonce_digit 98" "nonce_digit 65" "nonce_digit 66" "nonce_digit 99"
  "nonce_digit 100" "nonce_digit 101" "nonce_digit 122"
  "nibble_of 48 = Some 0" "nibble_of 97 = Some 10" "nibble_of 98 = Some 11" "nibble_of 65 = Some 10" "nibble_of 66 = Some 11"
  "nibble_of 99 = Some 12" "nibble_of 100 = Some 13" "nibble_of 101 = Some 14" "nibble_of 122 = None"
  by (simp_all add: nonce_digit_def is_whitespace_def nibble_of_def)

lemma repeated_pair: "repeated [a, b] n = concat (replicate n [of_char a, of_char b])"
  by (simp add: repeated_def chars_def)

lemma nonce_accepted_tests:
  assumes "hex_pairs X"
  shows "parse_user_nonce_accepts_with_or_without_prefix X" "extract_nonce_reads_query_parameter X"
    "parse_user_nonce_accepts_uppercase_hex X" "parse_user_nonce_accepts_uppercase_0x_prefix X"
    "parse_user_nonce_trims_surrounding_whitespace X"
proof -
  note pairs = parse_pairs[OF assms]
  note bare = pairs[of "[]", simplified]
  show "parse_user_nonce_accepts_with_or_without_prefix X"
    by (simp add: parse_user_nonce_accepts_with_or_without_prefix_def Let_def repeated_pair bare pairs test_digits)
  show "extract_nonce_reads_query_parameter X"
    by (simp add: extract_nonce_reads_query_parameter_def extract_nonce_def repeated_pair pairs test_digits)
  show "parse_user_nonce_accepts_uppercase_hex X"
    by (simp add: parse_user_nonce_accepts_uppercase_hex_def repeated_pair bare test_digits)
  show "parse_user_nonce_accepts_uppercase_0x_prefix X"
    by (simp add: parse_user_nonce_accepts_uppercase_0x_prefix_def repeated_pair pairs test_digits)
  let ?s = "chars ''0x'' @ repeated ''ee'' 32"
  have "list_all (\<lambda>c. \<not> is_whitespace c) ?s"
    by (auto simp: repeated_pair list_all_iff chars_def is_whitespace_def)
  then have plain: "dropWhile is_whitespace (?s @ t) = ?s @ t" "dropWhile is_whitespace (rev ?s) = rev ?s" for t
    by (simp_all add: dropWhile_none list_all_iff chars_def)
  have "trim (chars ''  0x'' @ repeated ''ee'' 32 @ chars ''  '') = ?s"
  proof -
    have "chars ''  0x'' @ repeated ''ee'' 32 @ chars ''  '' = [32, 32] @ ?s @ [32, 32]" by (simp add: chars_def)
    moreover have "dropWhile is_whitespace ([32, 32] @ ?s @ [32, 32]) = ?s @ [32, 32]"
      using plain(1)[of "[32, 32]"] by (simp add: is_whitespace_def)
    moreover have "dropWhile is_whitespace (rev (?s @ [32, 32])) = rev ?s"
      using plain(2) by (simp add: is_whitespace_def)
    ultimately show ?thesis by (simp add: trim_def)
  qed
  then show "parse_user_nonce_trims_surrounding_whitespace X"
    using pairs[of "chars ''0x''" 101 101 14 14 32]
    by (simp add: parse_user_nonce_trims_surrounding_whitespace_def parse_trimmed[of X "chars ''  0x'' @ _"] repeated_pair test_digits)
qed

lemma nonce_refused_tests:
  assumes "hex_pairs X"
  shows "parse_user_nonce_rejects_wrong_length X" "extract_nonce_errors_when_absent X"
    "extract_nonce_propagates_parse_error_for_bad_hex X" "extract_nonce_propagates_parse_error_for_wrong_length X"
    "extract_nonce_rejects_empty_string_value X" "parse_user_nonce_rejects_odd_length_hex X"
proof -
  note pairs = parse_pairs[OF assms]
  note bare = pairs[of "[]", simplified]
  have one: "chars ''0x00'' = chars ''0x'' @ concat (replicate 1 [48, 48])"
    "chars ''0xab'' = chars ''0x'' @ concat (replicate 1 [97, 98])"
    by (simp_all add: chars_def)
  show "parse_user_nonce_rejects_wrong_length X"
    unfolding parse_user_nonce_rejects_wrong_length_def one by (simp add: pairs bare repeated_pair test_digits del: One_nat_def)
  show "extract_nonce_errors_when_absent X"
    by (simp add: extract_nonce_errors_when_absent_def extract_nonce_def)
  show "extract_nonce_propagates_parse_error_for_wrong_length X"
    unfolding extract_nonce_propagates_parse_error_for_wrong_length_def one extract_nonce_def
    by (simp add: pairs test_digits del: One_nat_def)
  show "extract_nonce_rejects_empty_string_value X"
    using bare[of 48 48 0 0 0] by (simp add: extract_nonce_rejects_empty_string_value_def extract_nonce_def test_digits)
  have "list_all nonce_digit (repeated ''a'' 63)" "odd (length (repeated ''a'' 63))"
    by (auto simp: repeated_def chars_def list_all_iff test_digits length_concat sum_list_replicate)
  then show "parse_user_nonce_rejects_odd_length_hex X"
    using parse_odd[OF assms, of "[]" "repeated ''a'' 63"] parse_odd[OF assms, of "chars ''0x''" "repeated ''a'' 63"]
    by (simp add: parse_user_nonce_rejects_odd_length_hex_def)
  have z: "list_all nonce_digit (repeated ''zz'' 32)"
    by (auto simp: repeated_pair list_all_iff test_digits)
  have "utf8 (repeated ''zz'' 32) = 122 # 122 # concat (replicate 31 [122, 122])"
    by (simp add: repeated_pair utf8_def utf8_char_def numeral_eq_Suc)
  then have "hex_decode X (utf8 (repeated ''zz'' 32)) = None"
    using assms by (simp add: hex_pairs_def test_digits)
  then show "extract_nonce_propagates_parse_error_for_bad_hex X"
    using prefix_stripped[OF _ z, of "[]"]
    by (simp add: extract_nonce_propagates_parse_error_for_bad_hex_def extract_nonce_def parse_user_nonce_def)
qed

lemma attestation_state_tests:
  "report_data_layout_is_64_bytes_pubkey_nonce" "resolve_compose_hash_returns_value_when_present"
  "resolve_compose_hash_errors_when_empty_and_not_allowed" "resolve_compose_hash_returns_empty_when_explicitly_allowed"
proof -
  show "report_data_layout_is_64_bytes_pubkey_nonce"
    by (simp add: report_data_layout_is_64_bytes_pubkey_nonce_def build_report_data_eq list_all_iff)
  show "resolve_compose_hash_returns_value_when_present"
    "resolve_compose_hash_returns_empty_when_explicitly_allowed"
    "resolve_compose_hash_errors_when_empty_and_not_allowed"
    by (simp_all add: resolve_compose_hash_returns_value_when_present_def
        resolve_compose_hash_returns_empty_when_explicitly_allowed_def
        resolve_compose_hash_errors_when_empty_and_not_allowed_def resolve_compose_hash_def chars_def)
qed

text \<open>
  Compact JSON: a quote or a backslash in a string is escaped, members are written in order without spaces.
  The SDK's quote is an object of its four fields.
\<close>

fun json_escape :: "string \<Rightarrow> string" where
  "json_escape [] = []"
| "json_escape (c # cs) = (if c = CHR 0x22 \<or> c = CHR 0x5C then [CHR 0x5C, c] else [c]) @ json_escape cs"

fun comma_separated :: "string list \<Rightarrow> string" where
  "comma_separated [] = []"
| "comma_separated [x] = x"
| "comma_separated (x # y # xs) = x @ '','' @ comma_separated (y # xs)"

definition json_compact :: "(json \<Rightarrow> string) \<Rightarrow> bool" where
  "json_compact to_string \<longleftrightarrow>
     (\<forall>s. list_all (\<lambda>c. 32 \<le> (of_char c :: nat) \<and> (of_char c :: nat) < 127) s \<longrightarrow>
        to_string (JString (chars s)) = ''\"'' @ json_escape s @ ''\"'') \<and>
     (\<forall>fs. to_string (JObject fs) =
        ''{'' @ comma_separated (map (\<lambda>(k, v). ''\"'' @ k @ ''\":'' @ to_string v) fs) @ ''}'')"

definition sdk_quote :: "'q dstack \<Rightarrow> (string \<Rightarrow> string \<Rightarrow> string \<Rightarrow> string \<Rightarrow> 'q) \<Rightarrow> bool" where
  "sdk_quote D mk \<longleftrightarrow>
     (\<forall>q e r v. ds_quote_json D (mk q e r v) =
        JObject [(''quote'', JString (chars q)), (''event_log'', JString (chars e)), (''report_data'', JString (chars r)),
                 (''vm_config'', JString (chars v))])"

lemma attestation_json_test:
  assumes "json_compact to_string" and "sdk_quote D mk"
  shows "attestation_response_nests_sdk_quote_and_renames_compose_hash D mk to_string"
proof -
  let ?r = "\<lparr>ar_quote = mk ''dead'' ''beef'' ''cafe'' [], ar_pubkey = ''0xabcd'', ar_compose_hash = chars ''feed'',
     ar_app_compose = chars ''{\"runner\":\"bash\"}''\<rparr>"
  have str: "list_all (\<lambda>c. 32 \<le> (of_char c :: nat) \<and> (of_char c :: nat) < 127) s \<Longrightarrow>
      to_string (JString (chars s)) = ''\"'' @ json_escape s @ ''\"''" for s
    using assms(1) unfolding json_compact_def by blast
  have obj: "to_string (JObject fs) = ''{'' @ comma_separated (map (\<lambda>(k, v). ''\"'' @ k @ ''\":'' @ to_string v) fs) @ ''}''" for fs
    using assms(1) unfolding json_compact_def by blast
  have q: "ds_quote_json D (mk q e r v) =
      JObject [(''quote'', JString (chars q)), (''event_log'', JString (chars e)), (''report_data'', JString (chars r)),
               (''vm_config'', JString (chars v))]" for q e r v
    using assms(2) unfolding sdk_quote_def by blast
  have s: "to_string (attestation_json D ?r) = ''{\"quote\":{\"quote\":\"dead\",\"event_log\":\"beef\",\"report_data\":\"cafe\",\"vm_config\":\"\"},\"pubkey\":\"0xabcd\",\"composeHash\":\"feed\",\"app_compose\":\"{'' @ [CHR 0x5C] @ ''\"runner'' @ [CHR 0x5C] @ ''\":'' @ [CHR 0x5C] @ ''\"bash'' @ [CHR 0x5C] @ ''\"}\"}''"
    by (simp add: attestation_json_def obj q str)
  show ?thesis
    unfolding attestation_response_nests_sdk_quote_and_renames_compose_hash_def Let_def s by simp
qed

text \<open>A form field without escapes is its text; a field that does not occur is absent.\<close>

definition urlencoded :: "(ustr \<Rightarrow> string + ustr option) \<Rightarrow> bool" where
  "urlencoded from_str \<longleftrightarrow>
     (\<forall>v. list_all (\<lambda>c. c \<in> set (chars ''0123456789abcdefxABCDEFX'')) v \<longrightarrow> from_str (chars ''nonce='' @ v) = Inr (Some v)) \<and>
     from_str (chars ''other=value'') = Inr None"

lemma query_tests:
  assumes "hex_pairs X" and "urlencoded from_str"
  shows "query_string_deserialises_into_attestation_query X from_str" "query_string_with_no_nonce_key_yields_none X from_str"
    "query_string_with_empty_value_yields_some_empty X from_str"
proof -
  have field: "from_str (chars ''nonce='' @ v) = Inr (Some v)" if "list_all (\<lambda>c. c \<in> set (chars ''0123456789abcdefxABCDEFX'')) v" for v
    using assms(2) that unfolding urlencoded_def by blast
  have one: "nonce_digit 49" "nibble_of 49 = Some 1"
    by (simp_all add: nonce_digit_def is_whitespace_def nibble_of_def)
  have "from_str (chars ''nonce='' @ chars ''0x'' @ repeated ''11'' 32) = Inr (Some (chars ''0x'' @ repeated ''11'' 32))"
    by (rule field) (simp add: list_all_iff repeated_pair chars_def)
  moreover have "chars ''nonce=0x'' = chars ''nonce='' @ chars ''0x''" by (simp add: chars_def)
  ultimately show "query_string_deserialises_into_attestation_query X from_str"
    using parse_pairs[OF assms(1), of "chars ''0x''" 49 49 1 1 32]
    by (simp add: query_string_deserialises_into_attestation_query_def extract_nonce_def repeated_pair one)
  show "query_string_with_no_nonce_key_yields_none X from_str"
    using assms(2) by (simp add: query_string_with_no_nonce_key_yields_none_def urlencoded_def extract_nonce_def)
  show "query_string_with_empty_value_yields_some_empty X from_str"
    using field[of "[]"] nonce_refused_tests(5)[OF assms(1)]
    by (simp add: query_string_with_empty_value_yields_some_empty_def extract_nonce_rejects_empty_string_value_def)
qed

end
