(* ===== verification/Http_Tests.thy ===== *)
theory Http_Tests
  imports Unit_Tests Config
begin

text \<open>
  The unit tests inside \<open>proxy.rs\<close> and \<open>config.rs\<close>, as in theory \<open>Unit_Tests\<close>, and the theorem that the tests of
  all four modules pass.
\<close>

section \<open>\<open>proxy.rs\<close>\<close>

text \<open>\<open>h.parse::<HeaderName>()\<close> normalises a valid name to lowercase.\<close>

definition hop_by_hop_headers_recognised :: bool where
  "hop_by_hop_headers_recognised =
     list_all (\<lambda>h. is_hop_by_hop (header_name h))
       [''connection'', ''keep-alive'', ''proxy-authenticate'', ''proxy-authorization'', ''te'', ''trailers'',
        ''transfer-encoding'', ''upgrade'', ''host'']"

definition hop_by_hop_check_is_case_insensitive :: bool where
  "hop_by_hop_check_is_case_insensitive =
     list_all (\<lambda>h. is_hop_by_hop (header_name h))
       [''Connection'', ''CONNECTION'', ''Keep-Alive'', ''KEEP-ALIVE'', ''Proxy-Authenticate'', ''PROXY-AUTHORIZATION'',
        ''TE'', ''Trailers'', ''TRAILER'', ''Transfer-Encoding'', ''Upgrade'', ''Host'']"

definition end_to_end_headers_pass_through :: bool where
  "end_to_end_headers_pass_through =
     list_all (\<lambda>h. \<not> is_hop_by_hop (header_name h)) [''content-type'', ''x-trace-id'', ''vrpc-signature'', ''vrpc-pubkey'']"

definition upstream_client_is_cheap_to_clone :: "http_api \<Rightarrow> bool" where
  "upstream_client_is_cheap_to_clone P =
     expect (upstream_client_new P (chars ''http://localhost:1/'') (Some (8 * 1024 * 1024))) (\<lambda>c. True)"

definition upstream_client_rejects_malformed_url_at_construction :: "http_api \<Rightarrow> bool" where
  "upstream_client_rejects_malformed_url_at_construction P =
     (case upstream_client_new P (chars ''not a url'') (Some (8 * 1024 * 1024)) of
        Inr _ \<Rightarrow> False | Inl (InvalidUpstreamUrl url) \<Rightarrow> True)"

text \<open>
  \<open>request uri headers body\<close> is \<open>Request::builder()\<close> with its \<open>uri\<close>, \<open>header\<close> and \<open>body\<close> calls; the builder
  parses the URI and lowercases the names.  The listener of the test records the request the client sends.
\<close>

definition build_request :: "http_api \<Rightarrow> string \<Rightarrow> string \<Rightarrow> (string \<times> string) list \<Rightarrow> bytes \<Rightarrow> request option" where
  "build_request P method u hs payload =
     map_option (\<lambda>u. \<lparr>rq_method = ascii method, rq_uri = u, rq_headers = map (\<lambda>(n, v). (header_name n, ascii v)) hs,
                      rq_body = (if payload = [] then Eof 0 else Next 0 (Data payload) (Eof 0))\<rparr>) (uri_parse P (chars u))"

definition request_hop_by_hop_headers_stripped_to_upstream ::
  "hex_crate \<Rightarrow> sig_api \<Rightarrow> 'c hpke_api \<Rightarrow> http_api \<Rightarrow> runtime \<Rightarrow> string \<Rightarrow> int \<Rightarrow> bool" where
  "request_hop_by_hop_headers_stripped_to_upstream X G H P R addr clock =
     expect (upstream_client_new P (chars (''http://'' @ addr @ ''/'')) None) (\<lambda>client.
     expect (from_seed X G H (replicate 32 0) (chars ''1'')) (\<lambda>signer.
     (case build_request P ''POST'' ''/''
          [(''Content-Type'', ''application/json''), (''Transfer-Encoding'', ''chunked''), (''TE'', ''trailers''),
           (''Connection'', ''keep-alive''), (''Keep-Alive'', ''timeout=5''), (''Upgrade'', ''h2c''),
           (''Proxy-Authorization'', ''Basic xxx''), (''Accept-Encoding'', ''gzip, br''), (''X-Trace-Id'', ''e2e-marker'')]
          (ascii ''payload'') of
        None \<Rightarrow> False
      | Some req \<Rightarrow>
          (case sends (forward X G P R client req signer clock) of
             [parsed] \<Rightarrow>
               list_all (\<lambda>h. get_all h (up_headers parsed) = [])
                 [''connection'', ''keep-alive'', ''proxy-authenticate'', ''proxy-authorization'', ''te'', ''trailers'',
                  ''trailer'', ''transfer-encoding'', ''upgrade''] \<and>
               (case get_all ''x-trace-id'' (up_headers parsed) of [] \<Rightarrow> False | v # _ \<Rightarrow> v = ascii ''e2e-marker'') \<and>
               (let accept_encodings = get_all ''accept-encoding'' (up_headers parsed) in
                length accept_encodings = 1 \<and> accept_encodings ! 0 = ascii ''identity'')
           | _ \<Rightarrow> False))))"

text \<open>\<open>from_utf8\<close> is the parameter \<open>utf8_text\<close>; five seconds are \<open>5 * 10 ^ 9\<close> nanoseconds.\<close>

definition upstream_connection_refused_returns_502 ::
  "hex_crate \<Rightarrow> sig_api \<Rightarrow> 'c hpke_api \<Rightarrow> http_api \<Rightarrow> runtime \<Rightarrow> (bytes \<Rightarrow> string option) \<Rightarrow> int \<Rightarrow> bool" where
  "upstream_connection_refused_returns_502 X G H P R utf8_text clock =
     expect (upstream_client_new P (chars ''http://127.0.0.1:1/'') None) (\<lambda>client.
     expect (from_seed X G H (replicate 32 0) (chars ''1'')) (\<lambda>signer.
     (case build_request P ''POST'' ''/'' [] (ascii ''hello'') of
        None \<Rightarrow> False
      | Some req \<Rightarrow>
          (case snd (forward X G P R client req signer clock) of
             Never \<Rightarrow> False
           | Ready t resp \<Rightarrow>
               t < 5 * 10 ^ 9 \<and> rs_status resp = 502 \<and>
               (let s = (case utf8_text (rs_body resp) of Some s \<Rightarrow> s | None \<Rightarrow> ''<binary>'') in
                rs_body resp = [] \<or> \<not> contains ''\"jsonrpc\"'' s \<and> \<not> contains ''\"error\":{'' s)))))"

definition parts_for :: "http_api \<Rightarrow> string \<Rightarrow> request option" where
  "parts_for P u = build_request P ''GET'' u [] []"

text \<open>The tests of \<open>upstream_uri\<close>, all of one form; \<open>to_string\<close> is the \<open>Display\<close> of a URI.\<close>

definition upstream_uri_test :: "http_api \<Rightarrow> (uri \<Rightarrow> string) \<Rightarrow> string \<Rightarrow> string \<Rightarrow> string \<Rightarrow> bool" where
  "upstream_uri_test P to_string base path expected =
     expect (upstream_client_new P (chars base) None) (\<lambda>client.
       (case parts_for P path of
          None \<Rightarrow> False
        | Some parts \<Rightarrow>
            (case upstream_uri P client parts of None \<Rightarrow> False | Some u \<Rightarrow> to_string u = expected)))"

definition upstream_uri_is_base_plus_request_path_and_query :: "http_api \<Rightarrow> (uri \<Rightarrow> string) \<Rightarrow> bool" where
  "upstream_uri_is_base_plus_request_path_and_query P to_string =
     upstream_uri_test P to_string ''http://127.0.0.1:43677'' ''/getConsensusBlock?limit=1''
       ''http://127.0.0.1:43677/getConsensusBlock?limit=1''"

definition upstream_uri_preserves_configured_base_path :: "http_api \<Rightarrow> (uri \<Rightarrow> string) \<Rightarrow> bool" where
  "upstream_uri_preserves_configured_base_path P to_string =
     upstream_uri_test P to_string ''http://127.0.0.1:43677/api/v2'' ''/getConsensusBlock''
       ''http://127.0.0.1:43677/api/v2/getConsensusBlock''"

definition upstream_uri_base_trailing_slash_not_doubled :: "http_api \<Rightarrow> (uri \<Rightarrow> string) \<Rightarrow> bool" where
  "upstream_uri_base_trailing_slash_not_doubled P to_string =
     upstream_uri_test P to_string ''http://127.0.0.1:43677/api/'' ''/foo'' ''http://127.0.0.1:43677/api/foo''"

definition upstream_uri_ignores_base_query :: "http_api \<Rightarrow> (uri \<Rightarrow> string) \<Rightarrow> bool" where
  "upstream_uri_ignores_base_query P to_string =
     upstream_uri_test P to_string ''http://127.0.0.1:43677/rpc?apikey=K'' ''/x?y=1'' ''http://127.0.0.1:43677/rpc/x?y=1''"

definition upstream_uri_preserves_jsonrpc_path :: "http_api \<Rightarrow> (uri \<Rightarrow> string) \<Rightarrow> bool" where
  "upstream_uri_preserves_jsonrpc_path P to_string =
     upstream_uri_test P to_string ''http://127.0.0.1:8545'' ''/jsonRPC'' ''http://127.0.0.1:8545/jsonRPC''"

definition upstream_uri_forwards_root_path :: "http_api \<Rightarrow> (uri \<Rightarrow> string) \<Rightarrow> bool" where
  "upstream_uri_forwards_root_path P to_string =
     upstream_uri_test P to_string ''http://127.0.0.1:8545'' ''/'' ''http://127.0.0.1:8545/''"

section \<open>The tests of \<open>proxy.rs\<close> pass\<close>

text \<open>
  URIs as \<open>http\<close> reads them: an absolute \<open>http\<close> URI has its authority, and the path \<open>/\<close> when it is written without one; an
  origin-form target is its own path and query; the parts of a URI are put together and shown in order;
  a space is not allowed.
\<close>

definition uri_char :: "char \<Rightarrow> bool" where
  "uri_char c \<longleftrightarrow> c \<in> set ''abcdefghijklmnopqrstuvwxyzABCDEFGHIJKLMNOPQRSTUVWXYZ0123456789.:-_=&''"

definition path_text :: "string \<Rightarrow> bool" where
  "path_text p \<longleftrightarrow> list_all (\<lambda>c. uri_char c \<or> c = CHR ''/'') p \<and> (p = [] \<or> hd p = CHR ''/'')"

definition query_text :: "string \<Rightarrow> bool" where
  "query_text q \<longleftrightarrow> q = [] \<or> (hd q = CHR ''?'' \<and> list_all uri_char (tl q))"

definition uri_rules :: "http_api \<Rightarrow> (uri \<Rightarrow> string) \<Rightarrow> bool" where
  "uri_rules P to_string \<longleftrightarrow>
     (\<forall>a p q. a \<noteq> [] \<longrightarrow> list_all uri_char a \<longrightarrow> path_text p \<longrightarrow> query_text q \<longrightarrow>
        (\<exists>u. uri_parse P (chars (''http://'' @ a @ p @ q)) = Some u \<and> u_scheme u = Some (ascii ''http'') \<and>
           u_authority u = Some (ascii a) \<and> u_path u = ascii (if p = [] then ''/'' else p))) \<and>
     (\<forall>p q. p \<noteq> [] \<longrightarrow> path_text p \<longrightarrow> query_text q \<longrightarrow>
        (\<exists>u. uri_parse P (chars (p @ q)) = Some u \<and> u_path_and_query u = Some (ascii (p @ q))) \<and>
        (length (p @ q) < 65535 \<longrightarrow> path_and_query_try_from P (ascii (p @ q)) = Some (ascii (p @ q)) \<and>
           (\<forall>a. \<exists>u. uri_from_parts P (Some (ascii ''http'')) (Some (ascii a)) (Some (ascii (p @ q))) = Some u \<and>
              to_string u = ''http://'' @ a @ p @ q))) \<and>
     (\<forall>s. 32 \<in> set s \<longrightarrow> uri_parse P s = None)"

lemma uri_test_passes:
  assumes rules: "uri_rules P to_string"
    and base: "a \<noteq> []" "list_all uri_char a" "path_text b" "query_text bq"
    and target: "p \<noteq> []" "path_text p" "query_text q"
    and joined: "trim_end_matches 0x2F (ascii (if b = [] then ''/'' else b)) = ascii b'" "path_text (b' @ p)" "length (b' @ p @ q) < 65535"
  shows "upstream_uri_test P to_string (''http://'' @ a @ b @ bq) (p @ q) (''http://'' @ a @ b' @ p @ q)"
proof -
  obtain u where u: "uri_parse P (chars (''http://'' @ a @ b @ bq)) = Some u" "u_scheme u = Some (ascii ''http'')"
      "u_authority u = Some (ascii a)" "u_path u = ascii (if b = [] then ''/'' else b)"
    using rules base unfolding uri_rules_def by blast
  obtain r where r: "uri_parse P (chars (p @ q)) = Some r" "u_path_and_query r = Some (ascii (p @ q))"
    using rules target unfolding uri_rules_def by blast
  have len: "length ((b' @ p) @ q) < 65535" using joined(3) by simp
  have ne: "b' @ p \<noteq> []" using target(1) by simp
  obtain v where v: "path_and_query_try_from P (ascii ((b' @ p) @ q)) = Some (ascii ((b' @ p) @ q))"
      "uri_from_parts P (Some (ascii ''http'')) (Some (ascii a)) (Some (ascii ((b' @ p) @ q))) = Some v"
      "to_string v = ''http://'' @ a @ (b' @ p) @ q"
    using rules ne joined(2) target(3) len unfolding uri_rules_def by meson
  have "length (ascii b') + length (ascii (p @ q)) \<le> 65534" using joined(3) by (simp add: ascii_def)
  then show ?thesis
    using u r v joined(1)
    by (simp add: upstream_uri_test_def upstream_client_new_def parts_for_def build_request_def upstream_uri_def
        origin_path_and_query_def origin_uri_def MAX_PATH_AND_QUERY_def Let_def)
qed

lemma upstream_uri_tests:
  assumes "uri_rules P to_string"
  shows "upstream_uri_is_base_plus_request_path_and_query P to_string" "upstream_uri_preserves_configured_base_path P to_string"
    "upstream_uri_base_trailing_slash_not_doubled P to_string" "upstream_uri_ignores_base_query P to_string"
    "upstream_uri_preserves_jsonrpc_path P to_string" "upstream_uri_forwards_root_path P to_string"
proof -
  note t = uri_test_passes[OF assms]
  note texts = path_text_def query_text_def uri_char_def
  have slash: "trim_end_matches 0x2F (ascii ''/'') = ascii ''''" "trim_end_matches 0x2F (ascii ''/api/v2'') = ascii ''/api/v2''"
    "trim_end_matches 0x2F (ascii ''/api/'') = ascii ''/api''" "trim_end_matches 0x2F (ascii ''/rpc'') = ascii ''/rpc''"
    by code_simp+
  show "upstream_uri_is_base_plus_request_path_and_query P to_string"
    using t[of "''127.0.0.1:43677''" "''''" "''''" "''/getConsensusBlock''" "''?limit=1''" "''''"]
    by (simp add: upstream_uri_is_base_plus_request_path_and_query_def texts slash)
  show "upstream_uri_preserves_configured_base_path P to_string"
    using t[of "''127.0.0.1:43677''" "''/api/v2''" "''''" "''/getConsensusBlock''" "''''" "''/api/v2''"]
    by (simp add: upstream_uri_preserves_configured_base_path_def texts slash)
  show "upstream_uri_base_trailing_slash_not_doubled P to_string"
    using t[of "''127.0.0.1:43677''" "''/api/''" "''''" "''/foo''" "''''" "''/api''"]
    by (simp add: upstream_uri_base_trailing_slash_not_doubled_def texts slash)
  show "upstream_uri_ignores_base_query P to_string"
    using t[of "''127.0.0.1:43677''" "''/rpc''" "''?apikey=K''" "''/x''" "''?y=1''" "''/rpc''"]
    by (simp add: upstream_uri_ignores_base_query_def texts slash)
  show "upstream_uri_preserves_jsonrpc_path P to_string"
    using t[of "''127.0.0.1:8545''" "''''" "''''" "''/jsonRPC''" "''''" "''''"]
    by (simp add: upstream_uri_preserves_jsonrpc_path_def texts slash)
  show "upstream_uri_forwards_root_path P to_string"
    using t[of "''127.0.0.1:8545''" "''''" "''''" "''/''" "''''" "''''"]
    by (simp add: upstream_uri_forwards_root_path_def texts slash)
qed

lemma header_name_tests:
  "hop_by_hop_headers_recognised" "hop_by_hop_check_is_case_insensitive" "end_to_end_headers_pass_through"
  by (simp_all add: hop_by_hop_headers_recognised_def hop_by_hop_check_is_case_insensitive_def
      end_to_end_headers_pass_through_def header_name_def is_hop_by_hop_def Let_def char_of_eq_iff take_bit_eq_mod)

text \<open>The request builder accepts a \<open>POST\<close> to a URI that was made from parts, with headers it documents as valid.\<close>

definition posts_build :: "http_api \<Rightarrow> bool" where
  "posts_build P \<longleftrightarrow>
     (\<forall>s a pq u hs. uri_from_parts P s a pq = Some u \<longrightarrow> headers_fit hs \<longrightarrow> request_build_ok P (ascii ''POST'') u hs)"

lemma test_client:
  assumes "uri_rules P to_string" and "a \<noteq> []" and "list_all uri_char a"
  obtains c u v where "upstream_client_new P (chars (''http://'' @ a @ ''/'')) cap = Inr c" "max_body_bytes c = cap"
    "uri_parse P (chars ''/'') = Some u" "\<And>req. rq_uri req = u \<Longrightarrow> upstream_uri P c req = Some v"
    "\<exists>s a pq. uri_from_parts P s a pq = Some v"
proof -
  have "trim_end_matches 0x2F (ascii ''/'') = ascii []" by code_simp
  then have "upstream_uri_test P to_string (''http://'' @ a @ ''/'' @ []) (''/'' @ []) (''http://'' @ a @ [] @ ''/'' @ [])"
    using assms by (intro uri_test_passes) (simp_all add: path_text_def query_text_def)
  then obtain base u v where "uri_parse P (chars (''http://'' @ a @ ''/'')) = Some base" "uri_parse P (chars ''/'') = Some u"
      "upstream_uri P \<lparr>upstream_url = base, max_body_bytes = None\<rparr>
        \<lparr>rq_method = ascii ''GET'', rq_uri = u, rq_headers = [], rq_body = Eof 0\<rparr> = Some v"
    by (auto simp: upstream_uri_test_def upstream_client_new_def parts_for_def build_request_def expect_def try_bind_Inr_iff
        split: option.split_asm sum.split_asm)
  then show thesis
    by (intro that[of "\<lparr>upstream_url = base, max_body_bytes = cap\<rparr>" u v])
      (auto simp: upstream_client_new_def upstream_uri_def origin_path_and_query_def origin_uri_def[abs_def] bind_eq_Some_conv Let_def)
qed

lemma client_tests:
  assumes "uri_rules P to_string"
  shows "upstream_client_is_cheap_to_clone P" "upstream_client_rejects_malformed_url_at_construction P"
proof -
  obtain c where "upstream_client_new P (chars (''http://'' @ ''localhost:1'' @ ''/'')) (Some (8 * 1024 * 1024)) = Inr c"
    by (rule test_client[OF assms, of "''localhost:1''"]) (simp_all add: uri_char_def)
  then show "upstream_client_is_cheap_to_clone P" by (simp add: upstream_client_is_cheap_to_clone_def)
  have "(32 :: nat) \<in> set (chars ''not a url'')" by (simp add: chars_def)
  then have "uri_parse P (chars ''not a url'') = None" using assms unfolding uri_rules_def by blast
  then show "upstream_client_rejects_malformed_url_at_construction P"
    by (simp add: upstream_client_rejects_malformed_url_at_construction_def upstream_client_new_def)
qed

text \<open>A small body is collected.\<close>

lemma small_body_collected:
  assumes "limited_spec R" and "length b \<le> 1024"
  obtains t where "limited_collect R (Next 0 (Data b) (Eof 0)) usize_max = Ready t (Inr b)"
proof -
  have "body_data (Next 0 (Data b) (Eof 0)) = Some b" "length b \<le> usize_max"
    using assms(2) by (simp_all add: usize_max_def)
  then show thesis using assms(1) that unfolding limited_spec_def by meson
qed

lemma strip_test:
  assumes "uri_rules P to_string" and "posts_build P" and "limited_spec R" and "seed_agrees G H (replicate 32 0)"
    and "addr \<noteq> []" and "list_all uri_char addr"
  shows "request_hop_by_hop_headers_stripped_to_upstream X G H P R addr clock"
proof -
  obtain c u v where c: "upstream_client_new P (chars (''http://'' @ addr @ ''/'')) None = Inr c" "max_body_bytes c = None"
      and u: "uri_parse P (chars ''/'') = Some u" and v: "\<And>req. rq_uri req = u \<Longrightarrow> upstream_uri P c req = Some v"
      and made: "\<exists>s a pq. uri_from_parts P s a pq = Some v"
    by (rule test_client[OF assms(1,5,6), of None]) blast
  obtain st where st: "from_seed X G H (replicate 32 0) (chars ''1'') = Inr st" by (rule test_state[OF assms(4)])
  have cap: "body_cap c = usize_max" using c(2) by (simp add: body_cap_def)
  have payload: "ascii ''payload'' \<noteq> []" "length (ascii ''payload'') \<le> 1024" by (simp_all add: ascii_def)
  obtain t where t: "limited_collect R (Next 0 (Data (ascii ''payload'')) (Eof 0)) usize_max = Ready t (Inr (ascii ''payload''))"
    by (rule small_body_collected[OF assms(3) payload(2)])
  have "headers_fit [(''content-type'', ascii ''application/json''), (''x-trace-id'', ascii ''e2e-marker''), (''accept-encoding'', ascii ''identity'')]"
    by (simp add: headers_fit_def header_ok_def token_char_def ascii_def)
  then have build: "request_build_ok P (ascii ''POST'') v
      [(''content-type'', ascii ''application/json''), (''x-trace-id'', ascii ''e2e-marker''), (''accept-encoding'', ascii ''identity'')]"
    using assms(2) made unfolding posts_build_def by blast
  have names: "header_name ''Content-Type'' = ''content-type''" "header_name ''Transfer-Encoding'' = ''transfer-encoding''"
    "header_name ''TE'' = ''te''" "header_name ''Connection'' = ''connection''" "header_name ''Keep-Alive'' = ''keep-alive''"
    "header_name ''Upgrade'' = ''upgrade''" "header_name ''Proxy-Authorization'' = ''proxy-authorization''"
    "header_name ''Accept-Encoding'' = ''accept-encoding''" "header_name ''X-Trace-Id'' = ''x-trace-id''"
    by (simp_all add: header_name_def Let_def char_of_eq_iff take_bit_eq_mod)
  show ?thesis
    unfolding request_hop_by_hop_headers_stripped_to_upstream_def c(1) st expect_simps
    by (simp add: build_request_def u payload(1) sends_forward cap t
        send_upstream_def v build is_hop_by_hop_def names Let_def del: chars_utf8)
qed

text \<open>A refused connection, and a body that is read, take less than a second each.\<close>

definition refuses :: "runtime \<Rightarrow> bool" where
  "refuses R \<longleftrightarrow> (\<forall>r. \<exists>t. network R r = Ready t (Inl ()) \<and> t < 10 ^ 9) \<and>
     (\<forall>b t x. limited_collect R (Next 0 (Data b) (Eof 0)) usize_max = Ready t x \<longrightarrow> t < 10 ^ 9)"

lemma refused_test:
  assumes "uri_rules P to_string" and "posts_build P" and "limited_spec R" and "seed_agrees G H (replicate 32 0)" and "refuses R"
  shows "upstream_connection_refused_returns_502 X G H P R utf8_text clock"
proof -
  obtain c u v where c: "upstream_client_new P (chars (''http://'' @ ''127.0.0.1:1'' @ ''/'')) None = Inr c" "max_body_bytes c = None"
      and u: "uri_parse P (chars ''/'') = Some u" and v: "\<And>req. rq_uri req = u \<Longrightarrow> upstream_uri P c req = Some v"
      and made: "\<exists>s a pq. uri_from_parts P s a pq = Some v"
    by (rule test_client[OF assms(1), of "''127.0.0.1:1''" None]) (simp_all add: uri_char_def)
  obtain st where st: "from_seed X G H (replicate 32 0) (chars ''1'') = Inr st" by (rule test_state[OF assms(4)])
  have hello: "length (ascii ''hello'') \<le> 1024" by (simp add: ascii_def)
  obtain t where t: "limited_collect R (Next 0 (Data (ascii ''hello'')) (Eof 0)) usize_max = Ready t (Inr (ascii ''hello''))"
    by (rule small_body_collected[OF assms(3) hello])
  let ?req = "\<lparr>rq_method = ascii ''POST'', rq_uri = u, rq_headers = [], rq_body = Next 0 (Data (ascii ''hello'')) (Eof 0)\<rparr>"
  let ?r = "\<lparr>up_method = ascii ''POST'', up_uri = v, up_headers = [(''accept-encoding'', ascii ''identity'')], up_body = ascii ''hello''\<rparr>"
  obtain t' where t': "network R ?r = Ready t' (Inl ())" "t' < 10 ^ 9" "t < 10 ^ 9"
    using assms(5) t unfolding refuses_def by metis
  have "headers_fit [(''accept-encoding'', ascii ''identity'')]"
    by (simp add: headers_fit_def header_ok_def token_char_def ascii_def)
  then have "request_build_ok P (ascii ''POST'') v [(''accept-encoding'', ascii ''identity'')]"
    using assms(2) made unfolding posts_build_def by blast
  then have "snd (forward X G P R c ?req st clock) = Ready (t + t') (bare 502)"
    using t t'(1) v[of ?req] c(2)
    by (simp add: forward_def run_pipeline_def collect_request_def send_upstream_def io_try_def io_map_def io_fut_def io_ret_def Let_def)
  moreover have "t + t' < 5 * 10 ^ 9" using t'(2,3) by simp
  moreover have "build_request P ''POST'' ''/'' [] (ascii ''hello'') = Some ?req" by (simp add: build_request_def u ascii_def)
  ultimately show ?thesis
    using c st by (simp add: upstream_connection_refused_returns_502_def bare_def)
qed

section \<open>\<open>config.rs\<close>\<close>

definition ARGS :: "string list" where
  "ARGS = [''rpc-attest-sidecar'', ''--upstream-url'', ''http://127.0.0.1:1'', ''--chain-id'', ''1'', ''--max-body-bytes'', ''16'']"

text \<open>
  \<open>K args\<close> is clap on the command line \<open>args\<close> with no variable of the environment set, so that
  \<open>config_parse (K args)\<close> is \<open>Config::try_parse_from(args)\<close>.
\<close>

definition given :: "'v option \<Rightarrow> ('v \<Rightarrow> bool) \<Rightarrow> bool" where
  "given r t = (case r of Some v \<Rightarrow> t v | None \<Rightarrow> False)"

lemma given_simps [simp]: "given (Some v) t = t v" "\<not> given None t"
  by (simp_all add: given_def)

definition confidential_cap_defaults_to_8_mib_independent_of_max_body_bytes :: "(string list \<Rightarrow> 'a clap) \<Rightarrow> bool" where
  "confidential_cap_defaults_to_8_mib_independent_of_max_body_bytes K \<longleftrightarrow>
     given (config_parse (K ARGS)) (\<lambda>cfg.
       confidential_max_body_bytes cfg = 8388608 \<and> cfg_max_body_bytes cfg = Some 16) \<and>
     given (config_parse (K (ARGS @ [''--confidential-max-body-bytes'', ''100'']))) (\<lambda>cfg.
       confidential_max_body_bytes cfg = 100)"

definition confidential_max_batch_size_defaults_to_1000_within_1_to_1000 :: "(string list \<Rightarrow> 'a clap) \<Rightarrow> bool" where
  "confidential_max_batch_size_defaults_to_1000_within_1_to_1000 K =
     (let parse = (\<lambda>v. config_parse (K (ARGS @ [''--confidential-max-batch-size='' @ v]))) in
      given (config_parse (K ARGS)) (\<lambda>cfg. confidential_max_batch_size cfg = 1000) \<and>
      list_all (\<lambda>v. given (parse (dec (unat v))) (\<lambda>cfg. confidential_max_batch_size cfg = v)) [1, 1000] \<and>
      list_all (\<lambda>v. parse v = None) [''0'', ''1001'', ''5000'', ''-1'', ''x''] \<and>
      get_env ''confidential_max_batch_size'' = Some ''SIDECAR_CONFIDENTIAL_MAX_BATCH_SIZE'')"

definition confidential_upstream_timeout_defaults_to_25_s :: "(string list \<Rightarrow> 'a clap) \<Rightarrow> bool" where
  "confidential_upstream_timeout_defaults_to_25_s K =
     (let parse = (\<lambda>v. config_parse (K (ARGS @ [''--confidential-upstream-timeout-secs='' @ v]))) in
      given (config_parse (K ARGS)) (\<lambda>cfg. confidential_upstream_timeout_secs cfg = 25) \<and>
      parse ''0'' = None \<and>
      given (parse ''1'') (\<lambda>cfg. confidential_upstream_timeout_secs cfg = 1) \<and>
      get_env ''confidential_upstream_timeout_secs'' = Some ''SIDECAR_CONFIDENTIAL_UPSTREAM_TIMEOUT_SECS'')"

definition confidential_response_cap_defaults_to_128_mib_independent_of_max_body_bytes :: "(string list \<Rightarrow> 'a clap) \<Rightarrow> bool" where
  "confidential_response_cap_defaults_to_128_mib_independent_of_max_body_bytes K \<longleftrightarrow>
     given (config_parse (K ARGS)) (\<lambda>cfg.
       confidential_max_response_bytes cfg = 134217728 \<and> cfg_max_body_bytes cfg = Some 16) \<and>
     given (config_parse (K (ARGS @ [''--confidential-max-response-bytes'', ''13'']))) (\<lambda>cfg.
       confidential_max_response_bytes cfg = 13) \<and>
     get_env ''confidential_max_response_bytes'' = Some ''SIDECAR_CONFIDENTIAL_MAX_RESPONSE_BYTES''"

section \<open>The tests of \<open>config.rs\<close> pass\<close>

text \<open>
  How clap reads a command line of known options written \<open>--name value\<close> or \<open>--name=value\<close>, and how its number parsers
  read a text: through \<open>i64\<close> or \<open>u64\<close>, and then the range.
\<close>

fun option_text :: "string \<Rightarrow> string list \<Rightarrow> string option" where
  "option_text name [] = None"
| "option_text name (a # args) =
     (if a = ''--'' @ name then (case args of v # _ \<Rightarrow> Some v | [] \<Rightarrow> None)
      else if take (length name + 3) a = ''--'' @ name @ ''='' then Some (drop (length name + 3) a)
      else option_text name args)"

definition option_names :: "string list" where
  "option_names = [''upstream-url'', ''chain-id'', ''max-body-bytes'', ''confidential-max-body-bytes'',
     ''confidential-max-response-bytes'', ''confidential-max-batch-size'', ''confidential-upstream-timeout-secs'']"

fun known_options :: "string list \<Rightarrow> bool" where
  "known_options [] = True"
| "known_options (a # args) =
     (if list_ex (\<lambda>n. a = ''--'' @ n) option_names
      then (case args of v # rest \<Rightarrow> take 1 v \<noteq> ''-'' \<and> known_options rest | [] \<Rightarrow> False)
      else list_ex (\<lambda>n. take (length n + 3) a = ''--'' @ n @ ''='') option_names \<and> known_options args)"

text \<open>\<open>str::parse::<i64>\<close>.\<close>

definition parse_i64 :: "string \<Rightarrow> int option" where
  "parse_i64 s =
     (let neg = (take 1 s = ''-''); ds = (if take 1 s = ''-'' \<or> take 1 s = ''+'' then drop 1 s else s);
          n = (if neg then - int (dec_value ds) else int (dec_value ds))
      in if ds \<noteq> [] \<and> list_all is_digit ds \<and> - (2 ^ 63) \<le> n \<and> n < 2 ^ 63 then Some n else None)"

definition ranges_parse :: "'a clap \<Rightarrow> bool" where
  "ranges_parse C \<longleftrightarrow>
     (\<forall>lo hi s v. cl_u16_range C lo hi (chars s) = Some v \<longrightarrow> parse_i64 s = Some (int (unat v))) \<and>
     (\<forall>lo s v. cl_u64_range C lo (chars s) = Some v \<longrightarrow> parse_u64 s = Some v)"

definition clap_reads :: "(string list \<Rightarrow> 'a clap) \<Rightarrow> bool" where
  "clap_reads K \<longleftrightarrow>
     (\<forall>prog args. known_options args \<longrightarrow>
        (let C = K (prog # args) in
         cl_usage C \<and> (\<forall>name env. cl_text C name env = map_option chars (option_text name args)) \<and>
         (\<forall>name env. cl_flag C name env = Some False) \<and> clap_numbers C \<and>
         cl_socket_addr C (chars ''0.0.0.0:8545'') \<noteq> None \<and>
         ranges_parse C))"

lemma dec_texts:
  "dec 16 = ''16''" "dec 100 = ''100''" "dec 13 = ''13''" "dec 1 = ''1''" "dec 1000 = ''1000''"
  by (simp_all add: dec.simps digit_def char_of_eq_iff take_bit_eq_mod)

text \<open>What a command line with the three options of \<open>ARGS\<close> parses to, by the texts of the four numeric options.\<close>

definition parses_by :: "'a clap \<Rightarrow> (string \<Rightarrow> nat \<Rightarrow> ustr) \<Rightarrow> (nat \<Rightarrow> nat \<Rightarrow> u16 \<Rightarrow> u64 \<Rightarrow> 'a config) \<Rightarrow> bool" where
  "parses_by C num mk \<longleftrightarrow>
     (\<forall>a b c d. cfg_max_body_bytes (mk a b c d) = Some 16 \<and> confidential_max_body_bytes (mk a b c d) = a \<and>
        confidential_max_response_bytes (mk a b c d) = b \<and> confidential_max_batch_size (mk a b c d) = c \<and>
        confidential_upstream_timeout_secs (mk a b c d) = d) \<and>
     config_parse C =
       Option.bind (cl_usize C (num ''confidential-max-body-bytes'' 8388608)) (\<lambda>a.
       Option.bind (cl_usize C (num ''confidential-max-response-bytes'' 134217728)) (\<lambda>b.
       Option.bind (cl_u16_range C 1 1000 (num ''confidential-max-batch-size'' 1000)) (\<lambda>c.
       Option.bind (cl_u64_range C 1 (num ''confidential-upstream-timeout-secs'' 25)) (\<lambda>d. Some (mk a b c d)))))"

definition number_text :: "string list \<Rightarrow> string \<Rightarrow> nat \<Rightarrow> ustr" where
  "number_text args n d = (case option_text n args of None \<Rightarrow> chars (dec d) | Some s \<Rightarrow> chars s)"

lemma config_of_args:
  fixes K :: "string list \<Rightarrow> 'a clap" and prog :: string
  assumes reads: "clap_reads K" and known: "known_options args"
    and req: "option_text ''upstream-url'' args = Some ''http://127.0.0.1:1''" "option_text ''chain-id'' args = Some ''1''"
      "option_text ''max-body-bytes'' args = Some ''16''"
    and none: "\<And>n. n \<in> {''listen-addr'', ''dstack-endpoint'', ''key-path'', ''key-purpose''} \<Longrightarrow> option_text n args = None"
  defines "C \<equiv> K (prog # args)"
  shows "\<exists>mk. parses_by C (number_text args) mk"
proof -
  have law: "cl_usage C" "cl_text C name env = map_option chars (option_text name args)" "cl_flag C name env = Some False"
    "clap_numbers C" "cl_socket_addr C (chars ''0.0.0.0:8545'') \<noteq> None" for name env
    using reads known unfolding clap_reads_def C_def Let_def by blast+
  obtain addr where addr: "cl_socket_addr C (chars ''0.0.0.0:8545'') = Some addr" using law(5) by blast
  have "cl_usize C (chars (dec 16)) = Some 16" by (rule number_bounds(4)[OF law(4)]) (simp add: usize_max_def)
  then have body: "cl_usize C (chars ''16'') = Some 16" by (simp only: dec_texts)
  have cid: "validate_chain_id (chars ''1'') = Inr (chars ''1'')"
    by (rule chain_id_accepted) (simp_all add: chars_def is_ascii_graphic_def)
  have def_text: "arg_default C name env (dec d) p = p (number_text args name d)" for name env d and p :: "ustr \<Rightarrow> 'v option"
    by (simp add: arg_default_def law(2) number_text_def split: option.split)
  have plain: "arg_default C ''listen-addr'' ''SIDECAR_LISTEN_ADDR'' ''0.0.0.0:8545'' (cl_socket_addr C) = Some addr"
    "arg_default C ''key-path'' ''SIDECAR_KEY_PATH'' ''rpc-sign/v1'' Some = Some (chars ''rpc-sign/v1'')"
    by (simp_all add: arg_default_def law(2) none addr)
  let ?mk = "\<lambda>a b c d. \<lparr>listen_addr = addr, cfg_upstream_url = chars ''http://127.0.0.1:1'', cfg_chain_id = chars ''1'',
     dstack_endpoint = None, key_path = chars ''rpc-sign/v1'', key_purpose = None, cfg_max_body_bytes = Some 16,
     confidential_max_body_bytes = a, confidential_max_response_bytes = b, confidential_max_batch_size = c,
     confidential_upstream_timeout_secs = d, allow_empty_compose_hash = False\<rparr>"
  have "parses_by C (number_text args) ?mk"
    unfolding parses_by_def config_parse_def env_vars def_text plain
    by (simp add: law(1-3) arg_def arg_optional_def req none body cid)
  then show ?thesis by blast
qed

lemma args_prefix:
  "ARGS @ ext = ''rpc-attest-sidecar'' # tl ARGS @ ext" "known_options (tl ARGS @ ext) = known_options ext"
  "option_text ''upstream-url'' (tl ARGS @ ext) = Some ''http://127.0.0.1:1''" "option_text ''chain-id'' (tl ARGS @ ext) = Some ''1''"
  "option_text ''max-body-bytes'' (tl ARGS @ ext) = Some ''16''"
  by (simp_all add: ARGS_def option_names_def)

lemma args_other:
  "n \<in> {''listen-addr'', ''dstack-endpoint'', ''key-path'', ''key-purpose'', ''confidential-max-body-bytes'', ''confidential-max-response-bytes'',
     ''confidential-max-batch-size'', ''confidential-upstream-timeout-secs''} \<Longrightarrow> option_text n (tl ARGS @ ext) = option_text n ext"
  by (elim insertE emptyE) (simp_all add: ARGS_def)

text \<open>The same with options that set none of the texts.\<close>

definition numeric_only :: "string list \<Rightarrow> bool" where
  "numeric_only ext \<longleftrightarrow> known_options ext \<and>
     list_all (\<lambda>n. option_text n ext = None) [''listen-addr'', ''dstack-endpoint'', ''key-path'', ''key-purpose'']"

lemma config_with:
  assumes "clap_reads K" and "numeric_only ext"
  obtains C mk where "K (ARGS @ ext) = C" "clap_numbers C" "ranges_parse C" "parses_by C (number_text ext) mk"
proof -
  have known: "known_options (tl ARGS @ ext)" using assms(2) by (simp add: args_prefix(2) numeric_only_def)
  have none: "option_text n (tl ARGS @ ext) = None" if "n \<in> {''listen-addr'', ''dstack-endpoint'', ''key-path'', ''key-purpose''}" for n
    using that assms(2) by (elim insertE emptyE) (simp_all add: args_other numeric_only_def)
  have law: "clap_numbers (K (ARGS @ ext))" "ranges_parse (K (ARGS @ ext))"
    using assms(1) known unfolding clap_reads_def Let_def args_prefix(1)[of ext] by blast+
  obtain mk where "parses_by (K (ARGS @ ext)) (number_text (tl ARGS @ ext)) mk"
    using config_of_args[OF assms(1) known args_prefix(3-5)[of ext] none, of "''rpc-attest-sidecar''"]
    unfolding args_prefix(1)[of ext] by blast
  then have "parses_by (K (ARGS @ ext)) (number_text ext) mk"
    by (simp add: parses_by_def number_text_def args_other del: One_nat_def)
  then show thesis using that law by blast
qed

text \<open>The default texts and the texts the tests give, as the number parsers read them.\<close>

lemma number_texts:
  assumes "clap_numbers C"
  shows "cl_usize C (chars (dec 8388608)) = Some 8388608" "cl_usize C (chars (dec 134217728)) = Some 134217728"
    "cl_usize C (chars ''100'') = Some 100" "cl_usize C (chars ''13'') = Some 13"
    "cl_u16_range C 1 1000 (chars (dec 1000)) = Some 1000" "cl_u16_range C 1 1000 (chars (dec 1)) = Some 1"
    "cl_u64_range C 1 (chars (dec 25)) = Some 25" "cl_u64_range C 1 (chars (dec 1)) = Some 1"
proof -
  note n = number_bounds(4-6)[OF assms]
  show "cl_usize C (chars (dec 8388608)) = Some 8388608" "cl_usize C (chars (dec 134217728)) = Some 134217728"
    using n(1)[of 8388608] n(1)[of 134217728] by (simp_all add: usize_max_def)
  show "cl_usize C (chars ''100'') = Some 100" "cl_usize C (chars ''13'') = Some 13"
    using n(1)[of 100] n(1)[of 13] by (simp_all add: usize_max_def dec_texts)
  show "cl_u16_range C 1 1000 (chars (dec 1000)) = Some 1000" "cl_u16_range C 1 1000 (chars (dec 1)) = Some 1"
    using n(2)[of 1 "1000 :: u16" 1000] n(2)[of 1 "1 :: u16" 1000] by simp_all
  show "cl_u64_range C 1 (chars (dec 25)) = Some 25" "cl_u64_range C 1 (chars (dec 1)) = Some 1"
    using n(3)[of 1 "25 :: u64"] n(3)[of 1 "1 :: u64"] by simp_all
qed

lemma exts:
  "numeric_only []" "numeric_only [''--confidential-max-body-bytes'', ''100'']" "numeric_only [''--confidential-max-response-bytes'', ''13'']"
  "numeric_only [''--confidential-max-batch-size='' @ v]" "numeric_only [''--confidential-upstream-timeout-secs='' @ v]"
  by (simp_all add: numeric_only_def option_names_def)

lemma config_default:
  assumes "clap_reads K"
  obtains cfg where "config_parse (K ARGS) = Some cfg" "confidential_max_body_bytes cfg = 8388608" "cfg_max_body_bytes cfg = Some 16"
    "confidential_max_response_bytes cfg = 134217728" "confidential_max_batch_size cfg = 1000" "confidential_upstream_timeout_secs cfg = 25"
proof (rule config_with[OF assms exts(1), unfolded append_Nil2])
  fix C mk
  assume "K ARGS = C" "clap_numbers C" "parses_by C (number_text []) mk"
  then show thesis
    by (intro that[of "mk 8388608 134217728 1000 25"]) (simp_all add: parses_by_def number_text_def number_texts del: One_nat_def)
qed

lemma config_envs [simp]:
  "get_env ''confidential_max_response_bytes'' = Some ''SIDECAR_CONFIDENTIAL_MAX_RESPONSE_BYTES''"
  "get_env ''confidential_max_batch_size'' = Some ''SIDECAR_CONFIDENTIAL_MAX_BATCH_SIZE''"
  "get_env ''confidential_upstream_timeout_secs'' = Some ''SIDECAR_CONFIDENTIAL_UPSTREAM_TIMEOUT_SECS''"
  by (simp_all add: get_env_def config_command_def)

lemma config_cap_tests:
  assumes "clap_reads K"
  shows "confidential_cap_defaults_to_8_mib_independent_of_max_body_bytes K"
    "confidential_response_cap_defaults_to_128_mib_independent_of_max_body_bytes K"
proof -
  have "given (config_parse (K (ARGS @ [''--confidential-max-body-bytes'', ''100'']))) (\<lambda>cfg. confidential_max_body_bytes cfg = 100)"
    by (rule config_with[OF assms exts(2)]) (simp add: parses_by_def number_text_def number_texts del: One_nat_def)
  moreover have "given (config_parse (K (ARGS @ [''--confidential-max-response-bytes'', ''13'']))) (\<lambda>cfg. confidential_max_response_bytes cfg = 13)"
    by (rule config_with[OF assms exts(3)]) (simp add: parses_by_def number_text_def number_texts del: One_nat_def)
  ultimately show "confidential_cap_defaults_to_8_mib_independent_of_max_body_bytes K"
    "confidential_response_cap_defaults_to_128_mib_independent_of_max_body_bytes K"
    by (auto intro: config_default[OF assms] simp: confidential_cap_defaults_to_8_mib_independent_of_max_body_bytes_def
        confidential_response_cap_defaults_to_128_mib_independent_of_max_body_bytes_def)
qed

lemma config_batch_test:
  assumes "clap_reads K"
  shows "confidential_max_batch_size_defaults_to_1000_within_1_to_1000 K"
proof -
  have ok: "given (config_parse (K (ARGS @ [''--confidential-max-batch-size='' @ dec (unat v)]))) (\<lambda>cfg. confidential_max_batch_size cfg = v)"
    if "1 \<le> unat v" "unat v \<le> 1000" for v
    by (rule config_with[OF assms exts(4)[of "dec (unat v)"]])
      (use that in \<open>simp add: parses_by_def number_text_def number_texts number_bounds(5) del: One_nat_def\<close>)
  have bad: "config_parse (K (ARGS @ [''--confidential-max-batch-size='' @ s])) = None"
    if "\<forall>n. parse_i64 s = Some n \<longrightarrow> n < 1 \<or> 1000 < n" for s
  proof (rule config_with[OF assms exts(4)[of s]])
    fix C mk
    assume C: "K (ARGS @ [''--confidential-max-batch-size='' @ s]) = C" "clap_numbers C" "ranges_parse C"
      "parses_by C (number_text [''--confidential-max-batch-size='' @ s]) mk"
    have "cl_u16_range C 1 1000 (chars s) = None"
    proof (rule ccontr)
      assume "cl_u16_range C 1 1000 (chars s) \<noteq> None"
      then obtain v where v: "cl_u16_range C 1 1000 (chars s) = Some v" by blast
      then have "parse_i64 s = Some (int (unat v))" using C(3) unfolding ranges_parse_def by blast
      then have "int (unat v) < 1 \<or> 1000 < int (unat v)" using that by blast
      moreover have "1 \<le> unat v \<and> unat v \<le> 1000" by (rule number_bounds(2)[OF C(2) v])
      ultimately show False by linarith
    qed
    then show ?thesis using C by (simp add: parses_by_def number_text_def number_texts del: One_nat_def)
  qed
  have "list_all (\<lambda>s. \<forall>n. parse_i64 s = Some n \<longrightarrow> n < 1 \<or> 1000 < n) [''0'', ''1001'', ''5000'', ''-1'', ''x'']"
    by (simp add: parse_i64_def is_digit_def dec_value_def)
  then have "list_all (\<lambda>s. config_parse (K (ARGS @ [''--confidential-max-batch-size='' @ s])) = None) [''0'', ''1001'', ''5000'', ''-1'', ''x'']"
    by (rule list.pred_mono_strong) (rule bad)
  moreover have "given (config_parse (K ARGS)) (\<lambda>cfg. confidential_max_batch_size cfg = 1000)"
    by (rule config_default[OF assms]) simp
  ultimately show ?thesis
    using ok[of 1] ok[of 1000] unfolding confidential_max_batch_size_defaults_to_1000_within_1_to_1000_def Let_def by simp
qed

lemma config_timeout_test:
  assumes "clap_reads K"
  shows "confidential_upstream_timeout_defaults_to_25_s K"
proof -
  have "given (config_parse (K (ARGS @ [''--confidential-upstream-timeout-secs='' @ ''1'']))) (\<lambda>cfg. confidential_upstream_timeout_secs cfg = 1)"
    by (rule config_with[OF assms exts(5)[of "''1''"]])
      (simp add: parses_by_def number_text_def number_texts number_texts(8)[unfolded dec_texts] del: One_nat_def)
  moreover have "config_parse (K (ARGS @ [''--confidential-upstream-timeout-secs='' @ ''0''])) = None"
  proof (rule config_with[OF assms exts(5)[of "''0''"]])
    fix C mk
    assume C: "K (ARGS @ [''--confidential-upstream-timeout-secs='' @ ''0'']) = C" "clap_numbers C" "ranges_parse C"
      "parses_by C (number_text [''--confidential-upstream-timeout-secs='' @ ''0'']) mk"
    have "parse_u64 ''0'' = Some 0" by (simp add: parse_u64_def is_digit_def dec_value_def u64_try_from_def)
    then have "cl_u64_range C 1 (chars ''0'') = None"
      using C(3) number_bounds(3)[OF C(2), of 1 "chars ''0''"] unfolding ranges_parse_def by (cases "cl_u64_range C 1 (chars ''0'')") fastforce+
    then show ?thesis using C by (simp add: parses_by_def number_text_def number_texts del: One_nat_def)
  qed
  moreover have "given (config_parse (K ARGS)) (\<lambda>cfg. confidential_upstream_timeout_secs cfg = 25)"
    by (rule config_default[OF assms]) simp
  ultimately show ?thesis by (simp add: confidential_upstream_timeout_defaults_to_25_s_def Let_def)
qed

section \<open>All modules\<close>

definition signing_tests :: "hex_crate \<Rightarrow> sig_api \<Rightarrow> 'c hpke_api \<Rightarrow> int \<Rightarrow> bool" where
  "signing_tests X G H clock \<longleftrightarrow>
     pre_image_layout_is_byte_exact \<and> sign_verify_roundtrip_passes_for_intact_body X G H \<and>
     sign_verify_fails_when_response_body_is_tampered X G H \<and> sign_with_caip2_style_chain_id_verifies X G H \<and>
     distinct_chain_ids_never_cross_verify X G H \<and> sign_treats_batch_and_single_uniformly X G H \<and>
     pubkey_hex_is_0x_prefixed_lowercase_64_chars X G H \<and> pubkey_hex_is_cached_and_matches_pubkey_bytes X G H \<and>
     signed_response_carries_cached_pubkey_hex X G H \<and> signature_hex_is_0x_prefixed_64_byte_hex X G H \<and>
     from_dstack_bytes_accepts_exact_32_bytes X G H \<and> from_dstack_bytes_rejects_non_32_byte_input X G H \<and>
     from_dstack_bytes_rejects_short_input X G H \<and> now_ms_returns_plausible_unix_millis clock \<and>
     sign_returns_ok_when_clock_is_usable X G H clock \<and> validate_chain_id_accepts_valid_ids \<and>
     validate_chain_id_rejects_invalid_ids \<and> mismatched_kem_key_is_rejected G H"

definition attestation_tests ::
  "hex_crate \<Rightarrow> 'q dstack \<Rightarrow> (string \<Rightarrow> string \<Rightarrow> string \<Rightarrow> string \<Rightarrow> 'q) \<Rightarrow> (json \<Rightarrow> string) \<Rightarrow>
   (ustr \<Rightarrow> string + ustr option) \<Rightarrow> bool" where
  "attestation_tests X D mk json_string from_str \<longleftrightarrow>
     attestation_response_nests_sdk_quote_and_renames_compose_hash D mk json_string \<and>
     query_string_deserialises_into_attestation_query X from_str \<and> query_string_with_no_nonce_key_yields_none X from_str \<and>
     query_string_with_empty_value_yields_some_empty X from_str \<and>
     report_data_layout_is_64_bytes_pubkey_nonce \<and> parse_user_nonce_accepts_with_or_without_prefix X \<and>
     parse_user_nonce_rejects_wrong_length X \<and> extract_nonce_errors_when_absent X \<and>
     extract_nonce_reads_query_parameter X \<and> extract_nonce_propagates_parse_error_for_bad_hex X \<and>
     extract_nonce_propagates_parse_error_for_wrong_length X \<and> extract_nonce_rejects_empty_string_value X \<and>
     parse_user_nonce_accepts_uppercase_hex X \<and> parse_user_nonce_accepts_uppercase_0x_prefix X \<and>
     parse_user_nonce_rejects_odd_length_hex X \<and> parse_user_nonce_trims_surrounding_whitespace X \<and>
     resolve_compose_hash_returns_value_when_present \<and> resolve_compose_hash_errors_when_empty_and_not_allowed \<and>
     resolve_compose_hash_returns_empty_when_explicitly_allowed"

definition proxy_tests ::
  "hex_crate \<Rightarrow> sig_api \<Rightarrow> 'c hpke_api \<Rightarrow> http_api \<Rightarrow> (uri \<Rightarrow> string) \<Rightarrow> runtime \<Rightarrow> runtime \<Rightarrow> string \<Rightarrow>
   (bytes \<Rightarrow> string option) \<Rightarrow> int \<Rightarrow> bool" where
  "proxy_tests X G H P to_string listening refusing addr utf8_text clock \<longleftrightarrow>
     hop_by_hop_headers_recognised \<and> hop_by_hop_check_is_case_insensitive \<and> end_to_end_headers_pass_through \<and>
     upstream_client_is_cheap_to_clone P \<and> upstream_client_rejects_malformed_url_at_construction P \<and>
     request_hop_by_hop_headers_stripped_to_upstream X G H P listening addr clock \<and>
     upstream_connection_refused_returns_502 X G H P refusing utf8_text clock \<and>
     upstream_uri_is_base_plus_request_path_and_query P to_string \<and> upstream_uri_preserves_configured_base_path P to_string \<and>
     upstream_uri_base_trailing_slash_not_doubled P to_string \<and> upstream_uri_ignores_base_query P to_string \<and>
     upstream_uri_preserves_jsonrpc_path P to_string \<and> upstream_uri_forwards_root_path P to_string"

definition config_tests :: "(string list \<Rightarrow> 'a clap) \<Rightarrow> bool" where
  "config_tests K \<longleftrightarrow>
     confidential_cap_defaults_to_8_mib_independent_of_max_body_bytes K \<and>
     confidential_max_batch_size_defaults_to_1000_within_1_to_1000 K \<and>
     confidential_upstream_timeout_defaults_to_25_s K \<and>
     confidential_response_cap_defaults_to_128_mib_independent_of_max_body_bytes K"


section \<open>An instance\<close>

text \<open>A signature that samples every hash of the pre-image, and a Montgomery form that is the clamped key.\<close>

definition sampled :: "bytes \<Rightarrow> bytes" where
  "sampled m = pad 64 (take 16 m @ take 16 (drop 32 m) @ take 16 (drop 64 m) @ take 16 (drop 96 m))"

definition test_sig :: sig_api where
  "test_sig = demo_sig\<lparr>ed_sign := (\<lambda>seed m. sampled m), ed_verify := (\<lambda>pk m s. s = sampled m),
     to_montgomery := derive_kem_secret demo_sig\<rparr>"

definition test_uri_parse :: "ustr \<Rightarrow> uri option" where
  "test_uri_parse s =
     (if 32 \<in> set s then None
      else if take 7 s = chars ''http://'' then
        let r = drop 7 s; a = takeWhile (\<lambda>c. c \<noteq> 47 \<and> c \<noteq> 63) r; pq = drop (length a) r; p = takeWhile (\<lambda>c. c \<noteq> 63) pq
        in Some \<lparr>u_scheme = Some (ascii ''http''), u_authority = Some (map of_nat a),
                 u_path = map of_nat (if p = [] then [47] else p), u_path_and_query = Some (map of_nat pq)\<rparr>
      else Some \<lparr>u_scheme = None, u_authority = None, u_path = map of_nat (takeWhile (\<lambda>c. c \<noteq> 63) s),
                 u_path_and_query = Some (map of_nat s)\<rparr>)"

definition test_http :: http_api where
  "test_http = demo_http\<lparr>uri_parse := test_uri_parse\<rparr>"

definition test_show :: "uri \<Rightarrow> string" where
  "test_show u = ''http://'' @ map (\<lambda>b. char_of (unat b)) (the (u_authority u)) @ map (\<lambda>b. char_of (unat b)) (the (u_path_and_query u))"

definition test_clap :: "string list \<Rightarrow> ustr clap" where
  "test_clap args = demo_clap\<lparr>cl_text := \<lambda>name env. map_option chars (option_text name (tl args))\<rparr>"

fun test_json :: "json \<Rightarrow> string" where
  "test_json (JString s) = ''\"'' @ json_escape (map char_of s) @ ''\"''"
| "test_json (JObject fs) = ''{'' @ comma_separated (map (\<lambda>(k, v). ''\"'' @ k @ ''\":'' @ test_json v) fs) @ ''}''"

definition test_dstack :: "(string \<times> string \<times> string \<times> string) dstack" where
  "test_dstack = \<lparr>ds_get_key = (\<lambda>p u. Never), ds_info = Never, ds_info_json = (\<lambda>i. None), ds_get_quote = (\<lambda>d. Never),
     ds_quote_json = (\<lambda>(q, e, r, v). JObject [(''quote'', JString (chars q)), (''event_log'', JString (chars e)),
        (''report_data'', JString (chars r)), (''vm_config'', JString (chars v))])\<rparr>"

definition test_query :: "ustr \<Rightarrow> string + ustr option" where
  "test_query s = Inr (if take 6 s = chars ''nonce='' then Some (drop 6 s) else None)"

lemma test_codecs: "json_compact test_json" "sdk_quote test_dstack (\<lambda>q e r v. (q, e, r, v))" "urlencoded test_query"
proof -
  have "test_json (JString (chars s)) = ''\"'' @ json_escape s @ ''\"''" for s by simp
  then show "json_compact test_json" unfolding json_compact_def by simp
  show "sdk_quote test_dstack (\<lambda>q e r v. (q, e, r, v))" by (simp add: sdk_quote_def test_dstack_def)
  have "take 6 (chars ''nonce='' @ v) = chars ''nonce=''" "drop 6 (chars ''nonce='' @ v) = v" for v
    by (simp_all add: chars_def)
  moreover have "take 6 (chars ''other=value'') \<noteq> chars ''nonce=''" by (simp add: chars_def)
  ultimately show "urlencoded test_query" by (simp add: urlencoded_def test_query_def)
qed

definition test_refusing :: runtime where
  "test_refusing = demo_runtime\<lparr>network := \<lambda>r. Ready 1 (Inl ())\<rparr>"

lemma test_hex: "hex_pairs demo_hex"
proof -
  have "hex_decode demo_hex = demo_hex_decode" by (simp add: demo_hex_def)
  then show ?thesis unfolding hex_pairs_def by (simp only: demo_hex_decode.simps simp_thms)
qed

lemma test_sig_laws: "sha256_len test_sig" "ed_correct test_sig" "seed_agrees test_sig demo_hpke seed"
proof -
  show "sha256_len test_sig" "ed_correct test_sig"
    by (simp_all add: sha256_len_def ed_correct_def test_sig_def demo_sig_def sampled_def)
  have "length (derive_kem_secret demo_sig seed) = 32" by (simp add: derive_kem_secret_def demo_sig_def Let_def)
  moreover have "derive_kem_secret test_sig seed = derive_kem_secret demo_sig seed"
    "derive_kem_secret demo_sig (pad 32 seed) = derive_kem_secret demo_sig seed"
    by (simp_all add: derive_kem_secret_def test_sig_def demo_sig_def pad_id)
  ultimately show "seed_agrees test_sig demo_hpke seed"
    by (simp add: seed_agrees_def public_key_def demo_hpke_def pad_id test_sig_def)
       (simp add: demo_sig_def)
qed

lemma test_no_accident: "no_accident test_sig"
proof -
  have sha: "sha256 test_sig b = pad 32 b" "sha256_digest test_sig b = pad 32 b" for b
    by (simp_all add: sha256_def test_sig_def demo_sig_def)
  have pre: "sampled (build_pre_image (pad 32 c) (pad 32 q) (pad 32 r) t) =
      pad 64 (take 16 (pad 32 c) @ take 16 (pad 32 q) @ take 16 (pad 32 r) @ to_le_bytes 8 t)" for c q r t
    by (simp add: build_pre_image_eq sampled_def)
  have "ed_binding test_sig seed m m' \<longleftrightarrow> (sampled m = sampled m' \<longrightarrow> m' = m)" for seed m m'
    by (simp add: ed_binding_def test_sig_def)
  then show ?thesis
    by (simp add: no_accident_def Let_def sha pre no_collision_def)
       (simp add: pad_def ascii_def numeral_eq_Suc)
qed

lemma uri_codes: "uri_char c \<Longrightarrow> of_char c \<noteq> (32 :: nat) \<and> of_char c \<noteq> (47 :: nat) \<and> of_char c \<noteq> (63 :: nat)"
  by (auto simp: uri_char_def)

lemma ascii_chars: "map of_nat (chars s) = ascii s"
  by (simp add: ascii_def chars_def)

lemma ascii_back: "map (\<lambda>b. char_of (unat b)) (ascii s) = s"
proof -
  have "unat (of_nat (of_char c) :: byte) = of_char c" for c :: char
    by (simp add: unsigned_of_nat take_bit_eq_mod)
  then show ?thesis by (induction s) (simp_all add: ascii_def)
qed

lemma path_codes:
  assumes "path_text p" and "query_text q"
  shows "32 \<notin> set (chars (p @ q))" "takeWhile (\<lambda>c. c \<noteq> 63) (chars (p @ q)) = chars p"
    "takeWhile (\<lambda>c. c \<noteq> 47 \<and> c \<noteq> 63) (chars (p @ q)) = []"
proof -
  have p: "\<forall>c \<in> set (chars p). c \<noteq> 32 \<and> c \<noteq> 63"
    using assms(1) uri_codes by (fastforce simp: path_text_def list_all_iff chars_def)
  have q: "q = [] \<or> (\<exists>q'. q = CHR ''?'' # q' \<and> list_all uri_char q')"
    using assms(2) by (cases q) (auto simp: query_text_def)
  then have "\<forall>c \<in> set (chars q). c \<noteq> 32" using uri_codes by (fastforce simp: list_all_iff chars_def)
  then show "32 \<notin> set (chars (p @ q))" using p by (auto simp: chars_append)
  have "takeWhile (\<lambda>c. c \<noteq> 63) (chars q) = []" using q by (auto simp: chars_def)
  then show "takeWhile (\<lambda>c. c \<noteq> 63) (chars (p @ q)) = chars p"
    using p by (simp add: chars_append takeWhile_append)
  show "takeWhile (\<lambda>c. c \<noteq> 47 \<and> c \<noteq> 63) (chars (p @ q)) = []"
    using assms(1) q by (cases p) (auto simp: path_text_def chars_def)
qed

lemma test_absolute:
  assumes "list_all uri_char a" and "path_text p" and "query_text q"
  shows "test_uri_parse (chars (''http://'' @ a @ p @ q)) = Some \<lparr>u_scheme = Some (ascii ''http''), u_authority = Some (ascii a),
     u_path = ascii (if p = [] then ''/'' else p), u_path_and_query = Some (ascii (p @ q))\<rparr>"
proof -
  have a: "\<forall>c \<in> set (chars a). c \<noteq> 32 \<and> c \<noteq> 47 \<and> c \<noteq> 63"
    using assms(1) uri_codes by (fastforce simp: list_all_iff chars_def)
  let ?s = "chars (''http://'' @ a @ p @ q)"
  have split: "?s = chars ''http://'' @ chars a @ chars (p @ q)" by (simp only: chars_append append_assoc)
  have "length (chars ''http://'') = 7" by (simp add: chars_def)
  then have s: "take 7 ?s = chars ''http://''" "drop 7 ?s = chars a @ chars (p @ q)" unfolding split by simp_all
  have "32 \<notin> set (chars ''http://'')" by (simp add: chars_def)
  then have ok: "32 \<notin> set ?s" unfolding split using a path_codes(1)[OF assms(2,3)] by auto
  have auth: "takeWhile (\<lambda>c. c \<noteq> 47 \<and> c \<noteq> 63) (chars a @ chars (p @ q)) = chars a"
    using a path_codes(3)[OF assms(2,3)] by (simp add: takeWhile_append)
  have slash: "(if chars p = [] then [47] else chars p) = chars (if p = [] then ''/'' else p)"
    by (simp add: chars_def)
  show ?thesis
    unfolding test_uri_parse_def s Let_def auth
    by (simp only: ok drop_append append_eq_conv_conj if_False if_True refl simp_thms
        append_Nil drop_all order.refl diff_self_eq_0 drop_0 path_codes(2)[OF assms(2,3)] slash ascii_chars)
qed

lemma test_origin:
  assumes "p \<noteq> []" and "path_text p" and "query_text q"
  shows "\<exists>u. test_uri_parse (chars (p @ q)) = Some u \<and> u_path_and_query u = Some (ascii (p @ q))"
proof -
  obtain p' where "p = CHR ''/'' # p'" using assms(1,2) by (cases p) (auto simp: path_text_def)
  then have "take 7 (chars (p @ q)) \<noteq> chars ''http://''" by (simp add: chars_def)
  then show ?thesis
    using path_codes(1)[OF assms(2,3)] by (simp add: test_uri_parse_def ascii_chars)
qed

lemma test_uri_rules: "uri_rules test_http test_show"
proof -
  have start: "take (Suc 0) (ascii (p @ q)) = [47]" if "p \<noteq> []" "path_text p" for p q
    using that by (cases p) (auto simp: path_text_def ascii_def)
  have join: "\<exists>u. uri_from_parts test_http (Some (ascii ''http'')) (Some (ascii a)) (Some (ascii (p @ q))) = Some u \<and>
      test_show u = ''http://'' @ a @ p @ q" for a p q
    by (simp add: test_http_def demo_http_def test_show_def ascii_back del: ascii_append)
  have parse: "uri_parse test_http = test_uri_parse" by (simp add: test_http_def)
  have pq: "path_and_query_try_from test_http (ascii (p @ q)) = Some (ascii (p @ q))" if "p \<noteq> []" "path_text p" for p q
    using start[OF that] by (simp add: test_http_def demo_http_def del: ascii_append)
  show ?thesis
    unfolding uri_rules_def parse
  proof (intro conjI allI impI)
    fix a p q assume "list_all uri_char a" "path_text p" "query_text q"
    from test_absolute[OF this]
    show "\<exists>u. test_uri_parse (chars (''http://'' @ a @ p @ q)) = Some u \<and> u_scheme u = Some (ascii ''http'') \<and>
      u_authority u = Some (ascii a) \<and> u_path u = ascii (if p = [] then ''/'' else p)"
      by (intro exI conjI, assumption) simp_all
  next
    fix s :: ustr assume "32 \<in> set s"
    then show "test_uri_parse s = None" by (simp add: test_uri_parse_def)
  qed (use test_origin join pq in blast)+
qed

lemma test_clap_reads: "clap_reads test_clap"
proof -
  have numbers: "clap_numbers (test_clap args)" for args
    using demo_clap_numbers by (simp add: clap_numbers_def test_clap_def)
  have digits: "list_all (\<lambda>c. 48 \<le> c \<and> c \<le> 57) (chars s) \<longleftrightarrow> list_all is_digit s" for s
    by (induction s) (simp_all add: chars_def is_digit_def)
  have val: "foldl (\<lambda>a c. 10 * a + (c - 48)) 0 (chars s) = dec_value s" for s
  proof -
    have "foldl (\<lambda>a c. 10 * a + (c - 48)) a (chars s) = foldl (\<lambda>a c. 10 * a + (of_char c - 48)) a s" for a
      by (induction s arbitrary: a) (simp_all add: chars_def)
    then show ?thesis by (simp add: dec_value_def)
  qed
  have read: "n = dec_value s \<and> s \<noteq> [] \<and> list_all is_digit s" if "read_number (chars s) = Some n" for n s
  proof -
    have "chars s = [] \<longleftrightarrow> s = []" by (simp add: chars_def)
    then show ?thesis using that unfolding read_number_def digits val by (simp split: if_split_asm)
  qed
  have head: "s \<noteq> [] \<and> list_all is_digit s \<Longrightarrow> take 1 s \<noteq> ''-'' \<and> take 1 s \<noteq> ''+''" for s
    by (cases s) (auto simp: is_digit_def)
  have i64: "parse_i64 s = Some (int n)" if "read_number (chars s) = Some n" "n \<le> 65535" for n s
    using read[OF that(1)] head[of s] that(2) by (simp add: parse_i64_def)
  have u64: "parse_u64 s = Some (of_nat n)" if "read_number (chars s) = Some n" "n \<le> usize_max" for n s
    using read[OF that(1)] head[of s] that(2)
    by (cases s) (auto simp: parse_u64_def u64_try_from_def usize_max_def)
  have "ranges_parse (test_clap args)" for args
    unfolding ranges_parse_def
  proof (intro conjI allI impI)
    fix lo hi s v assume "cl_u16_range (test_clap args) lo hi (chars s) = Some v"
    then obtain n where n: "read_number (chars s) = Some n" "n \<le> 65535" "v = of_nat n"
      by (auto simp: test_clap_def demo_clap_def within_def bind_eq_Some_conv split: if_split_asm)
    then have "unat v = n" by (simp add: unat_of_nat take_bit_eq_mod)
    then show "parse_i64 s = Some (int (unat v))" using i64[OF n(1,2)] by simp
  next
    fix lo s v assume "cl_u64_range (test_clap args) lo (chars s) = Some v"
    then obtain n where n: "read_number (chars s) = Some n" "n \<le> usize_max" "v = of_nat n"
      by (auto simp: test_clap_def demo_clap_def within_def bind_eq_Some_conv split: if_split_asm)
    then show "parse_u64 s = Some v" using u64[OF n(1,2)] by simp
  qed
  then show ?thesis
    using numbers by (simp add: clap_reads_def Let_def) (simp add: test_clap_def demo_clap_def)
qed


end
