(* ===== verification/Vectors.thy ===== *)
theory Vectors
  imports Http_Tests
begin

text \<open>
  The recorded vectors (\<open>src/tests/vectors/confidential.json\<close>, made with Go, and RFC 9458 appendix A) and the unit tests
  of \<open>envelope.rs\<close> and \<open>signing.rs\<close> that use them.  A vector lists what the primitives compute on its inputs: the
  HPKE opening and export, the HKDF outputs, the AES-GCM ciphertext.  For crates that compute these values
  (\<open>reproduces\<close>) the framing code yields the recorded bytes: the header, the HPKE info string, the salt, the
  labels and the order of the parts are those of the other implementation.
\<close>

section \<open>The vectors\<close>

record envelope_vector =
  ev_skR :: string
  ev_pkR :: string
  ev_method :: string
  ev_path :: string
  ev_fields :: "(string \<times> string) list"
  ev_body :: string
  ev_bhttp_request :: string
  ev_info :: string
  ev_enc :: string
  ev_encapsulated_request :: string
  ev_export_secret :: string
  ev_status :: nat
  ev_response_fields :: "(string \<times> string) list"
  ev_response_body :: string
  ev_bhttp_response :: string
  ev_response_nonce :: string
  ev_aead_key :: string
  ev_aead_nonce :: string
  ev_encapsulated_response :: string

definition post_json_rpc :: envelope_vector where
  "post_json_rpc =
     \<lparr>ev_skR = ''683cd62939133d434f463c517cac2b5e22c1b77338d9367361100d4c82dcdc4c'',
      ev_pkR = ''6ffa23f97ea11199a707e64f994c231f18bb61ee34f6fb05bbeabf4d140d0456'',
      ev_method = ''POST'', ev_path = ''/'',
      ev_fields = [(''content-type'', ''application/json'')],
      ev_body = ''{\"jsonrpc\":\"2.0\",\"id\":1,\"method\":\"eth_blockNumber\",\"params\":[]}'',
      ev_bhttp_request =
        ''0004504f5354056874747073096c6f63616c686f7374012f1e0c636f6e74656e742d74797065106170706c6963617469'' @
        ''6f6e2f6a736f6e3f7b226a736f6e727063223a22322e30222c226964223a312c226d6574686f64223a226574685f626c'' @
        ''6f636b4e756d626572222c22706172616d73223a5b5d7d00'',
      ev_info = ''6d6573736167652f626874747020726571756573740000002000010002'',
      ev_enc = ''2a92b7344e112cbbc2c1674b413a5a35399a978e14abc40dfd36b4affbe24264'',
      ev_encapsulated_request =
        ''000020000100022a92b7344e112cbbc2c1674b413a5a35399a978e14abc40dfd36b4affbe2426452d4af2e398d6dc0be'' @
        ''caa0b25dfe53b3f0fe67aa3b8e6b6e81c3f86587cac57fac8b4de7a710b21bf4214cea0e9c1209bdd727011ed1ea903c'' @
        ''4da26af4ddae109e246bd22c150e45ff9d9df55dfefcaab61a1119ad6a43a043316b5e80a4b4b14a27d5d9632a7d3101'' @
        ''0497683232147fbcfe426c8569ed9075071141b98a0acc085ed8050026482e'',
      ev_export_secret = ''c11beede82991480946911b3dda55a4a705d2a5e43467d1acafe331acb3d24f6'',
      ev_status = 200, ev_response_fields = [(''content-type'', ''application/json'')],
      ev_response_body = ''{\"jsonrpc\":\"2.0\",\"id\":1,\"result\":\"0x10\"}'',
      ev_bhttp_response =
        ''0140c81e0c636f6e74656e742d74797065106170706c69636174696f6e2f6a736f6e287b226a736f6e727063223a2232'' @
        ''2e30222c226964223a312c22726573756c74223a2230783130227d00'',
      ev_response_nonce = ''0cd87274d67084caaf0e0d36c8496db7fef55fe0e125750aa608d5e20ffc2d12'',
      ev_aead_key = ''babd50e320be0320fd5055c2d51acc847ccd5cc0fd0197c41592669a5d5c8642'',
      ev_aead_nonce = ''031879ac297535b27a496e76'',
      ev_encapsulated_response =
        ''0cd87274d67084caaf0e0d36c8496db7fef55fe0e125750aa608d5e20ffc2d12f7bc127ee6055b8ca0e8a6639db6781a'' @
        ''e18f494e8109c70a66da626596242ac0ec1750e8567fc204dcaf03e12e52066ff95ed371750eb3c8d7efe4e93ac13c57'' @
        ''f7422466a08e3149874feb5e5c252cd0fffb348006c7fb963ea2ae6c''\<rparr>"

definition inner_error_bad_request :: envelope_vector where
  "inner_error_bad_request =
     \<lparr>ev_skR = ''683cd62939133d434f463c517cac2b5e22c1b77338d9367361100d4c82dcdc4c'',
      ev_pkR = ''6ffa23f97ea11199a707e64f994c231f18bb61ee34f6fb05bbeabf4d140d0456'',
      ev_method = ''POST'', ev_path = ''@evil.example/x'',
      ev_fields = [(''content-type'', ''application/json'')],
      ev_body = ''{\"jsonrpc\":\"2.0\",\"id\":1,\"method\":\"eth_blockNumber\",\"params\":[]}'',
      ev_bhttp_request =
        ''0004504f5354056874747073096c6f63616c686f73740f406576696c2e6578616d706c652f781e0c636f6e74656e742d'' @
        ''74797065106170706c69636174696f6e2f6a736f6e3f7b226a736f6e727063223a22322e30222c226964223a312c226d'' @
        ''6574686f64223a226574685f626c6f636b4e756d626572222c22706172616d73223a5b5d7d00'',
      ev_info = ''6d6573736167652f626874747020726571756573740000002000010002'',
      ev_enc = ''ce083a23682c9d8d00430b0289dce6dd59fed5dcb906d9e66f1148ded2722043'',
      ev_encapsulated_request =
        ''00002000010002ce083a23682c9d8d00430b0289dce6dd59fed5dcb906d9e66f1148ded27220437bcb8986796bd0e4ab'' @
        ''446025d0d96bc54279dca9d12eb99e681ac20ab6c7601b1fe68e8d22a7203c29f73eb9c0a7639cd611c39703558e3ff6'' @
        ''bda43a56e317d7d47d286f02b6329a12604b533bbf2c9083f260aedb1bdf1ef5b6ab4bd4175d58e4c13963298af457f9'' @
        ''60bf4899b2949fb445989459a2866d2640041e2d6d4c66cdfd6da4146790d44e4e4f604630aca405bd1d014fd6'',
      ev_export_secret = ''5854667f097cc126548eb0bef27accb70d3d56f49f0247d9ef4fb13164b47d0f'',
      ev_status = 400, ev_response_fields = [(''content-type'', ''application/problem+json'')],
      ev_response_body = ''{\"type\":\"urn:vrpc:error:bad-request\",\"title\":\"Bad request\"}'',
      ev_bhttp_response =
        ''014190260c636f6e74656e742d74797065186170706c69636174696f6e2f70726f626c656d2b6a736f6e3b7b22747970'' @
        ''65223a2275726e3a767270633a6572726f723a6261642d72657175657374222c227469746c65223a2242616420726571'' @
        ''75657374227d00'',
      ev_response_nonce = ''3a311de85bcdb3207b7c831d1c902015740489ea155426385fb678d710f367fb'',
      ev_aead_key = ''5f8c53c37c9be2ff00416c2814e26f158a84f20f9a5e596301f47b4d436b3218'',
      ev_aead_nonce = ''0f1b831c59e168f2290a577b'',
      ev_encapsulated_response =
        ''3a311de85bcdb3207b7c831d1c902015740489ea155426385fb678d710f367fbeb379e3311fc2c8470d17a47dd8ce6d5'' @
        ''d73a6369eaba6e0f9dba43023235c53560cbf07c278a0482b9dec81879784d4ef78dc99eef5313843a8efca128046839'' @
        ''0fecc456d2c927b61a167b9aaf1c370b835d0959d4fb01b85b3a1f444b9e5a0a8dadcf220d0171754d08b6d5d0078ca5'' @
        ''594792326a0fb9''\<rparr>"

definition envelopes :: "envelope_vector list" where
  "envelopes = [post_json_rpc, inner_error_bad_request]"

section \<open>Hexadecimal text\<close>

text \<open>The bytes that hexadecimal text stands for; \<open>test_hex_text\<close> and \<open>test_key\<close> are the helpers \<open>h\<close> and \<open>key\<close> of the tests,
  which panic on other text.\<close>

definition is_hex :: "string \<Rightarrow> bool" where
  "is_hex s \<longleftrightarrow> demo_hex_decode (ascii s) \<noteq> None"

definition unhex :: "string \<Rightarrow> bytes" where
  "unhex s = (case demo_hex_decode (ascii s) of Some bs \<Rightarrow> bs | None \<Rightarrow> [])"

definition test_hex_text :: "hex_crate \<Rightarrow> string \<Rightarrow> (bytes \<Rightarrow> bool) \<Rightarrow> bool" where
  "test_hex_text X s t = (case hex_decode X (ascii s) of Some bs \<Rightarrow> t bs | None \<Rightarrow> False)"

definition test_key :: "hex_crate \<Rightarrow> string \<Rightarrow> (bytes \<Rightarrow> bool) \<Rightarrow> bool" where
  "test_key X s t = test_hex_text X s (\<lambda>bs. length bs = 32 \<and> t bs)"

lemma hex_pairs_decode:
  assumes "hex_pairs X"
  shows "hex_decode X s = demo_hex_decode s"
  using assms by (induction s rule: induct_list012) (simp_all add: hex_pairs_def cong: option.case_cong)

lemma test_hex_text_eq: "hex_pairs X \<Longrightarrow> test_hex_text X s t \<longleftrightarrow> is_hex s \<and> t (unhex s)"
  by (auto simp: test_hex_text_def hex_pairs_decode is_hex_def unhex_def split: option.splits)

lemma test_key_eq: "hex_pairs X \<Longrightarrow> test_key X s t \<longleftrightarrow> is_hex s \<and> length (unhex s) = 32 \<and> t (unhex s)"
  by (simp add: test_key_def test_hex_text_eq)

text \<open>Text of lowercase digits in pairs, by the bits of its characters: \<open>0\<close> to \<open>9\<close> are \<open>0x30\<close> to \<open>0x39\<close>, \<open>a\<close> to \<open>f\<close> are
  \<open>0x61\<close> to \<open>0x66\<close>.\<close>

fun hexdigit :: "char \<Rightarrow> bool" where
  "hexdigit (Char b0 b1 b2 b3 b4 b5 b6 b7) \<longleftrightarrow>
     \<not> b7 \<and> b5 \<and> (\<not> b6 \<and> b4 \<and> \<not> (b3 \<and> (b2 \<or> b1)) \<or> b6 \<and> \<not> b4 \<and> \<not> b3 \<and> (b0 \<or> b1 \<or> b2) \<and> \<not> (b0 \<and> b1 \<and> b2))"

definition hex_text :: "string \<Rightarrow> bool" where
  "hex_text s \<longleftrightarrow> even (length s) \<and> list_all hexdigit s"

lemma hexdigit_set: "hexdigit c \<Longrightarrow> c \<in> set ''0123456789abcdef''"
proof (cases c)
  case (Char b0 b1 b2 b3 b4 b5 b6 b7)
  then show "hexdigit c \<Longrightarrow> ?thesis"
    by (cases b0; cases b1; cases b2; cases b3; cases b4; cases b5; cases b6; cases b7; simp)
qed

lemma hexdigit_nibble: "hexdigit c \<Longrightarrow> \<exists>x. nibble_of (of_nat (of_char c)) = Some x"
proof -
  have "list_all (\<lambda>c. nibble_of (of_nat (of_char c)) \<noteq> None) ''0123456789abcdef''" by code_simp
  then show "hexdigit c \<Longrightarrow> \<exists>x. nibble_of (of_nat (of_char c)) = Some x"
    using hexdigit_set unfolding list_all_iff by blast
qed

lemma hex_text_decode:
  assumes "hex_text s"
  obtains bs where "demo_hex_decode (ascii s) = Some bs" "length bs = length s div 2"
proof -
  have "\<exists>bs. demo_hex_decode (ascii s) = Some bs \<and> length bs = length s div 2"
    using assms unfolding hex_text_def
    by (induction s rule: induct_list012) (auto simp: ascii_def dest!: hexdigit_nibble)
  then show thesis using that by blast
qed

lemma hex_text_facts: "hex_text s \<Longrightarrow> is_hex s" "hex_text s \<Longrightarrow> length (unhex s) = length s div 2"
  by (auto simp: is_hex_def unhex_def elim: hex_text_decode)

lemma hex_text_parts:
  assumes "hex_text s" and "even n"
  shows "hex_text (take n s)" "hex_text (drop n s)"
  using assms by (auto simp: hex_text_def list_all_iff min_def dest: in_set_takeD in_set_dropD)

lemma decode_append:
  "demo_hex_decode a = Some x \<Longrightarrow> demo_hex_decode b = Some y \<Longrightarrow> demo_hex_decode (a @ b) = Some (x @ y)"
  by (induction a arbitrary: x rule: demo_hex_decode.induct) (auto split: option.splits)

lemma unhex_append: "hex_text a \<Longrightarrow> hex_text b \<Longrightarrow> unhex (a @ b) = unhex a @ unhex b"
  by (elim hex_text_decode) (simp add: unhex_def ascii_def decode_append)

lemma unhex_split:
  assumes "hex_text s" and "even n"
  shows "unhex s = unhex (take n s) @ unhex (drop n s)"
  using unhex_append[OF hex_text_parts[OF assms]] by simp

section \<open>What the primitives computed\<close>

record recorded =
  x_aead :: aead
  x_sk :: bytes
  x_pk :: bytes
  x_info :: bytes
  x_enc :: bytes
  x_ct :: bytes
  x_pt :: bytes
  x_secret :: bytes
  x_nonce :: bytes
  x_key :: bytes
  x_iv :: bytes
  x_msg :: bytes
  x_sealed :: bytes

text \<open>The crates compute on the inputs of a record what the record says.\<close>

definition reproduces :: "'c hpke_api \<Rightarrow> aead_api \<Rightarrow> recorded \<Rightarrow> bool" where
  "reproduces H A x \<longleftrightarrow>
     hpke_sk_from_bytes H (x_sk x) = Some (x_sk x) \<and> hpke_sk_to_pk H (x_sk x) = x_pk x \<and>
     hpke_enc_from_bytes H (x_enc x) = Some (x_enc x) \<and>
     (case hpke_setup_receiver H (x_aead x) (x_sk x) (x_enc x) (x_info x) of
        None \<Rightarrow> False
      | Some r \<Rightarrow> hpke_export H r (ascii ''message/bhttp response'') (length (x_secret x)) = Some (x_secret x) \<and>
          hpke_open H r (x_ct x) [] = Some (x_pt x)) \<and>
     (let prk = hkdf_extract A (x_enc x @ x_nonce x) (x_secret x) in
        hkdf_expand A prk (ascii ''key'') (length (x_key x)) = Some (x_key x) \<and>
        hkdf_expand A prk (ascii ''nonce'') 12 = Some (x_iv x)) \<and>
     gcm_key_size A (x_aead x) = length (x_key x) \<and> gcm_new_from_slice A (x_aead x) (x_key x) = Some (x_key x) \<and>
     gcm_nonce_try_from A (x_aead x) (x_iv x) = Some (x_iv x) \<and>
     map_option (\<lambda>(ct, tag). ct @ tag) (gcm_encrypt_detached A (x_aead x) (x_key x) (x_iv x) [] (x_msg x)) = Some (x_sealed x)"

definition record_of :: "envelope_vector \<Rightarrow> recorded" where
  "record_of e =
     \<lparr>x_aead = AesGcm256, x_sk = unhex (ev_skR e), x_pk = unhex (ev_pkR e), x_info = unhex (ev_info e),
      x_enc = unhex (ev_enc e), x_ct = unhex (drop 78 (ev_encapsulated_request e)), x_pt = unhex (ev_bhttp_request e),
      x_secret = unhex (ev_export_secret e), x_nonce = unhex (ev_response_nonce e), x_key = unhex (ev_aead_key e),
      x_iv = unhex (ev_aead_nonce e), x_msg = unhex (ev_bhttp_response e),
      x_sealed = unhex (drop 64 (ev_encapsulated_response e))\<rparr>"

text \<open>RFC 9458 appendix A, with the response key and nonce that the RFC prints.\<close>

definition rfc_record :: recorded where
  "rfc_record =
     \<lparr>x_aead = AesGcm128, x_sk = unhex ''3c168975674b2fa8e465970b79c8dcf09f1c741626480bd4c6162fc5b6a98e1a'',
      x_pk = unhex ''31e1f05a740102115220e9af918f738674aec95f54db6e04eb705aae8e798155'',
      x_info = ascii ''message/bhttp request'' @ [0] @ unhex ''01002000010001'',
      x_enc = unhex ''4b28f881333e7c164ffc499ad9796f877f4e1051ee6d31bad19dec96c208b472'',
      x_ct = unhex ''6374e469135906992e1268c594d2a10c695d858c40a026e7965e7d86b83dd440b2c0185204b4d63525'',
      x_pt = unhex ''00034745540568747470730b6578616d706c652e636f6d012f'',
      x_secret = unhex ''62d87a6ba569ee81014c2641f52bea36'', x_nonce = unhex ''c789e7151fcba46158ca84b04464910d'',
      x_key = unhex ''5d0172a080e428b16d298c4ea0db620d'', x_iv = unhex ''f6bf1aeb88d6df87007fa263'',
      x_msg = unhex ''0140c8'', x_sealed = unhex ''86f9013e404feea014e7be4a441f234f857fbd''\<rparr>"

text \<open>The sizes of a record are those of a suite, and its info string is the one of RFC 9458.\<close>

definition fits :: "suite \<Rightarrow> recorded \<Rightarrow> bool" where
  "fits S x \<longleftrightarrow>
     hpke_aead S = x_aead x \<and> gcm S = x_aead x \<and> x_info x = ascii ''message/bhttp request'' @ [0] @ hdr S \<and>
     length (hdr S) = 7 \<and> length (x_pk x) = 32 \<and> length (x_enc x) = 32 \<and> 16 \<le> length (x_ct x) \<and>
     length (x_secret x) = secret_len S \<and> secret_len S \<le> 32 \<and> length (x_nonce x) = secret_len S"

section \<open>The framing code on a record\<close>

lemma recorded_exchange:
  assumes R: "reproduces H A x" and F: "fits S x"
  obtains ctx where "open_suite H A S (x_sk x) (hdr S @ x_enc x @ x_ct x) = Inr (x_pt x, ctx)"
    "take (secret_len S) (rc_secret ctx) = x_secret x" "length (rc_secret ctx) = 32"
    "seal_with_nonce ctx (x_nonce x) (x_msg x) = Inr (x_nonce x @ x_sealed x)"
proof -
  let ?ctx = "\<lparr>rc_enc = x_enc x, rc_secret = overwrite (replicate 32 0) 0 (x_secret x),
    rc_secret_len = secret_len S, rc_seal = seal_response A S\<rparr>"
  have h: "length (hdr S) = HDR_LEN" and i: "hpke_info S = x_info x"
    using F by (simp_all add: fits_def envelope_consts hpke_info_def REQUEST_LABEL_def)
  have "open_suite H A S (x_sk x) (hdr S @ x_enc x @ x_ct x) = Inr (x_pt x, ?ctx)"
    using R F by (auto simp: open_suite_def Let_def info_buffer[OF h] i reproduces_def RESPONSE_LABEL_def
        REQUEST_LABEL_def fits_def envelope_consts overwrite_def split: option.splits)
  moreover have sec: "take (secret_len S) (rc_secret ?ctx) = x_secret x" "length (rc_secret ?ctx) = 32"
    using F by (simp_all add: fits_def overwrite_def)
  moreover obtain c t where enc: "gcm_encrypt_detached A (x_aead x) (x_key x) (x_iv x) [] (x_msg x) = Some (c, t)"
      "c @ t = x_sealed x"
    using R by (auto simp: reproduces_def)
  have "ctx_wf ?ctx" "length (x_nonce x) = rc_secret_len ?ctx"
    using F by (simp_all add: ctx_wf_def fits_def envelope_consts overwrite_def)
  note sealed = seal_buf_eq[OF this, of "x_msg x"]
  have "seal_response A S (x_enc x @ x_nonce x) (x_secret x) (x_nonce x @ x_msg x) (secret_len S) =
      (x_nonce x @ x_sealed x, Inr ())"
    using R F enc by (simp add: seal_response_def reproduces_def fits_def Let_def)
  then have "seal_with_nonce ?ctx (x_nonce x) (x_msg x) = Inr (x_nonce x @ x_sealed x)"
    using F sealed sec(1) by (simp add: seal_with_nonce_def seal_in_place_def fits_def)
  ultimately show thesis using that by blast
qed

lemma recorded_public_key: "reproduces H A x \<Longrightarrow> fits S x \<Longrightarrow> public_key H (x_sk x) = Inr (x_pk x)"
  by (simp add: reproduces_def fits_def public_key_def)

text \<open>The vectors' text: digits, sizes and the parts of the two messages.\<close>

definition hex_framed :: "envelope_vector \<Rightarrow> bool" where
  "hex_framed e \<longleftrightarrow>
     list_all hex_text [ev_skR e, ev_pkR e, ev_bhttp_request e, ev_enc e, ev_encapsulated_request e, ev_export_secret e,
       ev_bhttp_response e, ev_response_nonce e, ev_encapsulated_response e] \<and>
     list_all (\<lambda>s. length s = 64) [ev_skR e, ev_pkR e, ev_enc e, ev_export_secret e, ev_response_nonce e] \<and>
     take 78 (ev_encapsulated_request e) = ''00002000010002'' @ ev_enc e \<and> 111 < length (ev_encapsulated_request e) \<and>
     take 64 (ev_encapsulated_response e) = ev_response_nonce e \<and>
     unhex (ev_info e) = ascii ''message/bhttp request'' @ [0] @ hdr ConfidentialSuite"

lemma envelopes_framed: "list_all hex_framed envelopes"
  by code_simp

lemma rfc_texts:
  "hex_text ''3c168975674b2fa8e465970b79c8dcf09f1c741626480bd4c6162fc5b6a98e1a''"
  "hex_text ''31e1f05a740102115220e9af918f738674aec95f54db6e04eb705aae8e798155''"
  "hex_text ''01002000010001'' \<and> unhex ''01002000010001'' = hdr RfcAppendixA"
  "hex_text ''4b28f881333e7c164ffc499ad9796f877f4e1051ee6d31bad19dec96c208b472''"
  "hex_text ''6374e469135906992e1268c594d2a10c695d858c40a026e7965e7d86b83dd440b2c0185204b4d63525''"
  "hex_text ''00034745540568747470730b6578616d706c652e636f6d012f''" "hex_text ''62d87a6ba569ee81014c2641f52bea36''"
  "hex_text ''c789e7151fcba46158ca84b04464910d''" "hex_text ''0140c8''"
  "hex_text ''86f9013e404feea014e7be4a441f234f857fbd''"
  by code_simp+

lemma rfc_fits: "fits RfcAppendixA rfc_record"
proof -
  have "hpke_aead RfcAppendixA = AesGcm128" "gcm RfcAppendixA = AesGcm128" "secret_len RfcAppendixA = 16"
    by (simp_all add: RfcAppendixA_def)
  then show ?thesis
    using rfc_texts hdr_suites(2) by (simp add: fits_def rfc_record_def hex_text_facts(2) envelope_consts)
qed

lemma vector_parts:
  assumes "hex_framed e"
  shows "fits ConfidentialSuite (record_of e)"
    "unhex (ev_encapsulated_request e) = hdr ConfidentialSuite @ x_enc (record_of e) @ x_ct (record_of e)"
    "unhex (ev_encapsulated_response e) = x_nonce (record_of e) @ x_sealed (record_of e)"
proof -
  note texts = assms[unfolded hex_framed_def list.pred_inject]
  have hdr: "unhex ''00002000010002'' = hdr ConfidentialSuite" "hex_text ''00002000010002''" by code_simp+
  have "unhex (ev_encapsulated_request e) = unhex (take 78 (ev_encapsulated_request e)) @ x_ct (record_of e)"
    unfolding record_of_def recorded.simps by (rule unhex_split) (use texts in simp_all)
  then show "unhex (ev_encapsulated_request e) = hdr ConfidentialSuite @ x_enc (record_of e) @ x_ct (record_of e)"
    using texts unhex_append[OF hdr(2), of "ev_enc e"] by (simp add: hdr(1) record_of_def)
  have "unhex (ev_encapsulated_response e) = unhex (take 64 (ev_encapsulated_response e)) @ x_sealed (record_of e)"
    unfolding record_of_def recorded.simps by (rule unhex_split) (use texts in simp_all)
  then show "unhex (ev_encapsulated_response e) = x_nonce (record_of e) @ x_sealed (record_of e)"
    using texts by (simp add: record_of_def)
  have "hex_text (drop 78 (ev_encapsulated_request e))" by (rule hex_text_parts) (use texts in simp_all)
  then show "fits ConfidentialSuite (record_of e)"
    using texts hdr_suites(1) by (auto simp: fits_def record_of_def hex_text_facts(2) envelope_consts)
qed

lemma vector_texts:
  assumes "hex_framed e"
  shows "is_hex (ev_skR e)" "is_hex (ev_pkR e)" "is_hex (ev_bhttp_request e)" "is_hex (ev_encapsulated_request e)"
    "is_hex (ev_export_secret e)" "is_hex (ev_bhttp_response e)" "is_hex (ev_response_nonce e)"
    "is_hex (ev_encapsulated_response e)" "length (unhex (ev_skR e)) = 32" "length (unhex (ev_response_nonce e)) = 32"
  using assms by (simp_all add: hex_framed_def hex_text_facts)

section \<open>The tests of \<open>envelope.rs\<close>\<close>

definition rfc9458_appendix_a_through_generic_framing :: "hex_crate \<Rightarrow> 'c hpke_api \<Rightarrow> aead_api \<Rightarrow> bool" where
  "rfc9458_appendix_a_through_generic_framing X H A =
     test_key X ''3c168975674b2fa8e465970b79c8dcf09f1c741626480bd4c6162fc5b6a98e1a'' (\<lambda>sk.
       expect (public_key H sk) (\<lambda>pk.
         test_hex_text X ''31e1f05a740102115220e9af918f738674aec95f54db6e04eb705aae8e798155'' (\<lambda>want. pk = want)) \<and>
       test_hex_text X (''010020000100014b28f881333e7c164ffc499ad9796f877f4e1051ee6d31bad1'' @
           ''9dec96c208b4726374e469135906992e1268c594d2a10c695d858c40a026e796'' @
           ''5e7d86b83dd440b2c0185204b4d63525'') (\<lambda>req.
         expect (open_suite H A RfcAppendixA sk req) (\<lambda>(pt, ctx).
           test_hex_text X ''00034745540568747470730b6578616d706c652e636f6d012f'' (\<lambda>want. pt = want) \<and>
           test_hex_text X ''62d87a6ba569ee81014c2641f52bea36'' (\<lambda>want. take 16 (rc_secret ctx) = want) \<and>
           test_hex_text X ''c789e7151fcba46158ca84b04464910d'' (\<lambda>nonce. test_hex_text X ''0140c8'' (\<lambda>msg.
             expect (seal_with_nonce ctx nonce msg) (\<lambda>res.
               test_hex_text X ''c789e7151fcba46158ca84b04464910d86f9013e404feea014e7be4a441f234f857fbd''
                 (\<lambda>want. res = want)))) \<and>
           open_request H A sk req = Inl EnvelopeError)))"

text \<open>\<open>FieldSection::get\<close>: the first value of a name.\<close>

definition field_get :: "'m bhttp \<Rightarrow> 'm \<Rightarrow> bytes \<Rightarrow> bytes option" where
  "field_get B m name = map_option snd (find (\<lambda>f. fst f = name) (bh_fields B m))"

text \<open>The body of the test's loop over the vectors, and the test.\<close>

definition go_vector_case :: "hex_crate \<Rightarrow> 'c hpke_api \<Rightarrow> aead_api \<Rightarrow> 'm bhttp \<Rightarrow> envelope_vector \<Rightarrow> bool" where
  "go_vector_case X H A B e =
     test_key X (ev_skR e) (\<lambda>sk.
       expect (public_key H sk) (\<lambda>pk. test_hex_text X (ev_pkR e) (\<lambda>want. pk = want)) \<and>
       test_hex_text X (ev_encapsulated_request e) (\<lambda>req.
         expect (open_request H A sk req) (\<lambda>(pt, ctx).
           test_hex_text X (ev_bhttp_request e) (\<lambda>want. pt = want) \<and>
           test_hex_text X (ev_export_secret e) (\<lambda>want. rc_secret ctx = want) \<and>
           (case bh_read B pt of None \<Rightarrow> False | Some m \<Rightarrow>
              bh_method B m = Some (ascii (ev_method e)) \<and> bh_path B m = Some (ascii (ev_path e)) \<and>
              (case find (\<lambda>f. fst f = ''content-type'') (ev_fields e) of None \<Rightarrow> False | Some ct \<Rightarrow>
                 field_get B m (ascii ''content-type'') = Some (ascii (snd ct))) \<and>
              bh_content B m = ascii (ev_body e)) \<and>
           (case bh_status_code B (ev_status e) of None \<Rightarrow> False | Some status \<Rightarrow>
              let out = bh_response B status;
                  out = foldl (\<lambda>m (n, v). bh_put_header B m (ascii n) (ascii v)) out (ev_response_fields e);
                  out = bh_write_content B out (ascii (ev_response_body e))
              in case bh_write B out of (chunks, written) \<Rightarrow> written \<and>
                   test_hex_text X (ev_bhttp_response e) (\<lambda>want. concat chunks = want) \<and>
                   test_hex_text X (ev_response_nonce e) (\<lambda>nonce. length nonce = RESPONSE_NONCE_LEN \<and>
                     test_hex_text X (ev_encapsulated_response e) (\<lambda>want.
                       seal ctx nonce (concat chunks) = Inr want))))))"

definition go_vector_opens_request_and_reseals_response ::
  "hex_crate \<Rightarrow> 'c hpke_api \<Rightarrow> aead_api \<Rightarrow> 'm bhttp \<Rightarrow> envelope_vector list \<Rightarrow> bool" where
  "go_vector_opens_request_and_reseals_response X H A B vs = list_all (go_vector_case X H A B) vs"

definition every_pre_decapsulation_failure_is_the_same_error ::
  "hex_crate \<Rightarrow> 'c hpke_api \<Rightarrow> aead_api \<Rightarrow> envelope_vector \<Rightarrow> bool" where
  "every_pre_decapsulation_failure_is_the_same_error X H A e =
     test_key X (ev_skR e) (\<lambda>sk. test_hex_text X (ev_encapsulated_request e) (\<lambda>good.
       let min = HDR_LEN + ENC_LEN + TAG_LEN;
           cases = [[], take HDR_LEN good, take (min - 1) good, take min good];
           cases = cases @ map (\<lambda>(i, b). good[i := b]) [(0, 0x01), (2, 0x21), (4, 0x02), (6, 0x01), (6, 0x03)];
           zero_enc = overwrite good HDR_LEN (replicate ENC_LEN 0);
           cases = cases @ [zero_enc];
           low_order_enc = zero_enc[HDR_LEN := 0x01];
           cases = cases @ [low_order_enc];
           cases = cases @ map (\<lambda>i. good[i := good ! i XOR 0x01]) [HDR_LEN, HDR_LEN + ENC_LEN, length good - 1]
       in min < length good \<and> length cases = 14 \<and>
          list_all (\<lambda>c. open_request H A sk c = Inl EnvelopeError) cases \<and>
          \<not> is_err (open_request H A sk good)))"

section \<open>RFC 9292 messages\<close>

text \<open>
  What the \<open>bhttp\<close> crate does on known-length messages without trailers: it reads a request with plain field
  names, and writes a built response, in the layout of RFC 9292.
\<close>

definition plain_fields :: "(bytes \<times> bytes) list \<Rightarrow> bool" where
  "plain_fields fs \<longleftrightarrow> list_all (\<lambda>f. fst f \<noteq> [] \<and> list_all (\<lambda>b. b = 45 \<or> 97 \<le> b \<and> b \<le> 122) (fst f)) fs"

definition bhttp_reads :: "'m bhttp \<Rightarrow> bool" where
  "bhttp_reads B \<longleftrightarrow> (\<forall>m scheme authority path fs body out.
     m \<noteq> [] \<and> scheme \<noteq> [] \<and> authority \<noteq> [] \<and> path \<noteq> [] \<and> plain_fields fs \<and>
     encode_request [0] m scheme authority path fs body [] = Some out \<longrightarrow>
     (\<exists>msg. bh_read B out = Some msg \<and> bh_method B msg = Some m \<and> bh_path B msg = Some path \<and>
        bh_fields B msg = fs \<and> bh_content B msg = body))"

definition known_length_response :: "nat \<Rightarrow> (bytes \<times> bytes) list \<Rightarrow> bytes \<Rightarrow> bytes option" where
  "known_length_response status fs body =
     Option.bind (varint status) (\<lambda>s. Option.bind (field_section fs) (\<lambda>hs. Option.bind (vec_of hs) (\<lambda>h.
     Option.bind (vec_of body) (\<lambda>c. Some ([1] @ s @ h @ c @ [0])))))"

definition bhttp_writes :: "'m bhttp \<Rightarrow> bool" where
  "bhttp_writes B \<longleftrightarrow> (\<forall>status fs body out.
     200 \<le> status \<and> status \<le> 599 \<and> plain_fields fs \<and> known_length_response status fs body = Some out \<longrightarrow>
     bh_status_code B status = Some status \<and>
     (let m = bh_write_content B (foldl (\<lambda>m (n, v). bh_put_header B m n v) (bh_response B status) fs) body in
      snd (bh_write B m) \<and> concat (fst (bh_write B m)) = out))"

text \<open>The BHTTP messages of a vector are the encodings of what it lists.\<close>

definition ascii_fields :: "(string \<times> string) list \<Rightarrow> (bytes \<times> bytes) list" where
  "ascii_fields = map (\<lambda>(n, v). (ascii n, ascii v))"

definition bhttp_framed :: "envelope_vector \<Rightarrow> bool" where
  "bhttp_framed e \<longleftrightarrow>
     bhttp_request (ascii (ev_method e)) (ascii (ev_path e)) (ascii_fields (ev_fields e)) (ascii (ev_body e)) =
       Some (unhex (ev_bhttp_request e)) \<and>
     known_length_response (ev_status e) (ascii_fields (ev_response_fields e)) (ascii (ev_response_body e)) =
       Some (unhex (ev_bhttp_response e)) \<and>
     200 \<le> ev_status e \<and> ev_status e \<le> 599 \<and> ev_method e \<noteq> [] \<and> ev_path e \<noteq> [] \<and>
     plain_fields (ascii_fields (ev_fields e)) \<and> plain_fields (ascii_fields (ev_response_fields e)) \<and>
     map_option snd (find (\<lambda>f. fst f = ascii ''content-type'') (ascii_fields (ev_fields e))) =
       map_option (\<lambda>f. ascii (snd f)) (find (\<lambda>f. fst f = ''content-type'') (ev_fields e)) \<and>
     find (\<lambda>f. fst f = ''content-type'') (ev_fields e) \<noteq> None"

lemma post_bhttp: "bhttp_framed post_json_rpc"
  by code_simp

lemma inner_error_bhttp: "bhttp_framed inner_error_bad_request"
  by code_simp

lemma envelopes_bhttp: "list_all bhttp_framed envelopes"
  using post_bhttp inner_error_bhttp by (simp add: envelopes_def)

lemma vector_request_read:
  assumes "bhttp_framed e" and "bhttp_reads B"
  obtains m where "bh_read B (unhex (ev_bhttp_request e)) = Some m" "bh_method B m = Some (ascii (ev_method e))"
    "bh_path B m = Some (ascii (ev_path e))" "bh_fields B m = ascii_fields (ev_fields e)"
    "bh_content B m = ascii (ev_body e)"
proof -
  have "encode_request [0] (ascii (ev_method e)) (ascii ''https'') (ascii ''localhost'') (ascii (ev_path e))
      (ascii_fields (ev_fields e)) (ascii (ev_body e)) [] = Some (unhex (ev_bhttp_request e))"
    "ascii (ev_method e) \<noteq> []" "ascii (ev_path e) \<noteq> []" "plain_fields (ascii_fields (ev_fields e))"
    using assms(1) by (simp_all add: bhttp_framed_def bhttp_request_def ascii_def)
  moreover have "ascii ''https'' \<noteq> []" "ascii ''localhost'' \<noteq> []" by (simp_all add: ascii_def)
  ultimately show thesis using assms(2) that unfolding bhttp_reads_def by metis
qed

lemma vector_response_written:
  assumes "bhttp_framed e" and "bhttp_writes B"
  shows "bh_status_code B (ev_status e) = Some (ev_status e)"
    "bh_write B (bh_write_content B (foldl (\<lambda>m (n, v). bh_put_header B m (ascii n) (ascii v)) (bh_response B (ev_status e))
       (ev_response_fields e)) (ascii (ev_response_body e))) = (chunks, written) \<Longrightarrow>
       written \<and> concat chunks = unhex (ev_bhttp_response e)"
proof -
  let ?fs = "ascii_fields (ev_response_fields e)" and ?b = "ascii (ev_response_body e)"
  have fold: "foldl (\<lambda>m (n, v). bh_put_header B m n v) msg (ascii_fields fs) =
      foldl (\<lambda>m (n, v). bh_put_header B m (ascii n) (ascii v)) msg fs" for msg fs
    by (induction fs arbitrary: msg) (auto simp: ascii_fields_def)
  have "200 \<le> ev_status e \<and> ev_status e \<le> 599 \<and> plain_fields ?fs \<and>
      known_length_response (ev_status e) ?fs ?b = Some (unhex (ev_bhttp_response e))"
    using assms(1) by (simp add: bhttp_framed_def)
  from assms(2)[unfolded bhttp_writes_def, rule_format, OF this]
  show "bh_status_code B (ev_status e) = Some (ev_status e)"
    "bh_write B (bh_write_content B (foldl (\<lambda>m (n, v). bh_put_header B m (ascii n) (ascii v)) (bh_response B (ev_status e))
       (ev_response_fields e)) (ascii (ev_response_body e))) = (chunks, written) \<Longrightarrow>
       written \<and> concat chunks = unhex (ev_bhttp_response e)"
    by (simp_all add: Let_def fold)
qed

section \<open>The tests pass\<close>

lemma rfc_fields:
  "unhex ''3c168975674b2fa8e465970b79c8dcf09f1c741626480bd4c6162fc5b6a98e1a'' = x_sk rfc_record"
  "unhex ''31e1f05a740102115220e9af918f738674aec95f54db6e04eb705aae8e798155'' = x_pk rfc_record"
  "unhex ''00034745540568747470730b6578616d706c652e636f6d012f'' = x_pt rfc_record"
  "unhex ''62d87a6ba569ee81014c2641f52bea36'' = x_secret rfc_record"
  "unhex ''c789e7151fcba46158ca84b04464910d'' = x_nonce rfc_record" "unhex ''0140c8'' = x_msg rfc_record"
  by (simp_all only: rfc_record_def recorded.simps)

lemma rfc_messages:
  "''010020000100014b28f881333e7c164ffc499ad9796f877f4e1051ee6d31bad1'' @
     ''9dec96c208b4726374e469135906992e1268c594d2a10c695d858c40a026e796'' @ ''5e7d86b83dd440b2c0185204b4d63525'' =
   ''01002000010001'' @ ''4b28f881333e7c164ffc499ad9796f877f4e1051ee6d31bad19dec96c208b472'' @
     ''6374e469135906992e1268c594d2a10c695d858c40a026e7965e7d86b83dd440b2c0185204b4d63525''"
  "''c789e7151fcba46158ca84b04464910d86f9013e404feea014e7be4a441f234f857fbd'' =
   ''c789e7151fcba46158ca84b04464910d'' @ ''86f9013e404feea014e7be4a441f234f857fbd''"
  by code_simp+

lemma hex_text_append: "hex_text a \<Longrightarrow> hex_text b \<Longrightarrow> hex_text (a @ b)"
  by (simp add: hex_text_def)

lemma rfc_request:
  "is_hex (''010020000100014b28f881333e7c164ffc499ad9796f877f4e1051ee6d31bad1'' @
     ''9dec96c208b4726374e469135906992e1268c594d2a10c695d858c40a026e796'' @ ''5e7d86b83dd440b2c0185204b4d63525'') \<and>
   unhex (''010020000100014b28f881333e7c164ffc499ad9796f877f4e1051ee6d31bad1'' @
     ''9dec96c208b4726374e469135906992e1268c594d2a10c695d858c40a026e796'' @ ''5e7d86b83dd440b2c0185204b4d63525'') =
     hdr RfcAppendixA @ x_enc rfc_record @ x_ct rfc_record"
  unfolding rfc_messages(1) rfc_record_def recorded.simps
  using rfc_texts by (simp only: unhex_append hex_text_append hex_text_facts simp_thms)

lemma rfc_response:
  "is_hex ''c789e7151fcba46158ca84b04464910d86f9013e404feea014e7be4a441f234f857fbd'' \<and>
   unhex ''c789e7151fcba46158ca84b04464910d86f9013e404feea014e7be4a441f234f857fbd'' =
     x_nonce rfc_record @ x_sealed rfc_record"
  unfolding rfc_messages(2) rfc_record_def recorded.simps
  using rfc_texts by (simp only: unhex_append hex_text_append hex_text_facts simp_thms)

lemma other_header_refused:
  assumes "length (hdr S) = 7" and "hdr S \<noteq> hdr T" and "length (hdr T) = 7"
  shows "open_suite H A S sk (hdr T @ rest) = Inl EnvelopeError"
  using assms by (simp add: open_suite_def envelope_consts)

lemma rfc_test:
  assumes "hex_pairs X" and R: "reproduces H A rfc_record"
  shows "rfc9458_appendix_a_through_generic_framing X H A"
proof -
  obtain ctx where ctx: "open_suite H A RfcAppendixA (x_sk rfc_record) (hdr RfcAppendixA @ x_enc rfc_record @ x_ct rfc_record) =
        Inr (x_pt rfc_record, ctx)" "take (secret_len RfcAppendixA) (rc_secret ctx) = x_secret rfc_record"
      "seal_with_nonce ctx (x_nonce rfc_record) (x_msg rfc_record) = Inr (x_nonce rfc_record @ x_sealed rfc_record)"
    by (rule recorded_exchange[OF R rfc_fits])
  have "open_request H A sk (hdr RfcAppendixA @ rest) = Inl EnvelopeError" for sk rest
    unfolding open_request_def
    by (rule other_header_refused) (simp_all add: ConfidentialSuite_def RfcAppendixA_def)
  moreover have "secret_len RfcAppendixA = 16" by (simp add: RfcAppendixA_def)
  ultimately show ?thesis
    using recorded_public_key[OF R rfc_fits] ctx hex_text_facts(1)[OF rfc_texts(1)] rfc_texts rfc_request rfc_response
      hex_text_facts(2)[OF rfc_texts(1)]
    unfolding rfc9458_appendix_a_through_generic_framing_def test_key_eq[OF assms(1)] test_hex_text_eq[OF assms(1)]
    by (simp add: rfc_fields hex_text_facts del: append.simps)
qed

lemma go_vector_case_test:
  assumes "hex_pairs X" and B: "bhttp_reads B" "bhttp_writes B"
    and e: "hex_framed e" "bhttp_framed e" and R: "reproduces H A (record_of e)"
  shows "go_vector_case X H A B e"
proof -
  let ?x = "record_of e"
  note parts = vector_parts[OF e(1)]
  obtain ctx where ctx: "open_suite H A ConfidentialSuite (x_sk ?x) (hdr ConfidentialSuite @ x_enc ?x @ x_ct ?x) =
        Inr (x_pt ?x, ctx)" "take 32 (rc_secret ctx) = x_secret ?x" "length (rc_secret ctx) = 32"
      "seal_with_nonce ctx (x_nonce ?x) (x_msg ?x) = Inr (x_nonce ?x @ x_sealed ?x)"
    by (rule recorded_exchange[OF R parts(1)]) simp
  obtain m where m: "bh_read B (unhex (ev_bhttp_request e)) = Some m" "bh_method B m = Some (ascii (ev_method e))"
      "bh_path B m = Some (ascii (ev_path e))" "bh_fields B m = ascii_fields (ev_fields e)"
      "bh_content B m = ascii (ev_body e)"
    by (rule vector_request_read[OF e(2) B(1)])
  obtain ct where ct: "find (\<lambda>f. fst f = ''content-type'') (ev_fields e) = Some ct"
      "field_get B m (ascii ''content-type'') = Some (ascii (snd ct))"
    using e(2) m(4) by (auto simp: bhttp_framed_def field_get_def)
  let ?out = "bh_write_content B (foldl (\<lambda>m (n, v). bh_put_header B m (ascii n) (ascii v)) (bh_response B (ev_status e))
       (ev_response_fields e)) (ascii (ev_response_body e))"
  obtain chunks written where w: "bh_write B ?out = (chunks, written)" by (cases "bh_write B ?out")
  have fields: "x_sk ?x = unhex (ev_skR e)" "x_pk ?x = unhex (ev_pkR e)" "x_pt ?x = unhex (ev_bhttp_request e)"
    "x_secret ?x = unhex (ev_export_secret e)" "x_nonce ?x = unhex (ev_response_nonce e)"
    "x_msg ?x = unhex (ev_bhttp_response e)"
    by (simp_all add: record_of_def)
  note facts = recorded_public_key[OF R parts(1)] ctx parts(2,3) vector_texts[OF e(1)] vector_response_written[OF e(2) B(2)] m ct
  show ?thesis
    using facts w fields
    by (simp add: go_vector_case_def test_key_eq[OF assms(1)] test_hex_text_eq[OF assms(1)] open_request_def seal_def Let_def
        envelope_consts)
qed

text \<open>
  The failures of the third test.  For the changed header and the truncated bodies the code decides alone.  For
  the others \<open>tampered\<close> lists the encapsulated key and ciphertext that reach HPKE: a ciphertext that is only a tag, the
  two encapsulated keys of low order and three flipped bits, none of which opens.
\<close>

definition tampered :: "recorded \<Rightarrow> (bytes \<times> bytes) list" where
  "tampered x =
     (let flip = (\<lambda>bs i. bs[i := bs ! i XOR 1]) in
      [(x_enc x, take 16 (x_ct x)), (replicate 32 0, x_ct x), (1 # replicate 31 0, x_ct x),
       (flip (x_enc x) 0, x_ct x), (x_enc x, flip (x_ct x) 0), (x_enc x, flip (x_ct x) (length (x_ct x) - 1))])"

definition hpke_refuses :: "'c hpke_api \<Rightarrow> aead \<Rightarrow> bytes \<Rightarrow> bytes \<Rightarrow> bytes \<times> bytes \<Rightarrow> bool" where
  "hpke_refuses H a sk info p \<longleftrightarrow>
     (case Option.bind (hpke_enc_from_bytes H (fst p)) (\<lambda>enc. hpke_setup_receiver H a sk enc info) of
        None \<Rightarrow> True | Some r \<Rightarrow> hpke_open H r (snd p) [] = None)"

lemma envelope_error_any: "(\<exists>e. r = Inl e) \<longleftrightarrow> r = Inl EnvelopeError"
  using envelope_error.exhaust by blast

lemma open_refused:
  assumes "hpke_refuses H (hpke_aead S) sk (hpke_info S) (enc, ct)" and "hpke_sk_from_bytes H sk = Some sk"
    and h: "length (hdr S) = HDR_LEN" and "length enc = 32"
  shows "open_suite H A S sk (hdr S @ enc @ ct) = Inl EnvelopeError"
proof (cases "open_suite H A S sk (hdr S @ enc @ ct)")
  case (Inr p)
  then obtain pt ctx where "open_suite H A S sk (hdr S @ enc @ ct) = Inr (pt, ctx)" by (cases p) simp
  then show ?thesis
    using assms by (auto elim!: open_suite_Inr simp: hpke_refuses_def envelope_consts)
qed (simp add: envelope_error_any[symmetric])

text \<open>The changed bodies of the test, by their parts.\<close>

lemma changed_parts:
  assumes "length (fr :: bytes) = 7" and "length enc = 32" and "16 < length ct"
  shows "take 55 (fr @ enc @ ct) = fr @ enc @ take 16 ct"
    "i < 7 \<Longrightarrow> (fr @ enc @ ct)[i := b] = fr[i := b] @ enc @ ct"
    "overwrite (fr @ enc @ ct) 7 (replicate 32 0) = fr @ replicate 32 0 @ ct"
    "(fr @ replicate 32 0 @ ct)[7 := 1] = fr @ (1 # replicate 31 0) @ ct"
    "(fr @ enc @ ct)[7 := (fr @ enc @ ct) ! 7 XOR 1] = fr @ enc[0 := enc ! 0 XOR 1] @ ct"
    "(fr @ enc @ ct)[39 := (fr @ enc @ ct) ! 39 XOR 1] = fr @ enc @ ct[0 := ct ! 0 XOR 1]"
    "(fr @ enc @ ct)[38 + length ct := (fr @ enc @ ct) ! (38 + length ct) XOR 1] =
       fr @ enc @ ct[length ct - 1 := ct ! (length ct - 1) XOR 1]"
proof -
  have "(replicate 32 (0 :: byte))[0 := 1] = 1 # replicate 31 0" by (simp add: numeral_eq_Suc)
  then show "(fr @ replicate 32 0 @ ct)[7 := 1] = fr @ (1 # replicate 31 0) @ ct"
    using assms(1) by (simp add: list_update_append)
qed (use assms in \<open>auto simp: overwrite_def list_update_append nth_append\<close>)

lemma failure_test:
  assumes "hex_pairs X" and e: "hex_framed e" and R: "reproduces H A (record_of e)"
    and refused: "list_all (hpke_refuses H AesGcm256 (x_sk (record_of e)) (x_info (record_of e))) (tampered (record_of e))"
  shows "every_pre_decapsulation_failure_is_the_same_error X H A e"
proof -
  let ?x = "record_of e" and ?S = ConfidentialSuite
  let ?enc = "x_enc ?x" and ?ct = "x_ct ?x" and ?good = "unhex (ev_encapsulated_request e)"
  note parts = vector_parts[OF e] and texts = vector_texts[OF e]
  have F: "hpke_info ?S = x_info ?x" "hpke_sk_from_bytes H (x_sk ?x) = Some (x_sk ?x)" "length (hdr ?S) = 7" "length ?enc = 32"
    using parts(1) R by (simp_all add: fits_def hpke_info_def REQUEST_LABEL_def reproduces_def)
  have "length ?good = length (ev_encapsulated_request e) div 2" "111 < length (ev_encapsulated_request e)"
    using e by (simp_all add: hex_framed_def hex_text_facts)
  then have ct: "16 < length ?ct" using parts(2) F by simp
  note shape = changed_parts[OF F(3,4) ct]
  have sk: "unhex (ev_skR e) = x_sk ?x" by (simp add: record_of_def)
  have tampered: "open_request H A (x_sk ?x) (hdr ?S @ enc @ ct) = Inl EnvelopeError" if "(enc, ct) \<in> set (tampered ?x)" for enc ct
  proof -
    have "length enc = 32" using that F by (auto simp: tampered_def Let_def)
    then show ?thesis
      using refused that F unfolding open_request_def
      by (intro open_refused) (auto simp: list_all_iff envelope_consts)
  qed
  have low: "open_request H A (x_sk ?x) (hdr ?S @ 1 # replicate 31 0 @ ?ct) = Inl EnvelopeError"
    using tampered[of "1 # replicate 31 0" ?ct] by (simp add: tampered_def)
  have header: "open_request H A (x_sk ?x) (fr @ ?enc @ ?ct) = Inl EnvelopeError" if "length fr = 7" "fr \<noteq> hdr ?S" for fr
    using that F by (simp add: open_request_def open_suite_def envelope_consts)
  have short: "open_request H A (x_sk ?x) c = Inl EnvelopeError" if "length c < 55" for c
    using that by (simp add: open_request_def open_suite_def envelope_consts)
  have changed: "list_all (\<lambda>(i, b). (hdr ?S)[i := b] \<noteq> hdr ?S \<and> i < 7) [(0, 0x01), (2, 0x21), (4, 0x02), (6, 0x01), (6, 0x03)]"
    by code_simp
  obtain ctx where "open_request H A (x_sk ?x) ?good = Inr (x_pt ?x, ctx)"
    by (rule recorded_exchange[OF R parts(1)]) (simp add: open_request_def parts(2))
  moreover have "length ?good = 39 + length ?ct" using parts(2) F by simp
  ultimately show ?thesis
    unfolding every_pre_decapsulation_failure_is_the_same_error_def test_key_eq[OF assms(1)] test_hex_text_eq[OF assms(1)]
    using texts ct F changed short header low tampered[unfolded tampered_def Let_def]
    by (simp add: Let_def sk envelope_consts parts(2) shape)
qed

end
