(* ===== verification/Vector_Tests.thy ===== *)
theory Vector_Tests
  imports Vectors
begin

text \<open>
  The unit tests of \<open>signing.rs\<close> that use the recorded vectors, the theorem that the vector tests pass, and a
  recorded call through the whole confidential endpoint.
\<close>

section \<open>The tests of \<open>signing.rs\<close> with vectors\<close>

record key_vector =
  kv_seed :: string
  kv_skR :: string
  kv_pkR :: string

definition test_seed_key :: key_vector where
  "test_seed_key =
     \<lparr>kv_seed = ''112233445566778899aabbccddeeff000f1e2d3c4b5a69788796a5b4c3d2e1f0'',
      kv_skR = ''683cd62939133d434f463c517cac2b5e22c1b77338d9367361100d4c82dcdc4c'',
      kv_pkR = ''6ffa23f97ea11199a707e64f994c231f18bb61ee34f6fb05bbeabf4d140d0456''\<rparr>"

definition seed_derived_key_opens_go_vector_and_reseals_response ::
  "hex_crate \<Rightarrow> sig_api \<Rightarrow> 'c hpke_api \<Rightarrow> aead_api \<Rightarrow> key_vector \<Rightarrow> envelope_vector \<Rightarrow> bool" where
  "seed_derived_key_opens_go_vector_and_reseals_response X G H A k e \<longleftrightarrow>
     hex_encode X TEST_SEED = kv_seed k \<and>
     expect (from_seed X G H TEST_SEED (chars ''1'')) (\<lambda>state.
       test_hex_text X (ev_encapsulated_request e) (\<lambda>req. expect (state_open_request H A state req) (\<lambda>(pt, ctx).
         test_hex_text X (ev_bhttp_request e) (\<lambda>want. pt = want) \<and>
         test_hex_text X (ev_response_nonce e) (\<lambda>nonce. length nonce = RESPONSE_NONCE_LEN \<and>
           test_hex_text X (ev_bhttp_response e) (\<lambda>msg. test_hex_text X (ev_encapsulated_response e) (\<lambda>want.
             seal ctx nonce msg = Inr want))))))"

definition kem_key_matches_vector_and_montgomery_form ::
  "hex_crate \<Rightarrow> sig_api \<Rightarrow> 'c hpke_api \<Rightarrow> key_vector \<Rightarrow> bool" where
  "kem_key_matches_vector_and_montgomery_form X G H k \<longleftrightarrow>
     hex_encode X TEST_SEED = kv_seed k \<and>
     expect (from_seed X G H TEST_SEED (chars ''1'')) (\<lambda>state.
       hex_encode X (pubkey_bytes G state) = ''9b58e5628f7632f23c7f6837196b2892cd217855ca961318e5950b8e849ba538'' \<and>
       expect (public_key H (kem_secret state)) (\<lambda>pk.
         hex_encode X pk = kv_pkR k \<and>
         hex_encode X (to_montgomery G (verifying_key G TEST_SEED)) =
           ''6ffa23f97ea11199a707e64f994c231f18bb61ee34f6fb05bbeabf4d140d0456'' \<and>
         hex_encode X (kem_secret state) = ''683cd62939133d434f463c517cac2b5e22c1b77338d9367361100d4c82dcdc4c'' \<and>
         hex_encode X (kem_secret state) = kv_skR k \<and>
         (let raw = to_scalar_bytes G TEST_SEED in
          raw ! 31 AND 0x80 \<noteq> 0 \<and> expect (public_key H raw) (\<lambda>p. p = pk))))"

text \<open>
  \<open>hex::encode\<close> writes two lowercase digits for each byte.  \<open>RAW_SCALAR\<close> is the first half of the SHA-512 of the test seed,
  which \<open>to_scalar_bytes\<close> returns; Ed25519 and X25519 derive the vector's public keys from it, and X25519 ignores
  the bits that clamping fixes.
\<close>

definition hex_lower :: "hex_crate \<Rightarrow> bool" where
  "hex_lower X \<longleftrightarrow> hex_encode X [] = [] \<and>
     (\<forall>b bs. hex_encode X (b # bs) = nibble_char (drop_bit 4 b) # nibble_char (b AND 15) # hex_encode X bs)"

definition RAW_SCALAR :: bytes where
  "RAW_SCALAR = unhex ''683cd62939133d434f463c517cac2b5e22c1b77338d9367361100d4c82dcdccc''"

definition ed_vector :: "sig_api \<Rightarrow> 'c hpke_api \<Rightarrow> bool" where
  "ed_vector G H \<longleftrightarrow>
     verifying_key G TEST_SEED = unhex ''9b58e5628f7632f23c7f6837196b2892cd217855ca961318e5950b8e849ba538'' \<and>
     to_montgomery G (verifying_key G TEST_SEED) = unhex (kv_pkR test_seed_key) \<and>
     to_scalar_bytes G TEST_SEED = RAW_SCALAR \<and>
     hpke_sk_from_bytes H RAW_SCALAR = Some RAW_SCALAR \<and> hpke_sk_to_pk H RAW_SCALAR = unhex (kv_pkR test_seed_key)"

lemma ed_vector_facts:
  assumes "ed_vector G H"
  shows "verifying_key G TEST_SEED = unhex ''9b58e5628f7632f23c7f6837196b2892cd217855ca961318e5950b8e849ba538''"
    "to_montgomery G (verifying_key G TEST_SEED) = unhex (kv_pkR test_seed_key)" "to_scalar_bytes G TEST_SEED = RAW_SCALAR"
  using assms unfolding ed_vector_def by blast+

lemma hex_lower_encode: "hex_lower X \<Longrightarrow> hex_encode X bs = demo_hex_encode bs"
  by (induction bs) (simp_all add: hex_lower_def)

text \<open>Encoding inverts the reading of lowercase text, so different texts stand for different bytes.\<close>

lemma digit_text:
  assumes "hexdigit c"
  obtains x where "nibble_of (of_nat (of_char c)) = Some x" "nibble_char x = c" "take_bit 4 x = x"
proof -
  have "list_all (\<lambda>c. case nibble_of (of_nat (of_char c)) of None \<Rightarrow> False | Some x \<Rightarrow> nibble_char x = c \<and> take_bit 4 x = x)
      ''0123456789abcdef''"
    by code_simp
  then have "case nibble_of (of_nat (of_char c)) of None \<Rightarrow> False | Some x \<Rightarrow> nibble_char x = c \<and> take_bit 4 x = x"
    using hexdigit_set[OF assms] unfolding list_all_iff by blast
  then show thesis using that by (auto split: option.splits)
qed

lemma nibbles_split:
  assumes "take_bit 4 x = x" and "take_bit 4 y = (y :: byte)"
  shows "drop_bit 4 (push_bit 4 x OR y) = x" "(push_bit 4 x OR y) AND 15 = y"
proof -
  have low: "bit x n \<Longrightarrow> n < 4" "bit y n \<Longrightarrow> n < 4" for n
    using assms by (metis bit_take_bit_iff)+
  show "drop_bit 4 (push_bit 4 x OR y) = x"
    by (rule bit_eqI) (auto simp: bit_simps dest: low)
  have m: "15 = (mask 4 :: byte)" by (simp add: mask_eq_exp_minus_1)
  show "(push_bit 4 x OR y) AND 15 = y"
    unfolding m by (rule bit_eqI) (auto simp: bit_simps dest: low)
qed

lemma encode_unhex: "hex_text s \<Longrightarrow> demo_hex_encode (unhex s) = s"
proof (induction s rule: induct_list012)
  case (3 c d s)
  then have "hexdigit c" "hexdigit d" and s: "hex_text s" by (simp_all add: hex_text_def)
  then obtain x y where xy: "nibble_of (of_nat (of_char c)) = Some x" "nibble_char x = c" "take_bit 4 x = x"
      "nibble_of (of_nat (of_char d)) = Some y" "nibble_char y = d" "take_bit 4 y = y"
    by (metis digit_text)
  obtain bs where "demo_hex_decode (ascii s) = Some bs" by (rule hex_text_decode[OF s])
  then have "unhex (c # d # s) = (push_bit 4 x OR y) # unhex s" using xy by (simp add: unhex_def ascii_def)
  then show ?case using 3(1) s by (simp only: demo_hex_encode.simps nibbles_split[OF xy(3,6)] xy)
qed (simp_all add: unhex_def ascii_def hex_text_def)

lemma unhex_inject: "hex_text a \<Longrightarrow> hex_text b \<Longrightarrow> unhex a = unhex b \<longleftrightarrow> a = b"
  using encode_unhex by metis

lemma seed_text: "demo_hex_encode TEST_SEED = kv_seed test_seed_key"
  by code_simp

lemma key_hex:
  "hex_text (kv_pkR test_seed_key)" "hex_text (kv_skR test_seed_key)"
  "hex_text ''9b58e5628f7632f23c7f6837196b2892cd217855ca961318e5950b8e849ba538''"
  by code_simp+

lemmas key_texts = seed_text key_hex[THEN encode_unhex]

lemma pk_length: "length (unhex (kv_pkR test_seed_key)) = 32"
  by (simp add: hex_text_facts(2)[OF key_hex(1)]) (simp add: test_seed_key_def)

text \<open>The clamping of \<open>derive_kem_secret\<close> on the test seed.\<close>

lemma raw_clamped:
  "(let sk = RAW_SCALAR; sk = sk[0 := sk ! 0 AND 248]; sk = sk[31 := sk ! 31 AND 127]; sk = sk[31 := sk ! 31 OR 64] in sk) =
     unhex (kv_skR test_seed_key)" "RAW_SCALAR ! 31 AND 0x80 \<noteq> 0"
  by code_simp+

lemma test_seed_kem:
  assumes "ed_vector G H"
  shows "derive_kem_secret G TEST_SEED = unhex (kv_skR test_seed_key)"
  using raw_clamped(1) assms by (simp add: derive_kem_secret_def ed_vector_def)

lemma test_seed_state:
  assumes E: "ed_vector G H" and R: "reproduces H A (record_of post_json_rpc)"
  obtains st where "from_seed X G H TEST_SEED (chars ''1'') = Inr st" "signing_key st = TEST_SEED"
    "kem_secret st = x_sk (record_of post_json_rpc)" "signing_inv X G H st" "chain_id st = chars ''1''"
    "public_key H (kem_secret st) = Inr (unhex (kv_pkR test_seed_key))"
proof -
  have F: "fits ConfidentialSuite (record_of post_json_rpc)"
    using vector_parts(1) envelopes_framed by (simp add: envelopes_def)
  have same: "x_sk (record_of post_json_rpc) = unhex (kv_skR test_seed_key)"
    "x_pk (record_of post_json_rpc) = unhex (kv_pkR test_seed_key)"
    by (simp_all add: record_of_def post_json_rpc_def test_seed_key_def)
  have pk: "public_key H (derive_kem_secret G TEST_SEED) = Inr (unhex (kv_pkR test_seed_key))"
    using recorded_public_key[OF R F] by (simp add: test_seed_kem[OF E] same)
  moreover note pk_length
  ultimately have "seed_agrees G H TEST_SEED" using ed_vector_facts(2)[OF E] by (simp add: seed_agrees_def)
  then obtain st where "from_seed X G H TEST_SEED (chars ''1'') = Inr st" "signing_key st = TEST_SEED"
      "chain_id st = chars ''1''" "signing_inv X G H st"
    by (rule test_state)
  then show thesis using pk test_seed_kem[OF E] same by (intro that) (auto simp: signing_inv_def)
qed

lemma seed_key_tests:
  assumes X: "hex_pairs X" "hex_lower X" and E: "ed_vector G H" and R: "reproduces H A (record_of post_json_rpc)"
  shows "seed_derived_key_opens_go_vector_and_reseals_response X G H A test_seed_key post_json_rpc"
    "kem_key_matches_vector_and_montgomery_form X G H test_seed_key"
proof -
  let ?x = "record_of post_json_rpc"
  obtain st where st: "from_seed X G H TEST_SEED (chars ''1'') = Inr st" "signing_key st = TEST_SEED"
      "kem_secret st = x_sk ?x" "signing_inv X G H st" "chain_id st = chars ''1''"
      "public_key H (kem_secret st) = Inr (unhex (kv_pkR test_seed_key))"
    by (rule test_seed_state[OF E R])
  have e: "hex_framed post_json_rpc" using envelopes_framed by (simp add: envelopes_def)
  note parts = vector_parts[OF e]
  obtain ctx where "open_suite H A ConfidentialSuite (x_sk ?x) (hdr ConfidentialSuite @ x_enc ?x @ x_ct ?x) =
        Inr (x_pt ?x, ctx)" "seal_with_nonce ctx (x_nonce ?x) (x_msg ?x) = Inr (x_nonce ?x @ x_sealed ?x)"
    by (rule recorded_exchange[OF R parts(1)])
  moreover have "x_pt ?x = unhex (ev_bhttp_request post_json_rpc)" "x_nonce ?x = unhex (ev_response_nonce post_json_rpc)"
    "x_msg ?x = unhex (ev_bhttp_response post_json_rpc)"
    by (simp_all add: record_of_def)
  ultimately show "seed_derived_key_opens_go_vector_and_reseals_response X G H A test_seed_key post_json_rpc"
    using st vector_texts[OF e] parts(2,3)
    by (simp add: seed_derived_key_opens_go_vector_and_reseals_response_def test_hex_text_eq[OF X(1)]
        hex_lower_encode[OF X(2)] seed_text state_open_request_def open_request_def seal_def envelope_consts)
  have "x_sk ?x = unhex (kv_skR test_seed_key)" by (simp add: record_of_def post_json_rpc_def test_seed_key_def)
  moreover have "public_key H RAW_SCALAR = Inr (unhex (kv_pkR test_seed_key))"
    using E pk_length by (simp add: public_key_def ed_vector_def)
  moreover note ed_vector_facts[OF E]
  moreover have "kv_pkR test_seed_key = ''6ffa23f97ea11199a707e64f994c231f18bb61ee34f6fb05bbeabf4d140d0456''"
      "kv_skR test_seed_key = ''683cd62939133d434f463c517cac2b5e22c1b77338d9367361100d4c82dcdc4c''"
    by (simp_all only: test_seed_key_def key_vector.simps)
  moreover have "hex_encode X (unhex ''9b58e5628f7632f23c7f6837196b2892cd217855ca961318e5950b8e849ba538'') =
      ''9b58e5628f7632f23c7f6837196b2892cd217855ca961318e5950b8e849ba538''"
      "hex_encode X (unhex (kv_pkR test_seed_key)) = kv_pkR test_seed_key"
      "hex_encode X (unhex (kv_skR test_seed_key)) = kv_skR test_seed_key" "hex_encode X TEST_SEED = kv_seed test_seed_key"
    by (simp_all only: hex_lower_encode[OF X(2)] key_texts)
  ultimately show "kem_key_matches_vector_and_montgomery_form X G H test_seed_key"
    using st raw_clamped(2)
    by (simp only: kem_key_matches_vector_and_montgomery_form_def expect_simps pubkey_bytes_def Let_def simp_thms)
qed

section \<open>The vector tests pass\<close>

text \<open>
  C10: The code reproduces the recorded vectors.  For hexadecimal and BHTTP crates that follow their formats, and
  cryptographic crates that compute the values recorded by the Go implementation and RFC 9458, the tests of
  \<open>envelope.rs\<close> and \<open>signing.rs\<close> on those vectors pass: requests open to the recorded plaintexts and secrets, responses
  are sealed to the recorded bytes, every malformed or tampered request is refused with the one error, and
  the key derived from the test seed is the recorded one.
\<close>
theorem vector_tests_pass:
  assumes "hex_pairs X" "hex_lower X" "bhttp_reads B" "bhttp_writes B"
    and "reproduces H A rfc_record" "list_all (\<lambda>e. reproduces H A (record_of e)) envelopes"
    and "list_all (hpke_refuses H AesGcm256 (x_sk (record_of post_json_rpc)) (x_info (record_of post_json_rpc)))
      (tampered (record_of post_json_rpc))"
    and "ed_vector G H"
  shows "rfc9458_appendix_a_through_generic_framing X H A
    \<and> go_vector_opens_request_and_reseals_response X H A B envelopes
    \<and> every_pre_decapsulation_failure_is_the_same_error X H A (envelopes ! 0)
    \<and> seed_derived_key_opens_go_vector_and_reseals_response X G H A test_seed_key (envelopes ! 0)
    \<and> kem_key_matches_vector_and_montgomery_form X G H test_seed_key"
proof -
  have R: "reproduces H A (record_of post_json_rpc)" using assms(6) by (simp add: envelopes_def)
  have e: "hex_framed post_json_rpc" using envelopes_framed by (simp add: envelopes_def)
  have "go_vector_opens_request_and_reseals_response X H A B envelopes"
    unfolding go_vector_opens_request_and_reseals_response_def
    using go_vector_case_test[OF assms(1,3,4)] envelopes_framed envelopes_bhttp assms(6) unfolding list_all_iff by blast
  moreover have "envelopes ! 0 = post_json_rpc" by (simp add: envelopes_def)
  ultimately show ?thesis
    using rfc_test[OF assms(1,5)] failure_test[OF assms(1) e R assms(7)] seed_key_tests[OF assms(1,2,8) R] by simp
qed

text \<open>Crates that know a table of records: they compute its values and refuse everything else.\<close>

definition same_context :: "aead \<times> bytes \<times> bytes \<times> bytes \<Rightarrow> recorded \<Rightarrow> bool" where
  "same_context c x \<longleftrightarrow> (x_aead x, x_sk x, x_enc x, x_info x) = c"

definition table_hpke :: "recorded list \<Rightarrow> bytes \<Rightarrow> (aead \<times> bytes \<times> bytes \<times> bytes) hpke_api" where
  "table_hpke rs pk =
     \<lparr>hpke_sk_from_bytes = Some,
      hpke_sk_to_pk = (\<lambda>sk. case find (\<lambda>x. x_sk x = sk) rs of Some x \<Rightarrow> x_pk x | None \<Rightarrow> pk),
      hpke_pk_from_bytes = Some, hpke_enc_from_bytes = Some,
      hpke_setup_receiver = (\<lambda>a sk enc info. Some (a, sk, enc, info)),
      hpke_export = (\<lambda>c l n. map_option x_secret (find (same_context c) rs)),
      hpke_open = (\<lambda>c ct aad. map_option x_pt (find (\<lambda>x. same_context c x \<and> x_ct x = ct) rs)),
      hpke_setup_sender = (\<lambda>a rnd pk info. None), hpke_seal = (\<lambda>c pt aad. None)\<rparr>"

definition table_aead :: "recorded list \<Rightarrow> aead_api" where
  "table_aead rs =
     \<lparr>hkdf_extract = (\<lambda>salt ikm. salt @ ikm),
      hkdf_expand = (\<lambda>prk info n. map_option (if info = ascii ''key'' then x_key else x_iv)
        (find (\<lambda>x. x_enc x @ x_nonce x @ x_secret x = prk) rs)),
      gcm_key_size = (\<lambda>a. case a of AesGcm128 \<Rightarrow> 16 | AesGcm256 \<Rightarrow> 32),
      gcm_new_from_slice = (\<lambda>a. Some), gcm_nonce_try_from = (\<lambda>a. Some),
      gcm_encrypt_detached = (\<lambda>a k n aad pt. map_option (\<lambda>x. (take (length pt) (x_sealed x), drop (length pt) (x_sealed x)))
        (find (\<lambda>x. x_key x = k \<and> x_iv x = n \<and> x_msg x = pt) rs)),
      gcm_decrypt = (\<lambda>a k n ct. None)\<rparr>"

lemma find_SomeD: "find P rs = Some y \<Longrightarrow> y \<in> set rs \<and> P y"
  by (induction rs) (auto split: if_splits)

lemma find_unique:
  assumes "x \<in> set rs" and "P x" and "\<And>y. y \<in> set rs \<Longrightarrow> P y \<Longrightarrow> y = x"
  shows "find P rs = Some x"
proof (cases "find P rs")
  case (Some y)
  then show ?thesis using find_SomeD assms(3) by metis
qed (use assms(1,2) in \<open>simp add: find_None_iff\<close>)

definition table_ok :: "recorded list \<Rightarrow> bool" where
  "table_ok rs \<longleftrightarrow>
     distinct (map x_enc rs) \<and> distinct (map x_key rs) \<and>
     list_all (\<lambda>x. length (x_enc x) = 32 \<and> length (x_key x) = (case x_aead x of AesGcm128 \<Rightarrow> 16 | AesGcm256 \<Rightarrow> 32) \<and>
       list_all (\<lambda>y. x_sk x = x_sk y \<longrightarrow> x_pk x = x_pk y) rs) rs"

lemma table_reproduces:
  assumes "table_ok rs" and "x \<in> set rs"
  shows "reproduces (table_hpke rs pk) (table_aead rs) x"
proof -
  have enc: "y = x" if "y \<in> set rs" "x_enc y = x_enc x" for y
    using that assms by (auto simp: table_ok_def distinct_map dest: inj_onD)
  have key: "y = x" if "y \<in> set rs" "x_key y = x_key x" for y
    using that assms by (auto simp: table_ok_def distinct_map dest: inj_onD)
  have len: "length (x_enc y) = length (x_enc x)" if "y \<in> set rs" for y
    using that assms by (auto simp: table_ok_def list_all_iff)
  let ?c = "(x_aead x, x_sk x, x_enc x, x_info x)"
  have "find (same_context ?c) rs = Some x" "find (\<lambda>y. same_context ?c y \<and> x_ct y = x_ct x) rs = Some x"
    by (rule find_unique[OF assms(2)]; use enc in \<open>simp add: same_context_def\<close>)+
  moreover have "find (\<lambda>y. x_enc y @ x_nonce y @ x_secret y = x_enc x @ x_nonce x @ x_secret x) rs = Some x"
    by (rule find_unique[OF assms(2)]) (simp, metis append_eq_append_conv enc len)
  moreover have "find (\<lambda>y. x_key y = x_key x \<and> x_iv y = x_iv x \<and> x_msg y = x_msg x) rs = Some x"
    by (rule find_unique[OF assms(2)]) (simp, blast intro: key)
  moreover have "(case find (\<lambda>y. x_sk y = x_sk x) rs of Some y \<Rightarrow> x_pk y | None \<Rightarrow> pk) = x_pk x"
  proof (cases "find (\<lambda>y. x_sk y = x_sk x) rs")
    case (Some y)
    then have "y \<in> set rs" "x_sk y = x_sk x" by (auto dest: find_SomeD)
    then have "x_pk y = x_pk x" using assms unfolding table_ok_def list_all_iff by metis
    then show ?thesis using Some by simp
  next
    case None
    then have False using assms(2) unfolding find_None_iff by blast
    then show ?thesis ..
  qed
  moreover have "ascii ''nonce'' \<noteq> ascii ''key''" by (simp add: ascii_def)
  moreover have "length (x_key x) = (case x_aead x of AesGcm128 \<Rightarrow> 16 | AesGcm256 \<Rightarrow> 32)"
    using assms by (simp add: table_ok_def list_all_iff)
  ultimately show ?thesis by (simp add: reproduces_def table_hpke_def table_aead_def Let_def)
qed

definition all_records :: "recorded list" where
  "all_records = [rfc_record, record_of post_json_rpc, record_of inner_error_bad_request]"

lemma record_texts:
  "hex_text (ev_enc post_json_rpc)" "hex_text (ev_enc inner_error_bad_request)"
  "hex_text (ev_aead_key post_json_rpc)" "hex_text (ev_aead_key inner_error_bad_request)"
  "hex_text (ev_skR post_json_rpc)" "hex_text ''5d0172a080e428b16d298c4ea0db620d''"
  by code_simp+

lemma different_texts:
  "distinct [''4b28f881333e7c164ffc499ad9796f877f4e1051ee6d31bad19dec96c208b472'', ev_enc post_json_rpc, ev_enc inner_error_bad_request]"
  "distinct [''5d0172a080e428b16d298c4ea0db620d'', ev_aead_key post_json_rpc, ev_aead_key inner_error_bad_request]"
  "''3c168975674b2fa8e465970b79c8dcf09f1c741626480bd4c6162fc5b6a98e1a'' \<noteq> ev_skR post_json_rpc"
  "ev_skR inner_error_bad_request = ev_skR post_json_rpc" "ev_pkR inner_error_bad_request = ev_pkR post_json_rpc"
  by code_simp+

lemma one_key:
  assumes "x_sk a \<noteq> x_sk b" and "x_sk c = x_sk b" and "x_pk c = x_pk b"
  shows "list_all (\<lambda>x. list_all (\<lambda>y. x_sk x = x_sk y \<longrightarrow> x_pk x = x_pk y) [a, b, c]) [a, b, c]"
  using assms assms(1)[symmetric] by simp

lemma all_records_ok: "table_ok all_records"
proof -
  have "distinct (map x_enc all_records)" "distinct (map x_key all_records)"
    using different_texts(1,2) record_texts rfc_texts(4)
    by (simp_all add: all_records_def rfc_record_def record_of_def unhex_inject del: list.inject)
  moreover have "length (x_enc x) = 32" if "x \<in> set all_records" for x
    using that rfc_fits vector_parts(1) envelopes_framed by (auto simp: all_records_def fits_def envelopes_def)
  moreover have "list_all (\<lambda>x. length (x_key x) = (case x_aead x of AesGcm128 \<Rightarrow> 16 | AesGcm256 \<Rightarrow> 32)) all_records"
    using record_texts
    by (simp add: all_records_def rfc_record_def record_of_def hex_text_facts(2)) (simp add: post_json_rpc_def inner_error_bad_request_def)
  moreover have "list_all (\<lambda>x. list_all (\<lambda>y. x_sk x = x_sk y \<longrightarrow> x_pk x = x_pk y) all_records) all_records"
  proof -
    have "x_sk rfc_record \<noteq> x_sk (record_of post_json_rpc)"
      using different_texts(3) record_texts(5) rfc_texts(1)
      by (simp only: rfc_record_def record_of_def recorded.simps unhex_inject not_False_eq_True)
    moreover have "x_sk (record_of inner_error_bad_request) = x_sk (record_of post_json_rpc)"
      "x_pk (record_of inner_error_bad_request) = x_pk (record_of post_json_rpc)"
      using different_texts(4,5) by (simp_all add: record_of_def)
    ultimately show ?thesis unfolding all_records_def by (rule one_key)
  qed
  ultimately show ?thesis unfolding table_ok_def list_all_iff by blast
qed

lemma first_bytes:
  "take 1 (x_enc rfc_record) = [0x4b]" "take 1 (x_enc (record_of post_json_rpc)) = [0x2a]"
  "take 1 (x_enc (record_of inner_error_bad_request)) = [0xce]"
proof -
  have first: "take 1 (unhex s) = unhex (take 2 s)" if "hex_text s" "2 \<le> length s" for s
    using unhex_split[OF that(1), of 2] hex_text_facts(2)[OF hex_text_parts(1)[OF that(1), of 2]] that(2) by simp
  have "unhex (take 2 ''4b28f881333e7c164ffc499ad9796f877f4e1051ee6d31bad19dec96c208b472'') = [0x4b]"
    "unhex (take 2 (ev_enc post_json_rpc)) = [0x2a]" "unhex (take 2 (ev_enc inner_error_bad_request)) = [0xce]"
    "2 \<le> length (ev_enc post_json_rpc)" "2 \<le> length (ev_enc inner_error_bad_request)"
    by code_simp+
  then show "take 1 (x_enc rfc_record) = [0x4b]" "take 1 (x_enc (record_of post_json_rpc)) = [0x2a]"
    "take 1 (x_enc (record_of inner_error_bad_request)) = [0xce]"
    using first record_texts(1,2) rfc_texts(4) by (simp_all add: rfc_record_def record_of_def)
qed

text \<open>None of the changed requests is in the table.\<close>

lemma flip_differs: "i < length bs \<Longrightarrow> bs[i := bs ! i XOR 1] \<noteq> (bs :: bytes)"
proof
  assume "i < length bs" "bs[i := bs ! i XOR 1] = bs"
  then have "bs ! i XOR 1 = bs ! i" by (metis nth_list_update_eq)
  then have "bs ! i XOR (bs ! i XOR 1) = 0" by simp
  then show False by (simp only: xor.assoc[symmetric] xor_self_eq xor.left_neutral) simp
qed

lemma take_differs: "n < length xs \<Longrightarrow> take n xs \<noteq> xs"
  by (auto dest!: arg_cong[of _ _ length])

lemma tampered_unknown:
  assumes "p \<in> set (tampered (record_of post_json_rpc))" and "y \<in> set all_records"
  shows "(x_enc y, x_ct y) \<noteq> p"
proof
  let ?x = "record_of post_json_rpc"
  assume eq: "(x_enc y, x_ct y) = p"
  have F: "fits ConfidentialSuite ?x" and ct: "16 < length (x_ct ?x)"
  proof -
    have e: "hex_framed post_json_rpc" using envelopes_framed by (simp add: envelopes_def)
    then show "fits ConfidentialSuite ?x" by (rule vector_parts)
    have "hex_text (ev_encapsulated_request post_json_rpc)" "111 < length (ev_encapsulated_request post_json_rpc)"
      using e by (simp_all add: hex_framed_def)
    then show "16 < length (x_ct ?x)" by (simp add: record_of_def hex_text_facts(2) hex_text_parts)
  qed
  have first: "take 1 (x_enc y) \<in> {[0x4b], [0x2a], [0xce]}" using assms(2) first_bytes by (auto simp: all_records_def)
  have same: "y = ?x" if "x_enc y = x_enc ?x"
  proof -
    have "inj_on x_enc (set all_records)" using all_records_ok by (simp only: table_ok_def distinct_map)
    moreover have "?x \<in> set all_records" by (simp add: all_records_def)
    ultimately show ?thesis using that assms(2) by (metis inj_onD)
  qed
  obtain b bs where enc: "x_enc ?x = b # bs" using F by (cases "x_enc ?x") (auto simp: fits_def)
  then have "b = 0x2a" using first_bytes(2) by simp
  then have "(0x2a :: byte) XOR 1 = 0x2b" "take 1 ((x_enc ?x)[0 := x_enc ?x ! 0 XOR 1]) = [0x2a XOR 1]" by (simp_all add: enc)
  moreover from same have "x_ct y = x_ct ?x" if "x_enc y = x_enc ?x" using that by simp
  moreover have "(x_ct ?x)[0 := x_ct ?x ! 0 XOR 1] \<noteq> x_ct ?x"
      "(x_ct ?x)[length (x_ct ?x) - 1 := x_ct ?x ! (length (x_ct ?x) - 1) XOR 1] \<noteq> x_ct ?x"
    using ct by (intro flip_differs; linarith)+
  moreover have "take 16 (x_ct ?x) \<noteq> x_ct ?x" using ct by (rule take_differs)
  moreover have "take 1 (replicate 32 (0 :: byte)) = [0]" "take 1 (1 # replicate 31 (0 :: byte)) = [1]" by (simp_all add: numeral_eq_Suc)
  ultimately show False
    using assms(1) eq first ct by (auto simp: tampered_def Let_def)
qed

lemma table_refuses:
  assumes "\<And>y. y \<in> set rs \<Longrightarrow> (x_enc y, x_ct y) \<noteq> p"
  shows "hpke_refuses (table_hpke rs pk) a sk info p"
  using assms by (cases p) (auto simp: hpke_refuses_def table_hpke_def find_None_iff same_context_def)

section \<open>A recorded call through the endpoint\<close>

text \<open>The second vector asks for the path \<open>@evil.example/x\<close>, which would change the host when appended to the node's URL.\<close>

lemma evil_path_refused:
  assumes "bhttp_reads B"
  shows "decode_inner P B (unhex (ev_bhttp_request inner_error_bad_request)) = Inl BadRequest"
proof -
  let ?pt = "unhex (ev_bhttp_request inner_error_bad_request)"
  obtain m where m: "bh_read B ?pt = Some m" "bh_path B m = Some (ascii (ev_path inner_error_bad_request))"
    by (rule vector_request_read[OF inner_error_bhttp assms])
  have "take 1 (ascii (ev_path inner_error_bad_request)) \<noteq> ascii ''/''" by code_simp
  then have path: "inner_path B m = Inl BadRequest" by (simp add: inner_path_def m)
  have "encode_request [0] (ascii (ev_method inner_error_bad_request)) (ascii ''https'') (ascii ''localhost'')
      (ascii (ev_path inner_error_bad_request)) (ascii_fields (ev_fields inner_error_bad_request))
      (ascii (ev_body inner_error_bad_request)) [] = Some ?pt"
    using inner_error_bhttp by (simp add: bhttp_framed_def bhttp_request_def)
  then obtain framed where pt: "?pt = 0 # framed" by (auto simp: encode_request_Some)
  have "check_field_sections framed = Inl e \<Longrightarrow> e = BadRequest" for e
    by (auto simp: check_field_sections_def try_bind_Inl_iff simp del: check_limits.simps dest: error_only_bad)
  moreover have "inner_method P B m = Inl e \<Longrightarrow> e = BadRequest" for e
    by (auto simp: inner_method_def try_bind_Inl_iff split: if_splits)
  ultimately show ?thesis
    using m(1) path unfolding pt decode_inner_def
    by (cases "check_field_sections framed"; cases "inner_method P B m") auto
qed

lemma inner_error_encoded:
  assumes "bhttp_writes B"
  shows "encode_response B (inner_response_from BadRequest) = Some (unhex (ev_bhttp_response inner_error_bad_request))"
proof -
  have same: "ev_status inner_error_bad_request = 400" "ev_response_body inner_error_bad_request = error_body BadRequest"
    "ev_response_fields inner_error_bad_request = [(''content-type'', ''application/problem+json'')]"
    by (simp_all add: inner_error_bad_request_def)
  let ?m = "bh_write_content B (bh_put_header B (bh_response B 400) (ascii ''content-type'')
    (ascii ''application/problem+json'')) (ascii (error_body BadRequest))"
  obtain chunks written where w: "bh_write B ?m = (chunks, written)" by (cases "bh_write B ?m")
  then show ?thesis
    using vector_response_written[OF inner_error_bhttp assms, unfolded same]
    by (simp add: encode_response_def inner_response_from_def same del: error_body.simps)
qed

text \<open>
  C27: The recorded inner error, end to end.  A client posts the recorded request whose inner path points outside
  the node.  For every node and configuration whose request limit admits it, with the recorded response nonce drawn, the
  endpoint sends nothing upstream and answers 400 with exactly the recorded encapsulated response, which
  it signs, and reports the class \<open>bad-request\<close>: the path check, the fixed error body, its BHTTP encoding, the sealing and
  the status agree with the Go implementation to the byte.
\<close>
theorem inner_error_vector_is_reproduced:
  assumes B: "bhttp_reads (w_bhttp W)" "bhttp_writes (w_bhttp W)"
    and R: "reproduces (w_hpke W) (w_aead W) (record_of inner_error_bad_request)"
    and S: "signing_crates (w_hex W) (w_sig W) (w_http W)" "signing_inv (w_hex W) (w_sig W) (w_hpke W) st"
      "kem_secret st = unhex (ev_skR inner_error_bad_request)"
    and M: "limited_spec (w_runtime W)" "w_rnd W = Some (unhex (ev_response_nonce inner_error_bad_request))"
      "now_ms (w_clock0 W) = Inr t0" "now_ms (w_clock W) = Inr t1" "response_builds (w_http W)"
    and req: "body_data (rq_body req) = Some (unhex (ev_encapsulated_request inner_error_bad_request))"
      "length (unhex (ev_encapsulated_request inner_error_bad_request)) \<le> max_request_bytes cfg"
  shows "sends (exchange W c st cfg req) = [] \<and> (\<exists>resp oc. outcome (exchange W c st cfg req) = Some (resp, oc)
    \<and> rs_status resp = 400 \<and> rs_body resp = unhex (ev_encapsulated_response inner_error_bad_request)
    \<and> get_all ''content-type'' (rs_headers resp) = [ascii ''message/ohttp-res'']
    \<and> verify_signed_response (w_hex W) (w_sig W) (w_http W) (chain_id st)
        (unhex (ev_encapsulated_request inner_error_bad_request)) resp = Inr ()
    \<and> oc_class oc = ClsBadRequest)"
proof -
  let ?e = inner_error_bad_request and ?x = "record_of inner_error_bad_request"
  let ?q = "unhex (ev_encapsulated_request ?e)" and ?n = "unhex (ev_response_nonce ?e)" and ?a = "unhex (ev_encapsulated_response ?e)"
  have e: "hex_framed ?e" using envelopes_framed by (simp add: envelopes_def)
  note parts = vector_parts[OF e]
  obtain ctx where ctx: "open_suite (w_hpke W) (w_aead W) ConfidentialSuite (x_sk ?x) (hdr ConfidentialSuite @ x_enc ?x @ x_ct ?x) =
        Inr (x_pt ?x, ctx)" "seal_with_nonce ctx (x_nonce ?x) (x_msg ?x) = Inr (x_nonce ?x @ x_sealed ?x)"
    by (rule recorded_exchange[OF R parts(1)])
  have opened: "state_open_request (w_hpke W) (w_aead W) st ?q = Inr (unhex (ev_bhttp_request ?e), ctx)"
    using ctx(1) S(3) parts(2) by (simp add: state_open_request_def open_request_def) (simp add: record_of_def)
  have sealed: "seal ctx ?n (unhex (ev_bhttp_response ?e)) = Inr ?a"
    using ctx(2) parts(3) by (simp add: seal_def) (simp add: record_of_def)
  have run: "run_world W c cfg (unhex (ev_bhttp_request ?e)) = io_ret (inner_call_failed BadRequest 1)"
    by (simp add: run_inner_def evil_path_refused[OF B(1)])
  let ?sr = "sign_with_timestamp (w_sig W) st ?q ?a t1"
  let ?resp = "build_confidential_response (w_hex W) (w_http W) 400 1 ?a ?sr"
  have "sign (w_sig W) st (w_clock W) ?q ?a = Inr ?sr" using M(4) by (simp add: sign_def)
  note shape = confidential_response_shape[OF refl confidential_response_built[OF S(1,2) M(5) this]]
  have v: "verify_signed_response (w_hex W) (w_sig W) (w_http W) (chain_id st) ?q ?resp = Inr ()"
    using S(1,2) shape by (intro verify_accepts[where sr = ?sr and ts = t1]) auto
  have "seal_inner (w_bhttp W) ctx ?n (Inl BadRequest) = Some \<lparr>se_class = ClsBadRequest, se_inner_status = 400, se_body = ?a\<rparr>"
    by (simp add: seal_inner_def inner_error_encoded[OF B(2)] sealed) (simp add: inner_response_from_def)
  then have fin: "finish W st ?q ctx ?n (inner_call_failed BadRequest 1) =
      (?resp, \<lparr>oc_class = ClsBadRequest, oc_inner_status = 400, oc_batch_size = 1, oc_request_bytes = length ?q,
        oc_response_bytes = length ?a, oc_upstream_ms = 0\<rparr>)"
    using M(4) by (simp add: finish_def inner_call_failed_def sign_def Let_def)
  obtain t where "limited_collect (w_runtime W) (rq_body req) (max_request_bytes cfg) = Ready t (Inr ?q)"
    using M(1) req unfolding limited_spec_def by blast
  moreover have "sealable W" using M(2,3) by (simp add: sealable_def)
  ultimately show ?thesis
    using opened run fin v shape M(2)
    by (simp add: sends_exchange sends_after_open outcome_exchange outcome_after_open)
qed

section \<open>Instances\<close>

lemma demo_reads: "bhttp_reads demo_bhttp"
  unfolding bhttp_reads_def
proof (intro allI impI)
  fix m scheme authority path fs body out
  assume "m \<noteq> [] \<and> scheme \<noteq> [] \<and> authority \<noteq> [] \<and> path \<noteq> [] \<and> plain_fields fs \<and>
    encode_request [0] m scheme authority path fs body [] = Some out"
  then obtain c1 c2 c3 c4 hs s1 s2 s3 where v: "vec_of m = Some c1" "vec_of scheme = Some c2" "vec_of authority = Some c3"
      "vec_of path = Some c4" "field_section fs = Some hs" "vec_of hs = Some s1" "vec_of body = Some s2"
      and out: "out = [0] @ c1 @ c2 @ c3 @ c4 @ s1 @ s2 @ s3"
    by (auto simp: encode_request_Some)
  have "s1 \<noteq> []" "s2 \<noteq> []" using vec_of_nonempty v(6,7) by blast+
  then have "read_section (s1 @ s2 @ s3) = Some (hs, s2 @ s3)" "read_section (s2 @ s3) = Some (body, s3)"
    using read_vec_of[OF v(6)] read_vec_of[OF v(7)] by (simp_all add: read_section_def)
  moreover have "read_fields (length hs) hs = Some fs"
    by (rule read_fields_section[OF v(5) field_section_length[OF v(5)]])
  ultimately have "demo_read out = Some \<lparr>dm_method = Some m, dm_path = Some path, dm_status = None, dm_fields = fs, dm_content = body\<rparr>"
    using v(1-4) by (simp add: out demo_read_def read_vec_of read_tail_def)
  then show "\<exists>msg. bh_read demo_bhttp out = Some msg \<and> bh_method demo_bhttp msg = Some m \<and> bh_path demo_bhttp msg = Some path \<and>
      bh_fields demo_bhttp msg = fs \<and> bh_content demo_bhttp msg = body"
    by (simp add: demo_bhttp_def)
qed

lemma demo_writes: "bhttp_writes demo_bhttp"
proof -
  have "foldl (\<lambda>m (n, v). bh_put_header demo_bhttp m n v) msg fs = msg\<lparr>dm_fields := dm_fields msg @ fs\<rparr>" for msg fs
    by (induction fs arbitrary: msg) (auto simp: demo_bhttp_def)
  then show ?thesis
    by (auto simp: bhttp_writes_def known_length_response_def bind_eq_Some_conv Let_def demo_encode_def demo_bhttp_def)
qed

lemma demo_lower: "hex_lower demo_hex"
  by (simp add: hex_lower_def demo_hex_def)

definition table_sig :: sig_api where
  "table_sig = demo_sig
     \<lparr>verifying_key := (\<lambda>seed. unhex ''9b58e5628f7632f23c7f6837196b2892cd217855ca961318e5950b8e849ba538''),
      to_montgomery := (\<lambda>pk. unhex (kv_pkR test_seed_key)), to_scalar_bytes := (\<lambda>seed. RAW_SCALAR)\<rparr>"

abbreviation known_hpke :: "(aead \<times> bytes \<times> bytes \<times> bytes) hpke_api" where
  "known_hpke \<equiv> table_hpke all_records (unhex (kv_pkR test_seed_key))"

lemma known_records:
  "reproduces known_hpke (table_aead all_records) rfc_record"
  "reproduces known_hpke (table_aead all_records) (record_of post_json_rpc)"
  "reproduces known_hpke (table_aead all_records) (record_of inner_error_bad_request)"
  by (rule table_reproduces[OF all_records_ok]; simp add: all_records_def)+

lemma known_refused:
  "list_all (hpke_refuses known_hpke AesGcm256 (x_sk (record_of post_json_rpc)) (x_info (record_of post_json_rpc)))
     (tampered (record_of post_json_rpc))"
  unfolding list_all_iff using table_refuses tampered_unknown by blast

lemma known_keys: "ed_vector table_sig known_hpke"
proof -
  have "hex_text ''683cd62939133d434f463c517cac2b5e22c1b77338d9367361100d4c82dcdccc''" by code_simp
  then have raw: "x_sk rfc_record \<noteq> RAW_SCALAR"
    using rfc_texts(1) by (simp only: rfc_record_def recorded.simps RAW_SCALAR_def unhex_inject) simp
  have pk: "x_pk (record_of post_json_rpc) = unhex (kv_pkR test_seed_key)"
      "x_pk (record_of inner_error_bad_request) = unhex (kv_pkR test_seed_key)"
    by (simp_all add: record_of_def post_json_rpc_def inner_error_bad_request_def test_seed_key_def)
  have "hpke_sk_to_pk known_hpke RAW_SCALAR = unhex (kv_pkR test_seed_key)"
  proof (cases "find (\<lambda>x. x_sk x = RAW_SCALAR) all_records")
    case (Some x)
    then have "x \<in> set all_records" "x_sk x = RAW_SCALAR" by (auto dest: find_SomeD)
    then have "x_pk x = unhex (kv_pkR test_seed_key)" using raw pk by (auto simp: all_records_def)
    then show ?thesis using Some by (simp add: table_hpke_def)
  qed (simp add: table_hpke_def)
  then show ?thesis unfolding ed_vector_def by (simp add: table_sig_def) (simp add: table_hpke_def)
qed

theorem vector_tests_pass_witness:
  "rfc9458_appendix_a_through_generic_framing demo_hex known_hpke (table_aead all_records)
   \<and> kem_key_matches_vector_and_montgomery_form demo_hex table_sig known_hpke test_seed_key"
proof -
  have "list_all (\<lambda>e. reproduces known_hpke (table_aead all_records) (record_of e)) envelopes"
    using known_records by (simp add: envelopes_def)
  from vector_tests_pass[OF test_hex demo_lower demo_reads demo_writes known_records(1) this known_refused known_keys]
  show ?thesis by simp
qed

definition table_world :: "(aead \<times> bytes \<times> bytes \<times> bytes, demo_msg) world" where
  "table_world = \<lparr>w_hex = demo_hex, w_sig = table_sig, w_hpke = known_hpke, w_aead = table_aead all_records,
     w_http = demo_http, w_bhttp = demo_bhttp, w_json = demo_json, w_runtime = demo_node,
     w_tokio = \<lparr>timeout = demo_timeout\<rparr>, w_rnd = Some (unhex (ev_response_nonce inner_error_bad_request)),
     w_clock0 = 0, w_clock = 0\<rparr>"

definition table_post :: request where
  "table_post = demo_request\<lparr>rq_body := Next 1 (Data (unhex (ev_encapsulated_request inner_error_bad_request))) (Eof 0)\<rparr>"

lemma table_signs: "signing_crates demo_hex table_sig demo_http"
proof -
  have "ed_correct table_sig" "sha256_len table_sig"
    using hex_text_facts(2)[OF key_hex(3)] by (simp_all add: ed_correct_def sha256_len_def table_sig_def demo_sig_def)
  then show ?thesis using demo_crates by (simp add: signing_crates_def)
qed

theorem inner_error_vector_is_reproduced_witness:
  "\<exists>st resp oc. outcome (exchange table_world demo_client st demo_config table_post) = Some (resp, oc)
     \<and> rs_status resp = 400 \<and> rs_body resp = unhex (ev_encapsulated_response inner_error_bad_request)"
proof -
  obtain st where st: "signing_inv demo_hex table_sig known_hpke st" "kem_secret st = x_sk (record_of post_json_rpc)"
    by (rule test_seed_state[OF known_keys known_records(2)])
  have sk: "x_sk (record_of post_json_rpc) = unhex (ev_skR inner_error_bad_request)"
    using different_texts(4) by (simp add: record_of_def)
  have "hex_text (ev_encapsulated_request inner_error_bad_request)" "length (ev_encapsulated_request inner_error_bad_request) = 378"
    by code_simp+
  then have "length (unhex (ev_encapsulated_request inner_error_bad_request)) = 189" by (simp add: hex_text_facts(2))
  moreover have "limited_spec demo_node" using demo_crates_ok by (simp add: crates_ok_def)
  moreover note demo_clock
  ultimately have "sends (exchange table_world demo_client st demo_config table_post) = [] \<and>
     (\<exists>resp oc. outcome (exchange table_world demo_client st demo_config table_post) = Some (resp, oc)
      \<and> rs_status resp = 400 \<and> rs_body resp = unhex (ev_encapsulated_response inner_error_bad_request)
      \<and> get_all ''content-type'' (rs_headers resp) = [ascii ''message/ohttp-res'']
      \<and> verify_signed_response (w_hex table_world) (w_sig table_world) (w_http table_world) (chain_id st)
          (unhex (ev_encapsulated_request inner_error_bad_request)) resp = Inr ()
      \<and> oc_class oc = ClsBadRequest)"
    using st sk demo_reads demo_writes known_records(3) table_signs
    by (intro inner_error_vector_is_reproduced)
      (simp_all add: table_world_def table_post_def demo_config_def demo_http_builds)
  then show ?thesis by blast
qed

end
