(* ===== verification/Spec2Isabelle.thy ===== *)
theory Spec2Isabelle
  imports Main_Boot Call_Lifecycle Contract Vector_Tests
begin

text \<open>
  A verification development for \<open>rpc-attest-sidecar\<close>, a service that runs inside a confidential VM in
  front of an HTTP node, signs every answer with a hardware-attested key, and serves an encrypted route
  (\<open>POST /confidential\<close>) over the same key.  The sources are the Rust files under \<open>src/src\<close>.

  \<^bold>\<open>The program's parts and where they are modelled.\<close>

  \<^item> \<open>signing.rs\<close>, \<open>util.rs\<close> (theory \<open>Signing\<close>): \<open>SigningInner\<close> is the record \<open>signing_state\<close>; \<open>validate_chain_id\<close>,
    \<open>from_dstack_bytes\<close>, \<open>derive_kem_secret\<close>, \<open>check_kem_key\<close>, \<open>build_pre_image\<close>, \<open>now_ms\<close>, \<open>sign\<close> are the functions of
    those names.  \<open>signing_inv\<close> is the invariant every constructor establishes.
  \<^item> \<open>envelope.rs\<close> (theory \<open>Envelope\<close>): \<open>open_suite\<close> (\<open>open\<close>), \<open>seal_buf\<close>, \<open>seal_in_place\<close>, \<open>seal_response\<close>; buffers are byte
    lists and \<open>seal_in_place\<close> returns the buffer it leaves behind, also on errors.
  \<^item> \<open>proxy.rs\<close> (theory \<open>Proxy\<close>): \<open>UpstreamClient\<close> and the pipeline \<open>collect_request\<close>, \<open>send_upstream\<close>,
    \<open>collect_upstream_response\<close>, \<open>sign_or_500\<close>, \<open>build_signed_response\<close>, composed by \<open>run_pipeline\<close> and \<open>forward\<close>.
  \<^item> \<open>confidential.rs\<close> (theories \<open>Call_Outcome\<close>, \<open>Confidential\<close>, \<open>Exchange\<close>, \<open>Call_Lifecycle\<close>): the error and outcome
    classes and log lines; \<open>sealed_exchange\<close> and \<open>exchange\<close>; the guard that logs on drop; and the calls of a server,
    each the future of its handler (\<open>poll_call\<close>, \<open>drop_task\<close>), under a step relation that polls and drops them in any order.
  \<^item> \<open>confidential/inner.rs\<close> (theory \<open>Inner\<close>): the section bounds, the decoding rules, the batch count and the
    encoders; \<open>confidential/upstream.rs\<close> (theory \<open>Upstream_Call\<close>): one capped call to the node under a deadline.
  \<^item> \<open>attestation.rs\<close> (theory \<open>Attestation\<close>): boot, report data, nonces, the JSON of \<open>/attestation\<close>, and \<open>/info\<close>.
  \<^item> \<open>config.rs\<close> (theory \<open>Config\<close>), \<open>server.rs\<close> (theory \<open>Server\<close>), \<open>main.rs\<close> (theory \<open>Main_Boot\<close>): the command line,
    the router tree and the handlers behind it, boot, exit statuses and shutdown.
  \<^item> \<open>confidential/tests.rs\<close> (theory \<open>Client\<close>) and \<open>tests/common/mod.rs\<close> (theory \<open>Verifier\<close>): the repository has its
    clients only in its tests; the client's encoder, encapsulation and opening, and the verifier of signed
    answers, are modelled from there so that round trips can be stated against the repository's own client.
  \<^item> \<open>mod tests\<close> of \<open>signing.rs\<close>, \<open>attestation.rs\<close> (theory \<open>Unit_Tests\<close>), \<open>proxy.rs\<close> and \<open>config.rs\<close> (theory \<open>Http_Tests\<close>): each
    test as a Boolean over the model.  The tests on recorded vectors (\<open>envelope.rs\<close>, \<open>signing.rs\<close>, and the inner error of
    \<open>confidential/tests.rs\<close>) are in the theories \<open>Vectors\<close> and \<open>Vector_Tests\<close>, with the vectors of
    \<open>src/tests/vectors/confidential.json\<close> as data.

  \<^bold>\<open>How code is modelled.\<close>  Structs are records, enums datatypes, \<open>Result\<close> a sum with the error on the
  left (\<open>try_bind\<close> is \<open>?\<close>), machine integers words or naturals with the bound written out (\<open>usize\<close> has 64
  bits), strings lists of Unicode scalar values.  An \<open>async\<close> computation is the list of upstream requests it
  sends with its completion (\<open>io\<close>, theory \<open>Externals\<close>): ready after some nanoseconds, or never; so are the calls to
  dstack, which the code awaits without a deadline; a body is a stream of frames that may stall or break.  Code outside the repository (\<open>http\<close>, \<open>hyper\<close>, \<open>axum\<close>, \<open>clap\<close>, \<open>hpke\<close>,
  \<open>aes-gcm\<close>, \<open>ed25519-dalek\<close>, \<open>bhttp\<close>, \<open>serde_json\<close>, \<open>tokio\<close>, dstack) is a record of functions passed as a parameter;
  what a theorem needs of it is a named hypothesis stating documented behaviour (\<open>crates_ok\<close>, \<open>limited_spec\<close>,
  \<open>timeout_spec\<close>, \<open>axum_routes\<close>, \<open>axum_finish\<close>, \<open>compression_lossless\<close>, \<open>clap_numbers\<close>, ...).  The theories \<open>Instances\<close> and \<open>Bhttp_Instance\<close>
  give executable instances for which the hypotheses hold; every witness is evaluated on them.

  \<^bold>\<open>What is shown.\<close>  \<open>Signing\<close>: the pre-image layout, that a signature binds one call, the key derivation
  and its clamping, chain ids, that no timestamp is made up.  \<open>Proxy\<close>, \<open>Verifier\<close>: what is sent upstream, every answer and error,
  and that the client's verifier accepts relayed answers.  \<open>Inner\<close>, \<open>Client\<close>: the variable-length integers and
  the section check against reference definitions, decoding and batch counting, round trips with the
  client's encoder.  \<open>Upstream_Call\<close>, \<open>Exchange\<close>: termination within the deadline, the request sent, the
  answer relayed, that nothing is sent before the checks, which cause leads to which answer and class, what an
  observer of a sealed answer sees, the log line, and the round trip of a confidential call.  \<open>Attestation\<close>, \<open>Server\<close>:
  quotes bind the key and the nonce, and what a client reads from the JSON answer, whatever its encoding.
  \<open>Call_Lifecycle\<close>: an answered call has one line, which fits its answer, and a call dropped in flight one line of
  a cancelled call, however the futures are polled and dropped, as an invariant and as a refinement of an abstract ledger.
  \<open>Config\<close>, \<open>Server\<close>, \<open>Main_Boot\<close>: valid configurations, routing, compression after signing, a boot that fails
  closed and serves until the first signal, and that a request the upstream answers is delivered signed.  \<open>Contract\<close>: the confidential route against
  an abstract contract without messages, buffers or envelopes (what the node said, in time and within the cap,
  and what the client therefore reads), which the detailed definitions refine.  \<open>Unit_Tests\<close>, \<open>Http_Tests\<close>: the
  repository's unit tests hold of the model for all crates that behave as documented.  \<open>Vector_Tests\<close>: for crates that
  compute the values recorded by an independent implementation, the code yields the recorded bytes, in the
  envelope and through the whole endpoint.  The theorems below
  compose the parts: from the boot, through the quote served over HTTP, to the opened answer, and from what dstack
  said at boot to what \<open>/info\<close> and \<open>/attestation\<close> serve.

  \<^bold>\<open>Interfaces.\<close>  The locales are \<open>fixed_layout\<close> (byte layouts that bind their parts; the pre-image and the
  report data), \<open>header_strip\<close> (header filters; both legs of the proxy), \<open>varint_codec\<close> (an encoder and the
  reader it needs; the client's encoder and the server's reader), \<open>transition_system\<close>, \<open>simulation\<close> and \<open>call_handler\<close>
  (the call lifecycle: what a poll of a handler may do, interpreted on the handlers of \<open>/confidential\<close>).  Each is interpreted on the definitions of the model.

  \<^bold>\<open>Bounds.\<close>  No fuel is used: loops recurse over a list of frames, sections or JSON steps, or have a
  measure (\<open>trim_start_matches\<close>).  A body that never ends is a stalled one, which is a value of the model.

  \<^bold>\<open>Not modelled.\<close>  Wiping of secrets from memory and log output other than the confidential call's line
  (no effect on answers); connection pooling; the granularity of tokio's timers (a deadline is exact to the
  nanosecond) and the size limit of AES-GCM (far above any body that fits the caps' defaults); the panic when a
  signal handler cannot be installed; \<open>lib.rs\<close> (a module list); the unit tests
  that call a crate only (known answers of SHA-256, Ed25519 and HPKE); the asynchronous test files and their mock
  servers, apart from the client and the verifier they contain; build files.
\<close>

section \<open>From the quote to the answer\<close>

lemma quote_report:
  assumes h: "attestation_handler X st query = Ready t (Inr r)" "quotes_bind (as_dstack st) rd"
    and len: "length (as_signing_pubkey st) = 32"
  shows "take 32 (rd (ar_quote r)) = as_signing_pubkey st"
  using build_report_data_eq[OF len extract_nonce_length] len by (auto intro: attestation_handler_quote[OF h])

text \<open>A 200 of \<open>GET /attestation\<close> is the JSON of a quote the handler obtained.\<close>

lemma served_quote:
  assumes A: "axum_routes A" "compression_lossless A decode" "axum_finish A" "axum_answers A parse"
    and req: "u_path (rq_uri req) = ascii ''/attestation''" "rq_method req = ascii ''GET''"
    and out: "outcome (serve W A (build_router state max_body) started req) = Some resp" "rs_status resp = 200"
    and v: "parse (rs_body (decoded decode resp)) = Some v"
  obtains query t r where "attestation_handler (w_hex W) (app_attestation state) query = Ready t (Inr r)"
    "v = attestation_json (as_dstack (app_attestation state)) r"
proof -
  obtain t e where e: "attestation_endpoint W A state req = Ready t e"
    using out(1) by (cases "attestation_endpoint W A state req") (auto simp: serve_attestation[OF A(1) req] outcome_def io_fut_def)
  then have ok: "rs_status e = 200" "parse (rs_body e) = Some v"
    using out v served_endpoint[OF A req e, of max_body started] by (auto simp: outcome_def)
  obtain query h where h: "attestation_handler (w_hex W) (app_attestation state) query = Ready t h"
      and eq: "e = (case h of Inr r \<Rightarrow> ax_json A (attestation_json (as_dstack (app_attestation state)) r)
        | Inl (code, err) \<Rightarrow> ax_text A code (attestation_error_text err))"
  proof (cases "ax_query A req")
    case (Inl rejection)
    then show ?thesis using e ok(1) A(4) by (simp add: attestation_endpoint_def axum_answers_def)
  next
    case (Inr query)
    then obtain h where "attestation_handler (w_hex W) (app_attestation state) query = Ready t h"
        "e = (case h of Inr r \<Rightarrow> ax_json A (attestation_json (as_dstack (app_attestation state)) r)
          | Inl (code, err) \<Rightarrow> ax_text A code (attestation_error_text err))"
      using e unfolding attestation_endpoint_def Inr sum.case fut_map_iff(1) by (elim exE conjE)
    then show ?thesis by (rule that)
  qed
  show thesis
  proof (cases h)
    case (Inr r)
    then show ?thesis using that h eq ok(2) A(4) by (simp add: axum_answers_def)
  next
    case (Inl err)
    then show ?thesis using h eq ok(1) A(4) by (cases err) (auto simp: attestation_errors axum_answers_def)
  qed
qed

lemma served_identity:
  assumes "Serving app \<in> set (fst (sidecar_main W S))"
  shows "signing_inv (w_hex W) (w_sig W) (w_hpke W) (app_signing (snd app))
    \<and> as_signing_pubkey (app_attestation (snd app)) = pubkey_bytes (w_sig W) (app_signing (snd app))
    \<and> (\<exists>max_body. app = build_router (snd app) max_body)"
proof -
  obtain cfg d signing att up where "config_parse (h_clap S) = Some cfg"
      and id: "bootstrap_tdx_identity W cfg (h_dstack S (dstack_endpoint cfg)) = Ready d (Inr (signing, att))"
      and app: "app = build_router \<lparr>app_upstream = up, app_signing = signing, app_attestation = att,
         app_confidential = confidential_limits cfg\<rparr> (cfg_max_body_bytes cfg)"
    by (rule served_events[OF assms])
  show ?thesis
    by (rule bootstrap_identity_Inr[OF id]) (auto simp: app)
qed

lemma pubkey_length:
  "signing_crates X G P \<Longrightarrow> length (pubkey_bytes G st) = 32"
  by (simp add: signing_crates_def ed_correct_def pubkey_bytes_def)

text \<open>
  C1: The trust chain, from boot to answer.  A server that \<open>main\<close> brought up answers \<open>GET /attestation\<close> with 200; a
  client decodes the body, takes the first 32 bytes of the report data in its \<open>quote\<close> as the sidecar's key, encapsulates
  any plaintext to the X25519 form of that key and posts it to \<open>/confidential\<close> within the size limit.  It
  gets an answer whose signature verifies over the bytes sent and received under the booted chain id,
  whose announced key is the quoted one, and which opens to exactly what the inner call produced.
\<close>
theorem attested_confidential_call:
  assumes boot: "Serving app \<in> set (fst (sidecar_main W S))"
    and same: "w_hex V = w_hex W" "w_sig V = w_sig W" "w_hpke V = w_hpke W"
    and axum: "axum_routes A" "compression_lossless A decode" "axum_finish A" "axum_answers A parse"
    and crates: "crates_ok V (app_signing (snd app))" "answers_encodable V" "machine_ok V"
    and get: "u_path (rq_uri areq) = ascii ''/attestation''" "rq_method areq = ascii ''GET''"
      "outcome (serve V A app asked areq) = Some aresp" "rs_status aresp = 200"
      "parse (rs_body (decoded decode aresp)) = Some v" "json_field ''quote'' v = Some quote"
    and bind: "quotes_bind (as_dstack (app_attestation (snd app))) (\<lambda>q. rd (ds_quote_json (as_dstack (app_attestation (snd app))) q))"
    and client: "client_seal (w_hpke V) rnd (to_montgomery (w_sig V) (take 32 (rd quote))) pt = Some (q, cc)"
    and req: "u_path (rq_uri req) = ascii ''/confidential''" "rq_method req = ascii ''POST''"
      "body_data (rq_body req) = Some q" "length q \<le> max_request_bytes (app_confidential (snd app))"
  shows "\<exists>resp call s m. outcome (serve V A app started req) = Some resp
    \<and> verify_signed_response (w_hex V) (w_sig V) (w_http V) (chain_id (app_signing (snd app))) q resp = Inr ()
    \<and> get_all ''vrpc-pubkey'' (rs_headers resp) = [ascii (prefixed_hex (w_hex V) (take 32 (rd quote)))]
    \<and> outcome (run_world V (app_upstream (snd app)) (app_confidential (snd app)) pt) = Some call
    \<and> client_inner_response (w_aead V) (w_bhttp V) cc (rs_body resp) = Some m
    \<and> client_sees (w_bhttp V) m (sealed_result (w_bhttp V) (the (w_rnd V)) (ic_result call)) s"
proof -
  let ?st = "app_signing (snd app)"
  obtain max_body where id: "signing_inv (w_hex V) (w_sig V) (w_hpke V) ?st"
      "as_signing_pubkey (app_attestation (snd app)) = pubkey_bytes (w_sig V) ?st"
      and app: "app = build_router (snd app) max_body"
    using served_identity[OF boot] same by auto
  have "signing_crates (w_hex V) (w_sig V) (w_http V)" using crates(1) by (simp add: crates_ok_def)
  then have len: "length (as_signing_pubkey (app_attestation (snd app))) = 32" using id(2) pubkey_length by metis
  have served: "outcome (serve V A (build_router (snd app) max_body) asked areq) = Some aresp" using get(3) app by simp
  obtain query t r where "attestation_handler (w_hex V) (app_attestation (snd app)) query = Ready t (Inr r)"
      "v = attestation_json (as_dstack (app_attestation (snd app))) r"
    by (rule served_quote[OF axum get(1,2) served get(4,5)])
  then have key: "take 32 (rd quote) = pubkey_bytes (w_sig V) ?st"
    using quote_report[OF _ bind len] id(2) get(6) by (auto simp: attestation_json_def json_field_def)
  note rt = exchange_roundtrip[OF crates(1) id(1) crates(2,3) client[unfolded key] req(3,4), of "app_upstream (snd app)"]
  have post: "rq_method req \<noteq> ascii ''HEAD''" using req(2) by simp
  show ?thesis
    using rt serve_confidential(1)[OF axum(1) req(1,2), of V "snd app" max_body started] app key
      finish_keeps[OF axum(3) post] verify_finished[OF axum(3) post] by fastforce
qed

section \<open>What dstack said at boot\<close>

text \<open>
  The same server when its agent has become another one: what dstack answers while a request is handled need not be
  what it answered at boot.
\<close>

definition with_agent :: "'q dstack \<Rightarrow> router \<times> 'q app_state \<Rightarrow> router \<times> 'q app_state" where
  "with_agent D app = (fst app, (snd app)\<lparr>app_attestation := (app_attestation (snd app))\<lparr>as_dstack := D\<rparr>\<rparr>)"

lemma with_agent_router: "with_agent D (build_router state max_body) =
    build_router (state\<lparr>app_attestation := (app_attestation state)\<lparr>as_dstack := D\<rparr>\<rparr>) max_body"
  by (simp add: with_agent_def build_router_def Let_def)

lemma booted_info:
  assumes "bootstrap_tdx_identity W cfg D = Ready d (Inr (signing, att))"
  obtains t info where "ds_info D = Ready t (Some info)" "ds_info_json D info = Some (as_info_json att)"
    "as_compose_hash att = info_compose_hash info" "as_app_compose att = info_app_compose info"
    "info_compose_hash info \<noteq> [] \<or> allow_empty_compose_hash cfg"
  using assms that
  by (auto simp: bootstrap_tdx_identity_def attestation_bootstrap_def resolve_compose_hash_def Let_def
      fut_try_Inr_iff fut_map_Ready try_bind_Inr_iff split: if_splits)

lemma served_info:
  assumes A: "axum_routes A" "compression_lossless A decode" "axum_finish A"
    and req: "u_path (rq_uri req) = ascii ''/info''" "rq_method req = ascii ''GET''"
  shows "\<exists>resp. serve W A (build_router state max_body) started req = io_ret resp \<and> rs_status resp = 200
    \<and> get_all ''content-type'' (rs_headers resp) = [ascii ''application/json'']
    \<and> rs_body (decoded decode resp) = as_info_json (app_attestation state)"
proof -
  let ?i = "info_handler (app_attestation state)"
  have get: "rq_method req \<noteq> ascii ''HEAD''" using req(2) by simp
  have "get_all ''content-encoding'' (rs_headers ?i) = []" by (simp add: info_handler_def)
  from layers_keep[OF A(2,3) get this] show ?thesis
    by (intro exI[of _ "ax_finish A req (ax_compress A req ?i)"])
      (simp add: req serve_table[OF A(1)] route_table_def Let_def run_handler_def info_handler_def)
qed

lemma quoted_hashes:
  assumes "attestation_handler X st query = Ready t (Inr r)"
  shows "ar_compose_hash r = as_compose_hash st" "ar_app_compose r = as_app_compose st"
  using assms by (auto simp: attestation_handler_eq fut_map_iff split: sum.split_asm option.split_asm)

text \<open>
  C38: The deployment the sidecar reports is the one dstack named at boot.  A server that \<open>main\<close> brought up answers
  every \<open>GET /info\<close> at once, with 200 and the JSON of dstack's answer at boot, and every quote it serves comes with the compose
  hash and the compose file of that answer; the hash is not empty unless the operator allowed it.  This holds whatever
  dstack says or does by the time of the request, and neither path contacts the upstream.
\<close>
theorem boot_info_served:
  assumes boot: "Serving app \<in> set (fst (sidecar_main W S))"
    and A: "axum_routes A" "compression_lossless A decode" "axum_finish A" "axum_answers A parse"
  shows "\<exists>cfg t info json. config_parse (h_clap S) = Some cfg
    \<and> ds_info (h_dstack S (dstack_endpoint cfg)) = Ready t (Some info)
    \<and> ds_info_json (h_dstack S (dstack_endpoint cfg)) info = Some json
    \<and> (info_compose_hash info \<noteq> [] \<or> allow_empty_compose_hash cfg)
    \<and> (\<forall>D req started. u_path (rq_uri req) = ascii ''/info'' \<and> rq_method req = ascii ''GET'' \<longrightarrow>
         (\<exists>resp. serve V A (with_agent D app) started req = io_ret resp \<and> rs_status resp = 200
            \<and> get_all ''content-type'' (rs_headers resp) = [ascii ''application/json'']
            \<and> rs_body (decoded decode resp) = json))
    \<and> (\<forall>D req started resp v. u_path (rq_uri req) = ascii ''/attestation'' \<and> rq_method req = ascii ''GET''
         \<and> outcome (serve V A (with_agent D app) started req) = Some resp \<and> rs_status resp = 200
         \<and> parse (rs_body (decoded decode resp)) = Some v \<longrightarrow>
         sends (serve V A (with_agent D app) started req) = []
         \<and> json_field ''composeHash'' v = Some (JString (info_compose_hash info))
         \<and> json_field ''app_compose'' v = Some (JString (info_app_compose info)))"
proof -
  obtain cfg d signing att up where cfg: "config_parse (h_clap S) = Some cfg"
      and id: "bootstrap_tdx_identity W cfg (h_dstack S (dstack_endpoint cfg)) = Ready d (Inr (signing, att))"
      and app: "app = build_router \<lparr>app_upstream = up, app_signing = signing, app_attestation = att,
         app_confidential = confidential_limits cfg\<rparr> (cfg_max_body_bytes cfg)" (is "_ = build_router ?st ?max")
    by (rule served_events[OF boot])
  obtain t info where i: "ds_info (h_dstack S (dstack_endpoint cfg)) = Ready t (Some info)"
      "ds_info_json (h_dstack S (dstack_endpoint cfg)) info = Some (as_info_json att)"
      "as_compose_hash att = info_compose_hash info" "as_app_compose att = info_app_compose info"
      "info_compose_hash info \<noteq> [] \<or> allow_empty_compose_hash cfg"
    by (rule booted_info[OF id])
  let ?later = "\<lambda>D. ?st\<lparr>app_attestation := att\<lparr>as_dstack := D\<rparr>\<rparr>"
  have later: "with_agent D app = build_router (?later D) ?max" for D by (simp add: app with_agent_router)
  have quoted: "sends (serve V A (with_agent D app) started req) = []
       \<and> json_field ''composeHash'' v = Some (JString (info_compose_hash info))
       \<and> json_field ''app_compose'' v = Some (JString (info_app_compose info))"
    if req: "u_path (rq_uri req) = ascii ''/attestation''" "rq_method req = ascii ''GET''"
      and out: "outcome (serve V A (with_agent D app) started req) = Some resp" "rs_status resp = 200"
        "parse (rs_body (decoded decode resp)) = Some v" for D req started resp v
  proof -
    obtain query t r where h: "attestation_handler (w_hex V) (app_attestation (?later D)) query = Ready t (Inr r)"
        and v: "v = attestation_json (as_dstack (app_attestation (?later D))) r"
      by (rule served_quote[OF A req out(1)[unfolded later] out(2,3)])
    show ?thesis
      using quoted_hashes[OF h] i(3,4)
      by (simp add: v attestation_json_def json_field_def later serve_attestation[OF A(1) req] io_fut_def)
  qed
  show ?thesis
    using cfg i(1,2,5) served_info[OF A(1-3), of _ V "?later _" ?max] quoted unfolding later
    by (intro exI[of _ cfg] exI[of _ t] exI[of _ info] exI[of _ "as_info_json att"]) (simp, blast)
qed

section \<open>A concrete chain\<close>

definition demo_confidential_post :: request where
  "demo_confidential_post = demo_post\<lparr>rq_method := ascii ''POST'',
     rq_uri := \<lparr>u_scheme = None, u_authority = None, u_path = ascii ''/confidential'', u_path_and_query = None\<rparr>\<rparr>"

lemma demo_served_state:
  assumes "Serving app \<in> set (fst (sidecar_main demo_world demo_host))"
  shows "as_dstack (app_attestation (snd app)) = demo_dstack"
    and "max_request_bytes (app_confidential (snd app)) = 8388608"
proof -
  obtain cfg d signing att up where cfg: "config_parse (h_clap demo_host) = Some cfg"
      and id: "bootstrap_tdx_identity demo_world cfg (h_dstack demo_host (dstack_endpoint cfg)) = Ready d (Inr (signing, att))"
      and app: "app = build_router \<lparr>app_upstream = up, app_signing = signing, app_attestation = att,
         app_confidential = confidential_limits cfg\<rparr> (cfg_max_body_bytes cfg)"
    by (rule served_events[OF assms])
  have "confidential_max_body_bytes cfg = 8388608"
    using cfg by (auto simp: config_parse_def arg_def arg_default_def arg_optional_def demo_clap_args demo_chain_id
        bind_eq_Some_conv number_bounds(4)[OF demo_clap_numbers] usize_max_def)
  then show "max_request_bytes (app_confidential (snd app)) = 8388608"
    by (simp add: app confidential_limits_def)
  show "as_dstack (app_attestation (snd app)) = demo_dstack"
    by (rule bootstrap_identity_Inr[OF id]) (simp add: app)
qed

lemma demo_quote:
  assumes "as_dstack st = demo_dstack"
  shows "\<exists>r. attestation_handler demo_hex st (Some (chars (demo_hex_encode (replicate 32 7)))) = Ready 4 (Inr r)"
proof -
  have "parse_user_nonce demo_hex (chars (concat (replicate 0 ''0x'') @ concat (replicate 0 ''0X'') @
      hex_encode demo_hex (replicate 32 7))) = Inr (replicate 32 7)"
    by (rule parse_nonce_text[OF demo_hex_digits demo_hex_roundtrip]) simp
  then show ?thesis
    using assms by (simp add: attestation_handler_eq extract_nonce_def demo_dstack_def demo_hex_def)
qed

definition demo_report :: "json \<Rightarrow> bytes" where
  "demo_report v = (case json_field ''quote'' v of Some (JString s) \<Rightarrow> map of_nat s | _ \<Rightarrow> [])"

lemma demo_report_binds: "quotes_bind demo_dstack (\<lambda>q. demo_report (ds_quote_json demo_dstack q))"
  by (simp add: quotes_bind_def demo_dstack_def demo_report_def json_field_def comp_def)

lemma demo_attestation_served:
  assumes "Serving app \<in> set (fst (sidecar_main demo_world demo_host))"
  obtains aresp v quote where "outcome (serve demo_world demo_axum app 0 demo_quote_request) = Some aresp"
    "rs_status aresp = 200" "demo_parse (rs_body (decoded demo_decode aresp)) = Some v" "json_field ''quote'' v = Some quote"
proof -
  obtain max_body where app: "app = build_router (snd app) max_body" using served_identity[OF assms] by blast
  note st = demo_served_state[OF assms]
  obtain r where "attestation_handler demo_hex (app_attestation (snd app)) (Some (chars (demo_hex_encode (replicate 32 7)))) = Ready 4 (Inr r)"
    using demo_quote[OF st(1)] by blast
  then have "attestation_endpoint demo_world demo_axum (snd app) demo_quote_request = Ready 4 (ax_json demo_axum (attestation_json demo_dstack r))"
    by (simp add: attestation_endpoint_def demo_quote_req(3) st(1))
  from served_endpoint[OF demo_axum_routes demo_lossless demo_finish(1) demo_answers demo_quote_req(1,2) this, of max_body 0, folded app]
  obtain aresp where aresp: "outcome (serve demo_world demo_axum app 0 demo_quote_request) = Some aresp"
      and "rs_status aresp = 200" "demo_parse (rs_body (decoded demo_decode aresp)) = Some (attestation_json demo_dstack r)"
    using demo_answers by (auto simp: axum_answers_def outcome_def)
  then show thesis
    by (intro that[OF aresp, of "attestation_json demo_dstack r"]) (simp_all add: attestation_json_def json_field_def)
qed

theorem attested_confidential_call_witness:
  "\<exists>app resp m. Serving app \<in> set (fst (sidecar_main demo_world demo_host))
     \<and> outcome (serve demo_world demo_axum app 0 demo_confidential_post) = Some resp
     \<and> verify_signed_response demo_hex demo_sig demo_http (chain_id (app_signing (snd app))) demo_outer resp = Inr ()
     \<and> client_inner_response demo_aead demo_bhttp demo_cc (rs_body resp) = Some m"
proof -
  obtain app where app: "Serving app \<in> set (fst (sidecar_main demo_world demo_host))"
    by (rule demo_served_app)
  note st = demo_served_state[OF app]
  obtain aresp v quote where a: "outcome (serve demo_world demo_axum app 0 demo_quote_request) = Some aresp"
      "rs_status aresp = 200" "demo_parse (rs_body (decoded demo_decode aresp)) = Some v" "json_field ''quote'' v = Some quote"
    by (rule demo_attestation_served[OF app])
  have crates: "crates_ok demo_world (app_signing (snd app))"
    using demo_crates_ok by (simp add: crates_ok_def demo_hpke_zero_correct)
  have req: "u_path (rq_uri demo_confidential_post) = ascii ''/confidential''"
    "rq_method demo_confidential_post = ascii ''POST''" "body_data (rq_body demo_confidential_post) = Some demo_outer"
    "length demo_outer \<le> max_request_bytes (app_confidential (snd app))"
    using demo_post_body st(2) by (simp_all add: demo_confidential_post_def)
  show ?thesis
    using attested_confidential_call[OF app refl refl refl demo_axum_routes demo_lossless demo_finish(1) demo_answers crates
        demo_encodable demo_machine demo_quote_req(1,2) a demo_report_binds[folded st(1)] _ req, of "[5]" demo_plaintext demo_cc 0]
      demo_client_seal app
    by (intro exI[of _ app]) auto
qed

definition demo_info_request :: request where
  "demo_info_request = demo_quote_request\<lparr>rq_uri :=
     \<lparr>u_scheme = None, u_authority = None, u_path = ascii ''/info'', u_path_and_query = None\<rparr>\<rparr>"

theorem boot_info_served_witness:
  "\<exists>app resp aresp v. Serving app \<in> set (fst (sidecar_main demo_world demo_host))
     \<and> outcome (serve demo_world demo_axum (with_agent (demo_dstack\<lparr>ds_info := Never\<rparr>) app) 0 demo_info_request) = Some resp
     \<and> rs_body (decoded demo_decode resp) = [123, 125]
     \<and> outcome (serve demo_world demo_axum app 0 demo_quote_request) = Some aresp
     \<and> demo_parse (rs_body (decoded demo_decode aresp)) = Some v
     \<and> json_field ''composeHash'' v = Some (JString [97])"
proof -
  obtain app where app: "Serving app \<in> set (fst (sidecar_main demo_world demo_host))"
    by (rule demo_served_app)
  have same: "with_agent demo_dstack app = app"
    using demo_served_state(1)[OF app] by (cases app) (simp add: with_agent_def)
  obtain aresp v quote where a: "outcome (serve demo_world demo_axum app 0 demo_quote_request) = Some aresp"
      "rs_status aresp = 200" "demo_parse (rs_body (decoded demo_decode aresp)) = Some v" "json_field ''quote'' v = Some quote"
    by (rule demo_attestation_served[OF app])
  have i: "u_path (rq_uri demo_info_request) = ascii ''/info''" "rq_method demo_info_request = ascii ''GET''"
    using demo_quote_req(2) by (simp_all add: demo_info_request_def)
  let ?hung = "demo_dstack\<lparr>ds_info := Never\<rparr>"
  obtain info json where ij: "Ready 2 (Some \<lparr>info_compose_hash = [97], info_app_compose = [98]\<rparr>) = Ready 2 (Some info)" "Some [123, 125] = Some json"
      and served: "\<exists>resp. serve demo_world demo_axum (with_agent ?hung app) 0 demo_info_request = io_ret resp
         \<and> rs_body (decoded demo_decode resp) = json"
      and quoted: "json_field ''composeHash'' v = Some (JString (info_compose_hash info))"
    using boot_info_served[OF app demo_axum_routes demo_lossless demo_finish(1) demo_answers, of demo_world]
      i a(1-3) demo_quote_req(1,2) same
    unfolding demo_host_sel demo_dstack_sel by (elim exE conjE) (metis fut.inject)
  then obtain resp where "outcome (serve demo_world demo_axum (with_agent ?hung app) 0 demo_info_request) = Some resp"
      "rs_body (decoded demo_decode resp) = [123, 125]"
    by auto
  moreover have "json_field ''composeHash'' v = Some (JString [97])" using quoted ij(1) by auto
  ultimately show ?thesis using app a(1,3) by blast
qed

end
